theory Spec2Isabelle
  imports Complex_Main "HOL-Library.Log_Nat"
begin

section \<open>Binary floating point, as the arithmetic of the C++ types float and double\<close>

text \<open>
  The class template \<^verbatim>\<open>FastSin<T, Degree>\<close> of \<^verbatim>\<open>fast_sin.h\<close> computes with
  \<^verbatim>\<open>double\<close> and with its parameter \<^verbatim>\<open>T\<close> (\<^verbatim>\<open>float\<close> or \<^verbatim>\<open>double\<close>). Both are
  modelled by one type of values: a finite value is the rational number it denotes, and
  the two infinities and NaN are values of their own. Every operation computes the exact
  rational result and rounds it to the format of the operation (round to nearest, ties
  to even, gradual underflow, overflow to an infinity), which is what IEEE 754 prescribes
  for \<^verbatim>\<open>+\<close>, \<^verbatim>\<open>-\<close>, \<^verbatim>\<open>*\<close>, \<^verbatim>\<open>/\<close> and for conversions. The sign of a zero is not
  represented: \<^verbatim>\<open>-0.0\<close> and \<^verbatim>\<open>+0.0\<close> are both \<open>Fin 0\<close> (they compare equal in the
  source, and the source never divides by a zero). Each operation of the source is
  rounded by itself, to the format that the types of its operands give it: no
  multiplication is fused with an addition, and no intermediate value is kept at a
  higher precision.
\<close>

datatype fmt = Binary32 | Binary64

text \<open>Precision in bits, and the exponents of the smallest and the largest quantum.\<close>

fun prec :: "fmt \<Rightarrow> int" where
  "prec Binary32 = 24"
| "prec Binary64 = 53"

fun qmin :: "fmt \<Rightarrow> int" where
  "qmin Binary32 = - 149"
| "qmin Binary64 = - 1074"

fun qmax :: "fmt \<Rightarrow> int" where
  "qmax Binary32 = 104"
| "qmax Binary64 = 971"

definition pow2 :: "int \<Rightarrow> rat" where
  "pow2 k = 2 powi k"

text \<open>The largest finite value of a format: \<open>(2 ^ prec - 1) * 2 ^ qmax\<close>.\<close>

definition max_finite :: "fmt \<Rightarrow> rat" where
  "max_finite T = (pow2 (prec T) - 1) * pow2 (qmax T)"

text \<open>\<open>ilog2 x\<close> is the binary exponent of \<open>x \<noteq> 0\<close>: \<open>2 ^ ilog2 x \<le> \<bar>x\<bar> < 2 ^ (ilog2 x + 1)\<close>.\<close>

definition ilog2 :: "rat \<Rightarrow> int" where
  "ilog2 x = (case quotient_of \<bar>x\<bar> of (a, b) \<Rightarrow>
     (let k = bitlen a - bitlen b in if pow2 k \<le> \<bar>x\<bar> then k else k - 1))"

definition round_half_even :: "rat \<Rightarrow> int" where
  "round_half_even y =
     (let f = \<lfloor>y\<rfloor>; d = y - of_int f in
      if d < 1 / 2 then f
      else if 1 / 2 < d then f + 1
      else if even f then f else f + 1)"

datatype fp = Fin rat | PInf | NInf | NaN

text \<open>The quantum (unit in the last place) that a nonzero \<open>x\<close> is rounded to.\<close>

definition quantum :: "fmt \<Rightarrow> rat \<Rightarrow> int" where
  "quantum T x = max (ilog2 x - (prec T - 1)) (qmin T)"

definition rnd :: "fmt \<Rightarrow> rat \<Rightarrow> fp" where
  "rnd T x =
     (if x = 0 then Fin 0
      else
        (let q = quantum T x;
             r = of_int (round_half_even (x / pow2 q)) * pow2 q
         in if max_finite T < \<bar>r\<bar> then (if 0 < x then PInf else NInf) else Fin r))"

fun fneg :: "fp \<Rightarrow> fp" where
  "fneg (Fin x) = Fin (- x)"
| "fneg PInf = NInf"
| "fneg NInf = PInf"
| "fneg NaN = NaN"

fun fadd :: "fmt \<Rightarrow> fp \<Rightarrow> fp \<Rightarrow> fp" where
  "fadd T (Fin x) (Fin y) = rnd T (x + y)"
| "fadd T NaN b = NaN"
| "fadd T a NaN = NaN"
| "fadd T PInf NInf = NaN"
| "fadd T NInf PInf = NaN"
| "fadd T PInf b = PInf"
| "fadd T NInf b = NInf"
| "fadd T a PInf = PInf"
| "fadd T a NInf = NInf"

definition fsub :: "fmt \<Rightarrow> fp \<Rightarrow> fp \<Rightarrow> fp" where
  "fsub T a b = fadd T a (fneg b)"

fun fmul :: "fmt \<Rightarrow> fp \<Rightarrow> fp \<Rightarrow> fp" where
  "fmul T (Fin x) (Fin y) = rnd T (x * y)"
| "fmul T NaN b = NaN"
| "fmul T a NaN = NaN"
| "fmul T (Fin x) b = (if x = 0 then NaN else if 0 < x then b else fneg b)"
| "fmul T a (Fin y) = (if y = 0 then NaN else if 0 < y then a else fneg a)"
| "fmul T PInf b = b"
| "fmul T NInf b = fneg b"

text \<open>
  Division. A finite nonzero value divided by zero is an infinity whose sign the model
  takes from the dividend alone. The source divides only by the nonzero constant
  \<^verbatim>\<open>PI_MULT_2\<close>.
\<close>

fun fdiv :: "fmt \<Rightarrow> fp \<Rightarrow> fp \<Rightarrow> fp" where
  "fdiv T (Fin x) (Fin y) =
     (if y = 0 then (if x = 0 then NaN else if 0 < x then PInf else NInf)
      else rnd T (x / y))"
| "fdiv T NaN b = NaN"
| "fdiv T a NaN = NaN"
| "fdiv T (Fin x) b = Fin 0"
| "fdiv T a (Fin y) = (if 0 \<le> y then a else fneg a)"
| "fdiv T a b = NaN"

text \<open>Comparisons: every comparison with NaN is false.\<close>

fun flt :: "fp \<Rightarrow> fp \<Rightarrow> bool" where
  "flt (Fin x) (Fin y) = (x < y)"
| "flt NaN b = False"
| "flt a NaN = False"
| "flt a NInf = False"
| "flt PInf b = False"
| "flt NInf b = True"
| "flt a PInf = True"

fun feq :: "fp \<Rightarrow> fp \<Rightarrow> bool" where
  "feq (Fin x) (Fin y) = (x = y)"
| "feq PInf PInf = True"
| "feq NInf NInf = True"
| "feq a b = False"

definition fle :: "fp \<Rightarrow> fp \<Rightarrow> bool" where
  "fle a b = (flt a b \<or> feq a b)"

definition fgt :: "fp \<Rightarrow> fp \<Rightarrow> bool" where
  "fgt a b = flt b a"

definition fge :: "fp \<Rightarrow> fp \<Rightarrow> bool" where
  "fge a b = fle b a"

text \<open>\<^verbatim>\<open>static_cast<T>(d)\<close> and the conversion of a returned double to \<^verbatim>\<open>T\<close>.\<close>

fun narrow :: "fmt \<Rightarrow> fp \<Rightarrow> fp" where
  "narrow T (Fin x) = rnd T x"
| "narrow T a = a"

text \<open>A decimal literal of the source, which the compiler rounds to a double.\<close>

definition lit :: "rat \<Rightarrow> fp" where
  "lit x = rnd Binary64 x"

section \<open>Undefined behaviour, and the type int\<close>

text \<open>
  \<^verbatim>\<open>int\<close> is the 32-bit two's complement integer. Converting a double whose truncated
  value is not an \<^verbatim>\<open>int\<close> (or that is not finite), overflowing \<^verbatim>\<open>++\<close> or \<^verbatim>\<open>--\<close>,
  and reaching the end of a function that returns a value are undefined behaviour in
  C++; the model gives each a name and stops there.
\<close>

datatype ub = FloatToIntOutOfRange | SignedOverflow | MissingReturn

definition INT_MIN :: int where
  "INT_MIN = - 2147483648"

definition INT_MAX :: int where
  "INT_MAX = 2147483647"

definition in_int_range :: "int \<Rightarrow> bool" where
  "in_int_range n = (INT_MIN \<le> n \<and> n \<le> INT_MAX)"

text \<open>Truncation toward zero.\<close>

definition trunc :: "rat \<Rightarrow> int" where
  "trunc x = (if 0 \<le> x then \<lfloor>x\<rfloor> else - \<lfloor>- x\<rfloor>)"

fun double_to_int :: "fp \<Rightarrow> ub + int" where
  "double_to_int (Fin x) =
     (if in_int_range (trunc x) then Inr (trunc x) else Inl FloatToIntOutOfRange)"
| "double_to_int a = Inl FloatToIntOutOfRange"

text \<open>An \<^verbatim>\<open>int\<close> converts to a double exactly.\<close>

definition int_to_double :: "int \<Rightarrow> fp" where
  "int_to_double n = Fin (of_int n)"

definition int_add :: "int \<Rightarrow> int \<Rightarrow> ub + int" where
  "int_add a b = (if in_int_range (a + b) then Inr (a + b) else Inl SignedOverflow)"

section \<open>The class FastSin\<close>

text \<open>The constants of lines 82 to 86, each computed as the source computes it.\<close>

definition FAST_SIN_PI :: fp where
  "FAST_SIN_PI = lit (3141592653589793 / 10 ^ 15)"

definition PI_DIV_2 :: fp where
  "PI_DIV_2 = fdiv Binary64 FAST_SIN_PI (lit 2)"

definition PI_MULT_3_DIV_2 :: fp where
  "PI_MULT_3_DIV_2 = fdiv Binary64 (fmul Binary64 FAST_SIN_PI (lit 3)) (lit 2)"

definition PI_MULT_2 :: fp where
  "PI_MULT_2 = fmul Binary64 (lit 2) FAST_SIN_PI"

definition PI_MULT_4 :: fp where
  "PI_MULT_4 = fmul Binary64 (lit 4) FAST_SIN_PI"

text \<open>
  The data members (lines 89 to 92). \<^verbatim>\<open>m_previousAngle\<close> has type \<^verbatim>\<open>T\<close>. A new object
  has \<^verbatim>\<open>m_hasValidPreviousAngle = false\<close> and indeterminate values in the other three.
\<close>

record FastSin =
  m_hasValidPreviousAngle :: bool
  m_previousAngle :: fp
  m_previousFullCyckles :: int
  m_previousFullCycklesAngle :: fp

text \<open>
  Lines 102 to 134, the body of \<^verbatim>\<open>if (m_hasValidPreviousAngle)\<close>: the result is the value
  of \<^verbatim>\<open>angleShort\<close> and the object after it. Line 104 is \<open>fast_path_diff\<close>:
  \<^verbatim>\<open>angle - m_previousAngle\<close> subtracts two values of type \<^verbatim>\<open>T\<close>, so it is a subtraction
  of \<^verbatim>\<open>T\<close>, whose result is then converted to double without change. Every other
  operation has a double operand and is a double operation.
\<close>

definition fast_path_diff :: "fmt \<Rightarrow> FastSin \<Rightarrow> fp \<Rightarrow> fp" where
  "fast_path_diff T s angle = fsub T angle (m_previousAngle s)"

definition fast_path :: "fmt \<Rightarrow> FastSin \<Rightarrow> fp \<Rightarrow> ub + (fp \<times> FastSin)" where
  "fast_path T s angle =
     (let diff = fast_path_diff T s angle;
          angleShort = fsub Binary64 angle (m_previousFullCycklesAngle s)
      in
        if fgt diff (lit 0) then
          (if fgt angleShort PI_MULT_2 then
             (if fle angleShort PI_MULT_4 then
                (case int_add (m_previousFullCyckles s) 1 of
                   Inl e \<Rightarrow> Inl e
                 | Inr c \<Rightarrow>
                     (let ca = fmul Binary64 (int_to_double c) PI_MULT_2
                      in Inr (fsub Binary64 angle ca,
                              s\<lparr>m_previousFullCyckles := c, m_previousFullCycklesAngle := ca\<rparr>)))
              else Inr (angleShort, s\<lparr>m_hasValidPreviousAngle := False\<rparr>))
           else Inr (angleShort, s))
        else
          (if flt angleShort (lit 0) then
             (if fge angleShort (fneg PI_MULT_2) then
                (case int_add (m_previousFullCyckles s) (- 1) of
                   Inl e \<Rightarrow> Inl e
                 | Inr c \<Rightarrow>
                     (let ca = fmul Binary64 (int_to_double c) PI_MULT_2
                      in Inr (fsub Binary64 angle ca,
                              s\<lparr>m_previousFullCyckles := c, m_previousFullCycklesAngle := ca\<rparr>)))
              else Inr (angleShort, s\<lparr>m_hasValidPreviousAngle := False\<rparr>))
           else Inr (angleShort, s)))"

text \<open>
  Lines 137 to 143, the body of \<^verbatim>\<open>if (!m_hasValidPreviousAngle)\<close>. The double \<^verbatim>\<open>div\<close> (here \<open>div'\<close>) is
  converted to \<^verbatim>\<open>int\<close> twice, by the assignment of line 140 and by the cast of line 142.
\<close>

definition slow_path :: "FastSin \<Rightarrow> fp \<Rightarrow> ub + (fp \<times> FastSin)" where
  "slow_path s angle =
     (let div' = fdiv Binary64 angle PI_MULT_2 in
      case double_to_int div' of
        Inl e \<Rightarrow> Inl e
      | Inr c \<Rightarrow>
          (let ca = fmul Binary64 (int_to_double c) PI_MULT_2 in
           case double_to_int div' of
             Inl e \<Rightarrow> Inl e
           | Inr c' \<Rightarrow>
               Inr (fmul Binary64 (fsub Binary64 div' (int_to_double c')) PI_MULT_2,
                    s\<lparr>m_previousFullCyckles := c, m_previousFullCycklesAngle := ca\<rparr>)))"

text \<open>
  Lines 98 to 143: the two \<^verbatim>\<open>if\<close> statements in sequence. The local \<^verbatim>\<open>angleShort\<close> is
  declared without a value; the second \<^verbatim>\<open>if\<close> assigns it whenever the first did not run
  or cleared the flag.
\<close>

definition range_reduce :: "fmt \<Rightarrow> FastSin \<Rightarrow> fp \<Rightarrow> ub + (fp \<times> FastSin)" where
  "range_reduce T s angle =
     (if m_hasValidPreviousAngle s then
        (case fast_path T s angle of
           Inl e \<Rightarrow> Inl e
         | Inr (angleShort, s1) \<Rightarrow>
             if \<not> m_hasValidPreviousAngle s1 then slow_path s1 angle
             else Inr (angleShort, s1))
      else slow_path s angle)"

text \<open>Lines 149 to 161: the new \<^verbatim>\<open>angleShort\<close> and \<^verbatim>\<open>sign\<close>.\<close>

definition fold_quadrant :: "fp \<Rightarrow> fp \<times> fp" where
  "fold_quadrant angleShort =
     (if fgt angleShort PI_DIV_2 \<and> fle angleShort FAST_SIN_PI then
        (fsub Binary64 FAST_SIN_PI angleShort, lit 1)
      else if fgt angleShort FAST_SIN_PI \<and> fle angleShort PI_MULT_3_DIV_2 then
        (fsub Binary64 angleShort FAST_SIN_PI, fneg (lit 1))
      else if fgt angleShort PI_MULT_3_DIV_2 \<and> fle angleShort PI_MULT_2 then
        (fsub Binary64 PI_MULT_2 angleShort, fneg (lit 1))
      else (angleShort, lit 1))"

text \<open>
  The parenthesised factor of the returned product: lines 180 and 181 (Degree 7) and
  lines 186 to 188 (Degree 9). A coefficient is a double literal cast to \<^verbatim>\<open>T\<close>; an
  operation with a double operand is a double operation, and one between two values of
  type \<^verbatim>\<open>T\<close> is an operation of \<^verbatim>\<open>T\<close>. In Degree 7 the last coefficient is multiplied
  by \<^verbatim>\<open>x2\<close> as a double and the product is cast; in Degree 9 the coefficient is cast and
  then multiplied.
\<close>

definition poly7 :: "fmt \<Rightarrow> fp \<Rightarrow> fp" where
  "poly7 T x2 =
     fadd Binary64 (narrow T (lit (999999060898976 / 10 ^ 15)))
       (fmul Binary64 x2
         (fadd Binary64 (narrow T (fneg (lit (166655540927576 / 10 ^ 15))))
           (fmul Binary64 x2
             (fsub T (narrow T (lit (831189980138987 / 10 ^ 17)))
               (narrow T (fmul Binary64 (lit (184881402886071 / 10 ^ 18)) x2))))))"

definition poly9 :: "fmt \<Rightarrow> fp \<Rightarrow> fp" where
  "poly9 T x2 =
     fadd Binary64 (narrow T (lit (999999994686007 / 10 ^ 15)))
       (fmul Binary64 x2
         (fadd Binary64 (narrow T (fneg (lit (166666566840071 / 10 ^ 15))))
           (fmul Binary64 x2
             (fadd Binary64 (narrow T (lit (833302513896936 / 10 ^ 17)))
               (fmul Binary64 x2
                 (fadd Binary64 (narrow T (fneg (lit (198074187274269 / 10 ^ 18))))
                   (fmul Binary64 (narrow T (lit (2601903067651460 / 10 ^ 21))) x2)))))))"

text \<open>
  \<^verbatim>\<open>T FastSin<T, Degree>::operator()(const T angle)\<close>, lines 96 to 190. The template
  arguments are the first two parameters. The result is the returned value and the
  object after the call. The returned expression is \<^verbatim>\<open>sign * x1 * (...)\<close>, a double,
  converted to \<^verbatim>\<open>T\<close>. With a \<^verbatim>\<open>Degree\<close> other than 7 and 9 both \<^verbatim>\<open>if constexpr\<close>
  branches are discarded and control reaches the end of the function.
\<close>

definition FastSin_operator :: "fmt \<Rightarrow> int \<Rightarrow> FastSin \<Rightarrow> fp \<Rightarrow> ub + (fp \<times> FastSin)" where
  "FastSin_operator T Degree s angle =
     (case range_reduce T s angle of
        Inl e \<Rightarrow> Inl e
      | Inr (angleShort, s1) \<Rightarrow>
          (let (angleShort', sign) = fold_quadrant angleShort;
               x1 = angleShort';
               x2 = fmul Binary64 angleShort' angleShort';
               s2 = s1\<lparr>m_previousAngle := angle, m_hasValidPreviousAngle := True\<rparr>
           in
             if Degree = 7 then
               Inr (narrow T (fmul Binary64 (fmul Binary64 sign x1) (poly7 T x2)), s2)
             else if Degree = 9 then
               Inr (narrow T (fmul Binary64 (fmul Binary64 sign x1) (poly9 T x2)), s2)
             else Inl MissingReturn))"

section \<open>The arithmetic as the specification words it\<close>

text \<open>
  The specification gives the polynomials as \<open>P(u) = a0 + u(a1 + u(a2 + a3 u))\<close> and
  \<open>P(u) = a0 + u(a1 + u(a2 + u(a3 + a4 u)))\<close>, with every coefficient narrowed to the
  result precision before it is multiplied and \<open>u\<close> a double. These two definitions follow
  those words, for comparison with \<open>poly7\<close> and \<open>poly9\<close> above.
\<close>

definition poly7_narrowed_first :: "fmt \<Rightarrow> fp \<Rightarrow> fp" where
  "poly7_narrowed_first T u =
     fadd Binary64 (narrow T (lit (999999060898976 / 10 ^ 15)))
       (fmul Binary64 u
         (fadd Binary64 (narrow T (fneg (lit (166655540927576 / 10 ^ 15))))
           (fmul Binary64 u
             (fadd Binary64 (narrow T (lit (831189980138987 / 10 ^ 17)))
               (fmul Binary64 (narrow T (fneg (lit (184881402886071 / 10 ^ 18)))) u)))))"

definition poly9_narrowed_first :: "fmt \<Rightarrow> fp \<Rightarrow> fp" where
  "poly9_narrowed_first T u =
     fadd Binary64 (narrow T (lit (999999994686007 / 10 ^ 15)))
       (fmul Binary64 u
         (fadd Binary64 (narrow T (fneg (lit (166666566840071 / 10 ^ 15))))
           (fmul Binary64 u
             (fadd Binary64 (narrow T (lit (833302513896936 / 10 ^ 17)))
               (fmul Binary64 u
                 (fadd Binary64 (narrow T (fneg (lit (198074187274269 / 10 ^ 18))))
                   (fmul Binary64 (narrow T (lit (2601903067651460 / 10 ^ 21))) u)))))))"

text \<open>
  The evaluator with the arithmetic of the specification: the reduction is done in
  double throughout (\<open>range_reduce Binary64\<close>), the polynomial is evaluated in double from
  narrowed coefficients, and only the final product is narrowed to \<open>T\<close>.
\<close>

definition FastSin_double_internal ::
    "fmt \<Rightarrow> int \<Rightarrow> FastSin \<Rightarrow> fp \<Rightarrow> ub + (fp \<times> FastSin)" where
  "FastSin_double_internal T Degree s angle =
     (case range_reduce Binary64 s angle of
        Inl e \<Rightarrow> Inl e
      | Inr (angleShort, s1) \<Rightarrow>
          (let (x, sign) = fold_quadrant angleShort;
               u = fmul Binary64 x x;
               s2 = s1\<lparr>m_previousAngle := angle, m_hasValidPreviousAngle := True\<rparr>
           in
             if Degree = 7 then
               Inr (narrow T (fmul Binary64 (fmul Binary64 sign x) (poly7_narrowed_first T u)), s2)
             else if Degree = 9 then
               Inr (narrow T (fmul Binary64 (fmul Binary64 sign x) (poly9_narrowed_first T u)), s2)
             else Inl MissingReturn))"

text \<open>A rational is a finite value of the format when rounding leaves it as it is.\<close>

definition representable :: "fmt \<Rightarrow> rat \<Rightarrow> bool" where
  "representable T x \<longleftrightarrow> rnd T x = Fin x"

section \<open>Sequences of calls, and the cache\<close>

text \<open>
  The calls of one object in order: the returned values and the object after the last
  call, or the first undefined behaviour.
\<close>

fun FastSin_calls :: "fmt \<Rightarrow> int \<Rightarrow> FastSin \<Rightarrow> fp list \<Rightarrow> ub + (fp list \<times> FastSin)" where
  "FastSin_calls T Degree s [] = Inr ([], s)"
| "FastSin_calls T Degree s (angle # angles) =
     (case FastSin_operator T Degree s angle of
        Inl e \<Rightarrow> Inl e
      | Inr (r, s1) \<Rightarrow>
          (case FastSin_calls T Degree s1 angles of
             Inl e \<Rightarrow> Inl e
           | Inr (rs, s2) \<Rightarrow> Inr (r # rs, s2)))"

text \<open>
  The cycle count is an \<^verbatim>\<open>int\<close> and the cached product is the double product of the
  count and \<^verbatim>\<open>PI_MULT_2\<close>, as lines 113, 127 and 141 compute it.
\<close>

definition cache_fields :: "FastSin \<Rightarrow> bool" where
  "cache_fields s \<longleftrightarrow>
     in_int_range (m_previousFullCyckles s) \<and>
     m_previousFullCycklesAngle s =
       fmul Binary64 (int_to_double (m_previousFullCyckles s)) PI_MULT_2"

text \<open>The cache of an object with a true flag has these fields.\<close>

definition cache_consistent :: "FastSin \<Rightarrow> bool" where
  "cache_consistent s \<longleftrightarrow>
     (m_hasValidPreviousAngle s \<longrightarrow> cache_fields s)"

section \<open>Finite values, and a cache near the previous angle\<close>

text \<open>A finite value of magnitude at most \<open>2 ^ k\<close>.\<close>

definition bounded_by :: "int \<Rightarrow> fp \<Rightarrow> bool" where
  "bounded_by k a \<longleftrightarrow> (\<exists>r. a = Fin r \<and> \<bar>r\<bar> \<le> pow2 k)"

text \<open>The value of the double constant \<^verbatim>\<open>PI_MULT_2\<close> of line 85.\<close>

definition PI_MULT_2_value :: rat where
  "PI_MULT_2_value = 884279719003555 / 140737488355328"

text \<open>
  The cache of an object with a true flag, as a call leaves it: the fields are those of
  \<open>cache_fields\<close>, the previous angle is a finite value of \<^verbatim>\<open>T\<close>, and the cached product is
  a finite double within \<open>10\<close> of the previous angle.
\<close>

definition cache_bounded :: "fmt \<Rightarrow> FastSin \<Rightarrow> bool" where
  "cache_bounded T s \<longleftrightarrow>
     (m_hasValidPreviousAngle s \<longrightarrow>
        cache_fields s \<and>
        (\<exists>p ca. m_previousAngle s = Fin p \<and> m_previousFullCycklesAngle s = Fin ca \<and>
           representable T p \<and> \<bar>p - ca\<bar> \<le> 10))"

section \<open>Properties of rounding\<close>

lemma pow2_pos [simp]: "0 < pow2 k"
  by (simp add: pow2_def)

lemma pow2_neq0 [simp]: "pow2 k \<noteq> 0"
  by (simp add: pow2_def)

lemma abs_pow2 [simp]: "\<bar>pow2 k\<bar> = pow2 k"
  using pow2_pos[of k] by linarith

lemma pow2_add: "pow2 (a + b) = pow2 a * pow2 b"
  by (simp add: pow2_def power_int_add)

lemma pow2_diff: "pow2 (a - b) = pow2 a / pow2 b"
  by (simp add: pow2_def power_int_diff)

lemma pow2_less_iff [simp]: "pow2 a < pow2 b \<longleftrightarrow> a < b"
proof
  assume "pow2 a < pow2 b"
  show "a < b"
  proof (rule ccontr)
    assume "\<not> a < b"
    then have "b \<le> a" by simp
    then have "pow2 b \<le> pow2 a"
      unfolding pow2_def by (intro power_int_increasing) simp_all
    with \<open>pow2 a < pow2 b\<close> show False by simp
  qed
next
  assume "a < b"
  then show "pow2 a < pow2 b"
    unfolding pow2_def by (intro power_int_strict_increasing) simp_all
qed

lemma pow2_le_iff [simp]: "pow2 a \<le> pow2 b \<longleftrightarrow> a \<le> b"
  using pow2_less_iff[of b a] by (simp add: not_less [symmetric] del: pow2_less_iff)

lemma pow2_nat: "0 \<le> k \<Longrightarrow> pow2 k = 2 ^ nat k"
  by (simp add: pow2_def power_int_def)

lemma of_int_less_pow2: "0 \<le> k \<Longrightarrow> a < 2 ^ nat k \<Longrightarrow> rat_of_int a < pow2 k"
proof -
  assume k: "0 \<le> k" and a: "a < 2 ^ nat k"
  have "rat_of_int a < rat_of_int (2 ^ nat k)" using a by (simp only: of_int_less_iff)
  then show ?thesis using k by (simp add: pow2_nat)
qed

lemma pow2_le_of_int: "0 \<le> k \<Longrightarrow> 2 ^ nat k \<le> a \<Longrightarrow> pow2 k \<le> rat_of_int a"
proof -
  assume k: "0 \<le> k" and a: "2 ^ nat k \<le> a"
  have "rat_of_int (2 ^ nat k) \<le> rat_of_int a" using a by (simp only: of_int_le_iff)
  then show ?thesis using k by (simp add: pow2_nat)
qed

lemma bitlen_pos: "0 < a \<Longrightarrow> 1 \<le> bitlen a"
  using bitlen_eq_zero_iff[of a] bitlen_nonneg[of a] by linarith

lemma ilog2_bounds:
  assumes "x \<noteq> 0"
  shows "pow2 (ilog2 x) \<le> \<bar>x\<bar> \<and> \<bar>x\<bar> < pow2 (ilog2 x + 1)"
proof -
  obtain a b where q: "quotient_of \<bar>x\<bar> = (a, b)" by (cases "quotient_of \<bar>x\<bar>")
  then have b: "0 < b" and x: "\<bar>x\<bar> = of_int a / of_int b"
    by (simp_all add: quotient_of_denom_pos quotient_of_div)
  have "0 < rat_of_int a / rat_of_int b" using assms x by (metis zero_less_abs_iff)
  with b have a: "0 < a" by (simp add: zero_less_divide_iff)
  define k where "k = bitlen a - bitlen b"
  have la: "1 \<le> bitlen a" and lb: "1 \<le> bitlen b"
    using a b by (simp_all add: bitlen_pos)
  have ra: "0 < rat_of_int a" and rb: "0 < rat_of_int b" using a b by simp_all
  have A: "rat_of_int a < pow2 (bitlen a)"
    using bitlen_bounds[OF a] la by (intro of_int_less_pow2) simp_all
  have B: "pow2 (bitlen b - 1) \<le> rat_of_int b"
    using bitlen_bounds[OF b] lb by (intro pow2_le_of_int) simp_all
  have A': "pow2 (bitlen a - 1) \<le> rat_of_int a"
    using bitlen_bounds[OF a] la by (intro pow2_le_of_int) simp_all
  have B': "rat_of_int b < pow2 (bitlen b)"
    using bitlen_bounds[OF b] lb by (intro of_int_less_pow2) simp_all
  have "\<bar>x\<bar> < pow2 (bitlen a) / pow2 (bitlen b - 1)"
    unfolding x using A B ra rb by (intro frac_less) simp_all
  also have "\<dots> = pow2 (k + 1)"
    by (simp add: k_def pow2_diff [symmetric]) (simp add: algebra_simps)
  finally have up: "\<bar>x\<bar> < pow2 (k + 1)" .
  have "pow2 (bitlen a - 1) / pow2 (bitlen b) \<le> \<bar>x\<bar>"
    unfolding x using A' B' ra rb by (intro frac_le) simp_all
  moreover have "pow2 (bitlen a - 1) / pow2 (bitlen b) = pow2 (k - 1)"
    by (simp add: k_def pow2_diff [symmetric]) (simp add: algebra_simps)
  ultimately have lo: "pow2 (k - 1) \<le> \<bar>x\<bar>" by simp
  show ?thesis
  proof (cases "pow2 k \<le> \<bar>x\<bar>")
    case True
    then show ?thesis using up q by (simp add: ilog2_def k_def)
  next
    case False
    then show ?thesis using lo q by (simp add: ilog2_def k_def)
  qed
qed

lemma ilog2_eqI:
  assumes "pow2 e \<le> \<bar>x\<bar>" "\<bar>x\<bar> < pow2 (e + 1)"
  shows "ilog2 x = e"
proof -
  have "0 < \<bar>x\<bar>" using assms(1) pow2_pos[of e] by linarith
  then have nz: "x \<noteq> 0" by simp
  from ilog2_bounds[OF nz] have 1: "pow2 (ilog2 x) \<le> \<bar>x\<bar>" and 2: "\<bar>x\<bar> < pow2 (ilog2 x + 1)" by simp_all
  have "pow2 e < pow2 (ilog2 x + 1)" using assms(1) 2 by linarith
  moreover have "pow2 (ilog2 x) < pow2 (e + 1)" using assms(2) 1 by linarith
  ultimately show ?thesis by simp
qed

lemma round_half_even_of_int [simp]: "round_half_even (of_int n) = n"
  by (simp add: round_half_even_def)

lemma round_half_even_le: "y \<le> of_int N \<Longrightarrow> round_half_even y \<le> N"
proof -
  assume y: "y \<le> of_int N"
  show ?thesis
  proof (cases "y = of_int N")
    case True then show ?thesis by simp
  next
    case False
    with y have "y < of_int N" by simp
    then have "\<lfloor>y\<rfloor> < N" by (simp add: floor_less_iff)
    then show ?thesis by (simp add: round_half_even_def Let_def)
  qed
qed

lemma round_half_even_ge: "of_int N \<le> y \<Longrightarrow> N \<le> round_half_even y"
proof -
  assume "of_int N \<le> y"
  then have "N \<le> \<lfloor>y\<rfloor>" by (simp add: le_floor_iff)
  then show ?thesis by (simp add: round_half_even_def Let_def)
qed

lemma round_half_even_eqI: "\<bar>y - of_int n\<bar> < 1 / 2 \<Longrightarrow> round_half_even y = n"
proof -
  assume a0: "\<bar>y - of_int n\<bar> < 1 / 2"
  then have a: "- (1 / 2) < y - of_int n" "y - of_int n < 1 / 2"
    by (simp_all only: abs_less_iff) linarith
  have "\<lfloor>y\<rfloor> = n \<or> \<lfloor>y\<rfloor> = n - 1"
  proof -
    have "of_int (n - 1) \<le> y" "y < of_int (n + 1)" using a by simp_all
    then have "n - 1 \<le> \<lfloor>y\<rfloor>" "\<lfloor>y\<rfloor> < n + 1" by (simp_all only: le_floor_iff floor_less_iff)
    then show ?thesis by linarith
  qed
  then show ?thesis
  proof
    assume f: "\<lfloor>y\<rfloor> = n"
    have "y - of_int \<lfloor>y\<rfloor> < 1 / 2" unfolding f using a by linarith
    then show ?thesis using f by (simp add: round_half_even_def Let_def)
  next
    assume f: "\<lfloor>y\<rfloor> = n - 1"
    have "1 / 2 < y - of_int \<lfloor>y\<rfloor>" unfolding f using a by simp
    then show ?thesis using f by (simp add: round_half_even_def Let_def)
  qed
qed

lemma round_half_even_tie: "\<bar>y - of_int n\<bar> = 1 / 2 \<Longrightarrow> even n \<Longrightarrow> round_half_even y = n"
proof -
  assume a: "\<bar>y - of_int n\<bar> = 1 / 2" and e: "even n"
  then consider "y = of_int n + 1 / 2" | "y = of_int n - 1 / 2" by (auto simp: abs_if split: if_splits) 
  then show ?thesis
  proof cases
    case 1
    have "\<lfloor>y\<rfloor> = n" unfolding 1 by (simp add: floor_unique)
    then show ?thesis using e 1 by (simp add: round_half_even_def Let_def)
  next
    case 2
    have "\<lfloor>y\<rfloor> = n - 1" unfolding 2 by (intro floor_unique) simp_all
    then show ?thesis using e 2 by (simp add: round_half_even_def Let_def)
  qed
qed

lemma rnd_cert:
  assumes "pow2 e \<le> \<bar>x\<bar>" and "\<bar>x\<bar> < pow2 (e + 1)"
    and "max (e - (prec T - 1)) (qmin T) = q"
    and "of_int n * pow2 q = r"
    and "2 * \<bar>x - r\<bar> < pow2 q \<or> (2 * \<bar>x - r\<bar> = pow2 q \<and> even n)"
    and "\<bar>r\<bar> \<le> max_finite T"
  shows "rnd T x = Fin r"
proof -
  have "0 < \<bar>x\<bar>" using assms(1) pow2_pos[of e] by linarith
  then have nz: "x \<noteq> 0" by simp
  have q: "quantum T x = q" using assms(1,2,3) by (simp add: quantum_def ilog2_eqI)
  have d: "\<bar>x / pow2 q - of_int n\<bar> = \<bar>x - r\<bar> / pow2 q"
  proof -
    have "x / pow2 q - of_int n = (x - r) / pow2 q"
      using pow2_pos[of q] by (simp add: diff_divide_distrib assms(4)[symmetric])
    then show ?thesis by (simp add: abs_divide)
  qed
  have "round_half_even (x / pow2 q) = n"
    using assms(5)
  proof
    assume "2 * \<bar>x - r\<bar> < pow2 q"
    then have "\<bar>x / pow2 q - of_int n\<bar> < 1 / 2"
      unfolding d using pow2_pos[of q] by (simp add: field_simps)
    then show ?thesis by (rule round_half_even_eqI)
  next
    assume h: "2 * \<bar>x - r\<bar> = pow2 q \<and> even n"
    then have "\<bar>x / pow2 q - of_int n\<bar> = 1 / 2"
      unfolding d using pow2_pos[of q] by (simp add: field_simps)
    then show ?thesis using h by (intro round_half_even_tie) simp_all
  qed
  then show ?thesis using nz q assms(4,6) by (simp add: rnd_def Let_def)
qed

lemma pow2_numeral [simp]: "pow2 (numeral k) = 2 ^ numeral k"
  by (simp add: pow2_def)

lemma pow2_neg_numeral [simp]: "pow2 (- numeral k) = 1 / 2 ^ numeral k"
  by (simp add: pow2_def power_int_minus_divide)

lemma pow2_0 [simp]: "pow2 0 = 1"
  by (simp add: pow2_def)

lemma pow2_1 [simp]: "pow2 1 = 2"
  by (simp add: pow2_def)

lemma pow2_m1 [simp]: "pow2 (- 1) = 1 / 2"
  by (simp add: pow2_def power_int_minus_divide)

text \<open>
  The rule \<open>rnd_cert\<close> checks one rounding from its exponent \<open>e\<close> and its integer
  significand \<open>n\<close>. The constants of the class are evaluated with it.
\<close>

lemma rnd_0 [simp]: "rnd T 0 = Fin 0"
  by (simp add: rnd_def)

lemma rnd_lit_pi: "rnd Binary64 (3141592653589793 / 1000000000000000) = Fin (884279719003555 / 281474976710656)"
  by (rule rnd_cert [where e = "1" and q = "- 51" and n = "7074237752028440"])
     (simp_all add: max_finite_def)

lemma rnd_lit_1: "rnd Binary64 1 = Fin 1"
  by (rule rnd_cert [where e = "0" and q = "- 52" and n = "4503599627370496"])
     (simp_all add: max_finite_def)

lemma rnd_lit_2: "rnd Binary64 2 = Fin 2"
  by (rule rnd_cert [where e = "1" and q = "- 51" and n = "4503599627370496"])
     (simp_all add: max_finite_def)

lemma rnd_lit_3: "rnd Binary64 3 = Fin 3"
  by (rule rnd_cert [where e = "1" and q = "- 51" and n = "6755399441055744"])
     (simp_all add: max_finite_def)

lemma rnd_lit_4: "rnd Binary64 4 = Fin 4"
  by (rule rnd_cert [where e = "2" and q = "- 50" and n = "4503599627370496"])
     (simp_all add: max_finite_def)

lemma rnd_pi_div_2: "rnd Binary64 (884279719003555 / 562949953421312) = Fin (884279719003555 / 562949953421312)"
  by (rule rnd_cert [where e = "0" and q = "- 52" and n = "7074237752028440"])
     (simp_all add: max_finite_def)

lemma rnd_pi_mult_3: "rnd Binary64 (2652839157010665 / 281474976710656) = Fin (2652839157010665 / 281474976710656)"
  by (rule rnd_cert [where e = "3" and q = "- 49" and n = "5305678314021330"])
     (simp_all add: max_finite_def)

lemma rnd_pi_mult_3_div_2: "rnd Binary64 (2652839157010665 / 562949953421312) = Fin (2652839157010665 / 562949953421312)"
  by (rule rnd_cert [where e = "2" and q = "- 50" and n = "5305678314021330"])
     (simp_all add: max_finite_def)

lemma rnd_pi_mult_2: "rnd Binary64 (884279719003555 / 140737488355328) = Fin (884279719003555 / 140737488355328)"
  by (rule rnd_cert [where e = "2" and q = "- 50" and n = "7074237752028440"])
     (simp_all add: max_finite_def)

lemma rnd_pi_mult_4: "rnd Binary64 (884279719003555 / 70368744177664) = Fin (884279719003555 / 70368744177664)"
  by (rule rnd_cert [where e = "3" and q = "- 49" and n = "7074237752028440"])
     (simp_all add: max_finite_def)

lemma lit_simps [simp]:
  "lit 0 = Fin 0" "lit 1 = Fin 1" "lit 2 = Fin 2" "lit 3 = Fin 3" "lit 4 = Fin 4"
  by (simp_all add: lit_def rnd_lit_1 rnd_lit_2 rnd_lit_3 rnd_lit_4)

lemma FAST_SIN_PI_eq: "FAST_SIN_PI = Fin (884279719003555 / 281474976710656)"
  by (simp add: FAST_SIN_PI_def lit_def rnd_lit_pi)

lemma PI_DIV_2_eq: "PI_DIV_2 = Fin (884279719003555 / 562949953421312)"
  by (simp add: PI_DIV_2_def FAST_SIN_PI_eq rnd_pi_div_2)

lemma PI_MULT_3_DIV_2_eq: "PI_MULT_3_DIV_2 = Fin (2652839157010665 / 562949953421312)"
  by (simp add: PI_MULT_3_DIV_2_def FAST_SIN_PI_eq rnd_pi_mult_3 rnd_pi_mult_3_div_2)

lemma PI_MULT_2_eq: "PI_MULT_2 = Fin (884279719003555 / 140737488355328)"
  by (simp add: PI_MULT_2_def FAST_SIN_PI_eq rnd_pi_mult_2)

lemma PI_MULT_4_eq: "PI_MULT_4 = Fin (884279719003555 / 70368744177664)"
  by (simp add: PI_MULT_4_def FAST_SIN_PI_eq rnd_pi_mult_4)

lemmas consts_eq = FAST_SIN_PI_eq PI_DIV_2_eq PI_MULT_3_DIV_2_eq PI_MULT_2_eq PI_MULT_4_eq

section \<open>The quadrant folder\<close>








section \<open>The first call on a new object\<close>

lemma slow_path_fields:
  "slow_path s angle = Inr (a, s1) \<Longrightarrow>
   slow_path s' angle =
     Inr (a, s'\<lparr>m_previousFullCyckles := m_previousFullCyckles s1,
               m_previousFullCycklesAngle := m_previousFullCycklesAngle s1\<rparr>)"
  by (auto simp: slow_path_def Let_def split: sum.splits)

lemma slow_path_error: "slow_path s angle = Inl e \<Longrightarrow> slow_path s' angle = Inl e"
  by (auto simp: slow_path_def Let_def split: sum.splits)

lemma operator_invalid:
  "\<not> m_hasValidPreviousAngle s \<Longrightarrow> \<not> m_hasValidPreviousAngle s' \<Longrightarrow>
   FastSin_operator T D s' angle = FastSin_operator T D s angle"
proof (cases "slow_path s angle")
  case (Inl e)
  assume "\<not> m_hasValidPreviousAngle s" "\<not> m_hasValidPreviousAngle s'"
  then show ?thesis
    using Inl slow_path_error [OF Inl, of s']
    by (simp add: FastSin_operator_def range_reduce_def)
next
  case (Inr p)
  assume v: "\<not> m_hasValidPreviousAngle s" "\<not> m_hasValidPreviousAngle s'"
  obtain a s1 where p: "p = (a, s1)" by (cases p)
  have 1: "slow_path s angle = Inr (a, s1)" using Inr p by simp
  have 2: "m_previousFullCyckles s1 = m_previousFullCyckles s1" ..
  have s1: "s1 = s\<lparr>m_previousFullCyckles := m_previousFullCyckles s1,
               m_previousFullCycklesAngle := m_previousFullCycklesAngle s1\<rparr>"
    using slow_path_fields [OF 1, of s] 1 by simp
  show ?thesis
    using v 1 slow_path_fields [OF 1, of s'] s1
    by (cases s; cases s'; cases s1)
       (simp add: FastSin_operator_def range_reduce_def split: prod.splits)
qed

text \<open>
  Claim C10. On an object whose flag \<open>m_hasValidPreviousAngle\<close> is false the call takes the
  slow path, and the returned value and the object after the call are those of any other
  such object for the same angle: the three data members that a new object leaves
  indeterminate are written before they are read.
\<close>

theorem first_call_independent_of_fields:
  "\<not> m_hasValidPreviousAngle s \<longrightarrow>
     range_reduce T s angle = slow_path s angle \<and>
     (\<forall>s'. \<not> m_hasValidPreviousAngle s' \<longrightarrow>
        FastSin_operator T D s' angle = FastSin_operator T D s angle)"
proof (intro impI conjI allI)
  assume "\<not> m_hasValidPreviousAngle s"
  then show "range_reduce T s angle = slow_path s angle"
    by (simp add: range_reduce_def)
next
  fix s' :: FastSin
  assume "\<not> m_hasValidPreviousAngle s" "\<not> m_hasValidPreviousAngle s'"
  then show "FastSin_operator T D s' angle = FastSin_operator T D s angle"
    by (rule operator_invalid)
qed

theorem first_call_independent_of_fields_witness:
  "\<not> m_hasValidPreviousAngle
       \<lparr>m_hasValidPreviousAngle = False, m_previousAngle = NaN,
        m_previousFullCyckles = 0, m_previousFullCycklesAngle = NaN\<rparr> \<and>
   \<not> m_hasValidPreviousAngle
       \<lparr>m_hasValidPreviousAngle = False, m_previousAngle = Fin 5,
        m_previousFullCyckles = 77, m_previousFullCycklesAngle = PInf\<rparr> \<and>
   range_reduce Binary32 
       \<lparr>m_hasValidPreviousAngle = False, m_previousAngle = NaN,
        m_previousFullCyckles = 0, m_previousFullCycklesAngle = NaN\<rparr> (Fin (- 6)) =
     slow_path
       \<lparr>m_hasValidPreviousAngle = False, m_previousAngle = NaN,
        m_previousFullCyckles = 0, m_previousFullCycklesAngle = NaN\<rparr> (Fin (- 6)) \<and>
   FastSin_operator Binary32 9
       \<lparr>m_hasValidPreviousAngle = False, m_previousAngle = Fin 5,
        m_previousFullCyckles = 77, m_previousFullCycklesAngle = PInf\<rparr> (Fin (- 6)) =
     FastSin_operator Binary32 9
       \<lparr>m_hasValidPreviousAngle = False, m_previousAngle = NaN,
        m_previousFullCyckles = 0, m_previousFullCycklesAngle = NaN\<rparr> (Fin (- 6))"
proof -
  let ?a = "\<lparr>m_hasValidPreviousAngle = False, m_previousAngle = NaN,
             m_previousFullCyckles = 0, m_previousFullCycklesAngle = NaN\<rparr>"
  let ?b = "\<lparr>m_hasValidPreviousAngle = False, m_previousAngle = Fin 5,
             m_previousFullCyckles = 77, m_previousFullCycklesAngle = PInf\<rparr>"
  have a: "\<not> m_hasValidPreviousAngle ?a" and b: "\<not> m_hasValidPreviousAngle ?b"
    by simp_all
  from first_call_independent_of_fields [of ?a Binary32 "Fin (- 6)" 9] a
  have 1: "range_reduce Binary32 ?a (Fin (- 6)) = slow_path ?a (Fin (- 6))"
    and 2: "\<forall>s'. \<not> m_hasValidPreviousAngle s' \<longrightarrow>
              FastSin_operator Binary32 9 s' (Fin (- 6)) =
              FastSin_operator Binary32 9 ?a (Fin (- 6))"
    by blast+
  from 2 b have 3: "FastSin_operator Binary32 9 ?b (Fin (- 6)) =
      FastSin_operator Binary32 9 ?a (Fin (- 6))"
    by blast
  from a b 1 3 show ?thesis by (intro conjI)
qed

section \<open>A first call with the angle \<open>- 6\<close>\<close>

lemma trunc_cert:
  assumes "(0 \<le> x \<and> of_int c \<le> x \<and> x < of_int c + 1) \<or>
           (x \<le> 0 \<and> of_int c - 1 < x \<and> x \<le> of_int c)"
  shows "trunc x = c"
  using assms
proof
  assume a: "0 \<le> x \<and> of_int c \<le> x \<and> x < of_int c + 1"
  then have "\<lfloor>x\<rfloor> = c" by (intro floor_unique) simp_all
  then show ?thesis using a by (simp add: trunc_def)
next
  assume a: "x \<le> 0 \<and> of_int c - 1 < x \<and> x \<le> of_int c"
  then have "\<lceil>x\<rceil> = c" by (intro ceiling_unique) simp_all
  then have "- \<lfloor>- x\<rfloor> = c" by (simp add: ceiling_def)
  moreover have "x = 0 \<Longrightarrow> c = 0" using \<open>\<lceil>x\<rceil> = c\<close> by simp
  ultimately show ?thesis using a by (auto simp: trunc_def)
qed

text \<open>
  The roundings of the call \<^verbatim>\<open>FastSin<double, 7>()(-6.0)\<close> and of the same call with
  Degree 9 on a new object, each checked by its certificate.
\<close>

lemma m6_1: "rnd Binary64 (- (844424930131968 / 884279719003555)) = Fin (- (2150310427208497 / 2251799813685248))"
  by (rule rnd_cert [where e = "- 1" and q = "- 53" and n = "- 8601241708833988"])
     (simp_all add: max_finite_def)

lemma m6_2: "rnd Binary64 (- (2150310427208497 / 2251799813685248)) = Fin (- (2150310427208497 / 2251799813685248))"
  by (rule rnd_cert [where e = "- 1" and q = "- 53" and n = "- 8601241708833988"])
     (simp_all add: max_finite_def)

lemma m6_3: "rnd Binary64 (- (1901475900342344035141069206835 / 316912650057057350374175801344)) = Fin (- 6)"
  by (rule rnd_cert [where e = "2" and q = "- 50" and n = "- 6755399441055744"])
     (simp_all add: max_finite_def)

lemma m6_4: "rnd Binary64 36 = Fin 36"
  by (rule rnd_cert [where e = "5" and q = "- 47" and n = "5066549580791808"])
     (simp_all add: max_finite_def)

lemma m6_5: "rnd Binary64 (- 6) = Fin (- 6)"
  by (rule rnd_cert [where e = "2" and q = "- 50" and n = "- 6755399441055744"])
     (simp_all add: max_finite_def)

lemma m6_6: "rnd Binary64 (31249970653093 / 31250000000000) = Fin (9007190796070949 / 9007199254740992)"
  by (rule rnd_cert [where e = "- 1" and q = "- 53" and n = "9007190796070949"])
     (simp_all add: max_finite_def)

lemma m6_7: "rnd Binary64 (9007190796070949 / 9007199254740992) = Fin (9007190796070949 / 9007199254740992)"
  by (rule rnd_cert [where e = "- 1" and q = "- 53" and n = "9007190796070949"])
     (simp_all add: max_finite_def)

lemma m6_8: "rnd Binary64 (20831942615947 / 125000000000000) = Fin (3002199328082639 / 18014398509481984)"
  by (rule rnd_cert [where e = "- 3" and q = "- 55" and n = "6004398656165278"])
     (simp_all add: max_finite_def)

lemma m6_9: "rnd Binary64 (- (3002199328082639 / 18014398509481984)) = Fin (- (3002199328082639 / 18014398509481984))"
  by (rule rnd_cert [where e = "- 3" and q = "- 55" and n = "- 6004398656165278"])
     (simp_all add: max_finite_def)

lemma m6_10: "rnd Binary64 (831189980138987 / 100000000000000000) = Fin (4791484012579881 / 576460752303423488)"
  by (rule rnd_cert [where e = "- 7" and q = "- 59" and n = "4791484012579881"])
     (simp_all add: max_finite_def)

lemma m6_11: "rnd Binary64 (4791484012579881 / 576460752303423488) = Fin (4791484012579881 / 576460752303423488)"
  by (rule rnd_cert [where e = "- 7" and q = "- 59" and n = "4791484012579881"])
     (simp_all add: max_finite_def)

lemma m6_12: "rnd Binary64 (184881402886071 / 1000000000000000000) = Fin (1705229961513869 / 9223372036854775808)"
  by (rule rnd_cert [where e = "- 13" and q = "- 65" and n = "6820919846055476"])
     (simp_all add: max_finite_def)

lemma m6_13: "rnd Binary64 (15347069653624821 / 2305843009213693952) = Fin (3836767413406205 / 576460752303423488)"
  by (rule rnd_cert [where e = "- 8" and q = "- 60" and n = "7673534826812410"])
     (simp_all add: max_finite_def)

lemma m6_14: "rnd Binary64 (3836767413406205 / 576460752303423488) = Fin (3836767413406205 / 576460752303423488)"
  by (rule rnd_cert [where e = "- 8" and q = "- 60" and n = "7673534826812410"])
     (simp_all add: max_finite_def)

lemma m6_15: "rnd Binary64 (238679149793419 / 144115188075855872) = Fin (238679149793419 / 144115188075855872)"
  by (rule rnd_cert [where e = "- 10" and q = "- 62" and n = "7637732793389408"])
     (simp_all add: max_finite_def)

lemma m6_16: "rnd Binary64 (2148112348140771 / 36028797018963968) = Fin (2148112348140771 / 36028797018963968)"
  by (rule rnd_cert [where e = "- 5" and q = "- 57" and n = "8592449392563084"])
     (simp_all add: max_finite_def)

lemma m6_17: "rnd Binary64 (- (3856286308024507 / 36028797018963968)) = Fin (- (3856286308024507 / 36028797018963968))"
  by (rule rnd_cert [where e = "- 4" and q = "- 56" and n = "- 7712572616049014"])
     (simp_all add: max_finite_def)

lemma m6_18: "rnd Binary64 (- (34706576772220563 / 9007199254740992)) = Fin (- (8676644193055141 / 2251799813685248))"
  by (rule rnd_cert [where e = "1" and q = "- 51" and n = "- 8676644193055141"])
     (simp_all add: max_finite_def)

lemma m6_19: "rnd Binary64 (- (25699385976149615 / 9007199254740992)) = Fin (- (1606211623509351 / 562949953421312))"
  by (rule rnd_cert [where e = "1" and q = "- 51" and n = "- 6424846494037404"])
     (simp_all add: max_finite_def)

lemma m6_20: "rnd Binary64 (4818634870528053 / 281474976710656) = Fin (4818634870528053 / 281474976710656)"
  by (rule rnd_cert [where e = "4" and q = "- 48" and n = "4818634870528053"])
     (simp_all add: max_finite_def)

lemma m6_21: "trunc (- (2150310427208497 / 2251799813685248)) = 0"
  by (rule trunc_cert) simp_all

lemma eval_d7_m6:
  "FastSin_operator Binary64 7
     \<lparr>m_hasValidPreviousAngle = False, m_previousAngle = NaN,
       m_previousFullCyckles = 0, m_previousFullCycklesAngle = NaN\<rparr> (Fin (- 6)) =
   Inr (Fin (4818634870528053 / 281474976710656),
     \<lparr>m_hasValidPreviousAngle = True, m_previousAngle = Fin (- 6),
     m_previousFullCyckles = 0, m_previousFullCycklesAngle = Fin 0\<rparr>)"
  by (simp add: FastSin_operator_def range_reduce_def fast_path_def fast_path_diff_def slow_path_def fold_quadrant_def
      poly7_def poly9_def fsub_def fgt_def fle_def fge_def lit_def int_to_double_def int_add_def
      in_int_range_def INT_MIN_def INT_MAX_def Let_def consts_eq
      m6_1 m6_2 m6_3 m6_4 m6_5 m6_6 m6_7 m6_8 m6_9 m6_10 m6_11 m6_12 m6_13 m6_14 m6_15 m6_16 m6_17 m6_18 m6_19 m6_20 m6_21 rnd_lit_1)

lemma m6_22: "rnd Binary64 (999999994686007 / 1000000000000000) = Fin (4503599603438399 / 4503599627370496)"
  by (rule rnd_cert [where e = "- 1" and q = "- 53" and n = "9007199206876798"])
     (simp_all add: max_finite_def)

lemma m6_23: "rnd Binary64 (4503599603438399 / 4503599627370496) = Fin (4503599603438399 / 4503599627370496)"
  by (rule rnd_cert [where e = "- 1" and q = "- 53" and n = "9007199206876798"])
     (simp_all add: max_finite_def)

lemma m6_24: "rnd Binary64 (166666566840071 / 1000000000000000) = Fin (6004795906528509 / 36028797018963968)"
  by (rule rnd_cert [where e = "- 3" and q = "- 55" and n = "6004795906528509"])
     (simp_all add: max_finite_def)

lemma m6_25: "rnd Binary64 (- (6004795906528509 / 36028797018963968)) = Fin (- (6004795906528509 / 36028797018963968))"
  by (rule rnd_cert [where e = "- 3" and q = "- 55" and n = "- 6004795906528509"])
     (simp_all add: max_finite_def)

lemma m6_26: "rnd Binary64 (104162814237117 / 12500000000000000) = Fin (4803661940573617 / 576460752303423488)"
  by (rule rnd_cert [where e = "- 7" and q = "- 59" and n = "4803661940573617"])
     (simp_all add: max_finite_def)

lemma m6_27: "rnd Binary64 (4803661940573617 / 576460752303423488) = Fin (4803661940573617 / 576460752303423488)"
  by (rule rnd_cert [where e = "- 7" and q = "- 59" and n = "4803661940573617"])
     (simp_all add: max_finite_def)

lemma m6_28: "rnd Binary64 (198074187274269 / 1000000000000000000) = Fin (7307647680512915 / 36893488147419103232)"
  by (rule rnd_cert [where e = "- 13" and q = "- 65" and n = "7307647680512915"])
     (simp_all add: max_finite_def)

lemma m6_29: "rnd Binary64 (- (7307647680512915 / 36893488147419103232)) = Fin (- (7307647680512915 / 36893488147419103232))"
  by (rule rnd_cert [where e = "- 13" and q = "- 65" and n = "- 7307647680512915"])
     (simp_all add: max_finite_def)

lemma m6_30: "rnd Binary64 (130095153382573 / 50000000000000000000) = Fin (6143569919176483 / 2361183241434822606848)"
  by (rule rnd_cert [where e = "- 19" and q = "- 71" and n = "6143569919176483"])
     (simp_all add: max_finite_def)

lemma m6_31: "rnd Binary64 (6143569919176483 / 2361183241434822606848) = Fin (6143569919176483 / 2361183241434822606848)"
  by (rule rnd_cert [where e = "- 19" and q = "- 71" and n = "6143569919176483"])
     (simp_all add: max_finite_def)

lemma m6_32: "rnd Binary64 (55292129272588347 / 590295810358705651712) = Fin (6911516159073543 / 73786976294838206464)"
  by (rule rnd_cert [where e = "- 14" and q = "- 66" and n = "6911516159073543"])
     (simp_all add: max_finite_def)

lemma m6_33: "rnd Binary64 (- (7703779201952287 / 73786976294838206464)) = Fin (- (7703779201952287 / 73786976294838206464))"
  by (rule rnd_cert [where e = "- 14" and q = "- 66" and n = "- 7703779201952287"])
     (simp_all add: max_finite_def)

lemma m6_34: "rnd Binary64 (- (69334012817570583 / 18446744073709551616)) = Fin (- (8666751602196323 / 2305843009213693952))"
  by (rule rnd_cert [where e = "- 9" and q = "- 61" and n = "- 8666751602196323"])
     (simp_all add: max_finite_def)

lemma m6_35: "rnd Binary64 (10547896160098145 / 2305843009213693952) = Fin (329621755003067 / 72057594037927936)"
  by (rule rnd_cert [where e = "- 8" and q = "- 60" and n = "5273948080049072"])
     (simp_all add: max_finite_def)

lemma m6_36: "rnd Binary64 (2966595795027603 / 18014398509481984) = Fin (2966595795027603 / 18014398509481984)"
  by (rule rnd_cert [where e = "- 3" and q = "- 55" and n = "5933191590055206"])
     (simp_all add: max_finite_def)

lemma m6_37: "rnd Binary64 (- (71604316473303 / 36028797018963968)) = Fin (- (71604316473303 / 36028797018963968))"
  by (rule rnd_cert [where e = "- 9" and q = "- 61" and n = "- 4582676254291392"])
     (simp_all add: max_finite_def)

lemma m6_38: "rnd Binary64 (- (644438848259727 / 9007199254740992)) = Fin (- (644438848259727 / 9007199254740992))"
  by (rule rnd_cert [where e = "- 4" and q = "- 56" and n = "- 5155510786077816"])
     (simp_all add: max_finite_def)

lemma m6_39: "rnd Binary64 (8362760358617071 / 9007199254740992) = Fin (8362760358617071 / 9007199254740992)"
  by (rule rnd_cert [where e = "- 1" and q = "- 53" and n = "8362760358617071"])
     (simp_all add: max_finite_def)

lemma m6_40: "rnd Binary64 (- (25088281075851213 / 4503599627370496)) = Fin (- (6272070268962803 / 1125899906842624))"
  by (rule rnd_cert [where e = "2" and q = "- 50" and n = "- 6272070268962803"])
     (simp_all add: max_finite_def)

lemma m6_41: "rnd Binary64 (- (6272070268962803 / 1125899906842624)) = Fin (- (6272070268962803 / 1125899906842624))"
  by (rule rnd_cert [where e = "2" and q = "- 50" and n = "- 6272070268962803"])
     (simp_all add: max_finite_def)

lemma eval_d9_m6:
  "FastSin_operator Binary64 9
     \<lparr>m_hasValidPreviousAngle = False, m_previousAngle = NaN,
       m_previousFullCyckles = 0, m_previousFullCycklesAngle = NaN\<rparr> (Fin (- 6)) =
   Inr (Fin (- (6272070268962803 / 1125899906842624)),
     \<lparr>m_hasValidPreviousAngle = True, m_previousAngle = Fin (- 6),
     m_previousFullCyckles = 0, m_previousFullCycklesAngle = Fin 0\<rparr>)"
  by (simp add: FastSin_operator_def range_reduce_def fast_path_def fast_path_diff_def slow_path_def fold_quadrant_def
      poly7_def poly9_def fsub_def fgt_def fle_def fge_def lit_def int_to_double_def int_add_def
      in_int_range_def INT_MIN_def INT_MAX_def Let_def consts_eq
      m6_1 m6_2 m6_3 m6_4 m6_5 m6_21 m6_22 m6_23 m6_24 m6_25 m6_26 m6_27 m6_28 m6_29 m6_30 m6_31 m6_32 m6_33 m6_34 m6_35 m6_36 m6_37 m6_38 m6_39 m6_40 m6_41 rnd_lit_1)

lemma slow_path_m6:
  "slow_path s (Fin (- 6)) =
   Inr (Fin (- 6), s\<lparr>m_previousFullCyckles := 0, m_previousFullCycklesAngle := Fin 0\<rparr>)"
  by (simp add: slow_path_def fsub_def int_to_double_def in_int_range_def INT_MIN_def INT_MAX_def
      Let_def consts_eq m6_1 m6_2 m6_3 m6_21)

text \<open>
  Claim C1 fails on the code. The angle \<open>- 6\<close> is the point \<open>i / 10\<^sup>7\<close> of the sweep with
  \<open>i = - 60000000\<close>. On a new object (whatever its three indeterminate data members hold)
  the slow path truncates \<open>- 6 / 2\<pi>\<close> to 0 cycles and leaves the reduced angle \<open>- 6\<close>,
  no guard of the folder applies to a negative angle, and the polynomial is evaluated at
  \<open>- 6\<close>: Degree 7 returns about 17.119 and Degree 9 about \<open>- 5.571\<close>, further from
  \<open>sin (- 6)\<close> than the documented maximum errors \<open>9.39101e-07\<close> and \<open>5.31399e-09\<close>.
\<close>

theorem accuracy_bound_fails_at_minus_6:
  "(\<exists>s'. FastSin_operator Binary64 7
           \<lparr>m_hasValidPreviousAngle = False, m_previousAngle = p,
            m_previousFullCyckles = c, m_previousFullCycklesAngle = ca\<rparr> (Fin (- 6)) =
         Inr (Fin (4818634870528053 / 281474976710656), s')) \<and>
   939101 / 10 ^ 12 < \<bar>real_of_rat (4818634870528053 / 281474976710656) - sin (- 6)\<bar> \<and>
   (\<exists>s'. FastSin_operator Binary64 9
           \<lparr>m_hasValidPreviousAngle = False, m_previousAngle = p,
            m_previousFullCyckles = c, m_previousFullCycklesAngle = ca\<rparr> (Fin (- 6)) =
         Inr (Fin (- (6272070268962803 / 1125899906842624)), s')) \<and>
   531399 / 10 ^ 14 < \<bar>real_of_rat (- (6272070268962803 / 1125899906842624)) - sin (- 6)\<bar>"
proof -
  let ?s = "\<lparr>m_hasValidPreviousAngle = False, m_previousAngle = p,
             m_previousFullCyckles = c, m_previousFullCycklesAngle = ca\<rparr>"
  let ?n = "\<lparr>m_hasValidPreviousAngle = False, m_previousAngle = NaN,
             m_previousFullCyckles = 0, m_previousFullCycklesAngle = NaN\<rparr>"
  have 7: "FastSin_operator Binary64 7 ?s (Fin (- 6)) = FastSin_operator Binary64 7 ?n (Fin (- 6))"
    by (rule operator_invalid) simp_all
  have 9: "FastSin_operator Binary64 9 ?s (Fin (- 6)) = FastSin_operator Binary64 9 ?n (Fin (- 6))"
    by (rule operator_invalid) simp_all
  have s: "- 1 \<le> sin (6 :: real)" "sin (6 :: real) \<le> 1"
    by (rule sin_ge_minus_one, rule sin_le_one)
  have b: "939101 / 10 ^ 12 < (1 :: real)" "531399 / 10 ^ 14 < (1 :: real)"
    by simp_all
  have "17 < real_of_rat (4818634870528053 / 281474976710656)"
    by (simp add: of_rat_divide)
  then have e7: "939101 / 10 ^ 12 < \<bar>real_of_rat (4818634870528053 / 281474976710656) - sin (- 6)\<bar>"
    unfolding sin_minus using s b by linarith
  have "real_of_rat (- (6272070268962803 / 1125899906842624)) < - 5"
    by (simp add: of_rat_divide of_rat_minus)
  then have e9: "531399 / 10 ^ 14 < \<bar>real_of_rat (- (6272070268962803 / 1125899906842624)) - sin (- 6)\<bar>"
    unfolding sin_minus using s b by linarith
  show ?thesis
    using e7 e9 by (simp only: 7 9 eval_d7_m6 eval_d9_m6) blast
qed

text \<open>
  Claim C2 fails on the code. For the angle \<open>- 6\<close> on a new object the reducer takes the
  slow path, \<open>div\<close> is about \<open>- 0.955\<close>, its truncation toward zero is 0, and the reduced
  angle is \<open>(div - 0) * 2\<pi> = - 6\<close>, which is below 0 and so outside \<open>[0, 2\<pi>)\<close>.
\<close>

theorem reduced_angle_negative_at_minus_6:
  "range_reduce T
     \<lparr>m_hasValidPreviousAngle = False, m_previousAngle = p,
      m_previousFullCyckles = c, m_previousFullCycklesAngle = ca\<rparr> (Fin (- 6)) =
   Inr (Fin (- 6),
     \<lparr>m_hasValidPreviousAngle = False, m_previousAngle = p,
      m_previousFullCyckles = 0, m_previousFullCycklesAngle = Fin 0\<rparr>) \<and>
   flt (Fin (- 6)) (lit 0) \<and> \<not> fge (Fin (- 6)) (lit 0)"
  by (simp add: range_reduce_def slow_path_m6 fge_def fle_def)

text \<open>
  Claim C3 fails on the code. After the call with the angle \<open>- 6\<close> on a new object the
  flag is true and the cached product is the cycle count times \<open>2\<pi>\<close>, but the previous
  angle minus the cached product is \<open>- 6 - 0 = - 6\<close>, which is not in \<open>[0, 2\<pi>)\<close>.
\<close>

theorem cache_invariant_fails_after_minus_6:
  "\<exists>r s'. FastSin_operator Binary64 7
            \<lparr>m_hasValidPreviousAngle = False, m_previousAngle = p,
             m_previousFullCyckles = c, m_previousFullCycklesAngle = ca\<rparr> (Fin (- 6)) =
          Inr (r, s') \<and>
     m_hasValidPreviousAngle s' \<and>
     m_previousFullCycklesAngle s' =
       fmul Binary64 (int_to_double (m_previousFullCyckles s')) PI_MULT_2 \<and>
     fsub Binary64 (m_previousAngle s') (m_previousFullCycklesAngle s') = Fin (- 6) \<and>
     flt (fsub Binary64 (m_previousAngle s') (m_previousFullCycklesAngle s')) (lit 0)"
proof -
  let ?s = "\<lparr>m_hasValidPreviousAngle = False, m_previousAngle = p,
             m_previousFullCyckles = c, m_previousFullCycklesAngle = ca\<rparr>"
  let ?n = "\<lparr>m_hasValidPreviousAngle = False, m_previousAngle = NaN,
             m_previousFullCyckles = 0, m_previousFullCycklesAngle = NaN\<rparr>"
  have 7: "FastSin_operator Binary64 7 ?s (Fin (- 6)) = FastSin_operator Binary64 7 ?n (Fin (- 6))"
    by (rule operator_invalid) simp_all
  show ?thesis
    by (simp add: 7 eval_d7_m6 int_to_double_def consts_eq fsub_def m6_5)
qed

section \<open>Bounds on rounded values\<close>

lemma pow2_ge0 [simp]: "0 \<le> pow2 k"
  using pow2_pos[of k] by linarith

lemma pow2_not_less0 [simp]: "\<not> pow2 k < 0"
  using pow2_pos[of k] by linarith

lemma pow2_not_le0 [simp]: "\<not> pow2 k \<le> 0"
  using pow2_pos[of k] by linarith

lemma rnd_nonneg:
  assumes "0 \<le> x"
  shows "rnd T x = PInf \<or> (\<exists>r. rnd T x = Fin r \<and> 0 \<le> r)"
proof (cases "x = 0")
  case True then show ?thesis by simp
next
  case False
  let ?q = "quantum T x"
  have "of_int 0 \<le> x / pow2 ?q" using assms by simp
  then have "0 \<le> round_half_even (x / pow2 ?q)" by (rule round_half_even_ge)
  then have "0 \<le> rat_of_int (round_half_even (x / pow2 ?q)) * pow2 ?q" by simp
  then show ?thesis using False assms by (simp add: rnd_def Let_def)
qed

lemma rnd_nonpos:
  assumes "x \<le> 0"
  shows "rnd T x = NInf \<or> (\<exists>r. rnd T x = Fin r \<and> r \<le> 0)"
proof (cases "x = 0")
  case True then show ?thesis by simp
next
  case False
  let ?q = "quantum T x"
  have "x / pow2 ?q \<le> of_int 0" using assms by (simp add: divide_le_0_iff)
  then have "round_half_even (x / pow2 ?q) \<le> 0" by (rule round_half_even_le)
  then have "rat_of_int (round_half_even (x / pow2 ?q)) * pow2 ?q \<le> 0"
    by (simp add: mult_le_0_iff)
  then show ?thesis using False assms by (simp add: rnd_def Let_def)
qed

lemma quantum_le_0:
  assumes "x \<noteq> 0" "\<bar>x\<bar> < pow2 (prec T)"
  shows "quantum T x \<le> 0"
proof -
  have "pow2 (ilog2 x) \<le> \<bar>x\<bar>" using ilog2_bounds[OF assms(1)] by simp
  then have "pow2 (ilog2 x) < pow2 (prec T)" using assms(2) by linarith
  then have "ilog2 x < prec T" by simp
  moreover have "qmin T \<le> 0" by (cases T) simp_all
  ultimately show ?thesis by (simp add: quantum_def)
qed

lemma rnd_abs_le_int:
  assumes m: "0 \<le> m" "of_int m < pow2 (prec T)" and x: "\<bar>x\<bar> \<le> of_int m"
  shows "\<exists>r. rnd T x = Fin r \<and> \<bar>r\<bar> \<le> of_int m"
proof (cases "x = 0")
  case True then show ?thesis using m by simp
next
  case False
  let ?q = "quantum T x"
  let ?n = "round_half_even (x / pow2 ?q)"
  have q: "?q \<le> 0" using False m x by (intro quantum_le_0) simp_all
  define N where "N = m * 2 ^ nat (- ?q)"
  have p: "pow2 ?q * 2 ^ nat (- ?q) = 1"
    using q pow2_add[of ?q "- ?q"] by (simp add: pow2_nat)
  have N: "rat_of_int N = of_int m / pow2 ?q"
    using p by (simp add: N_def field_simps)
  have "x \<le> of_int m" "- of_int m \<le> x" using x by (simp_all add: abs_le_iff)
  then have "x / pow2 ?q \<le> of_int m / pow2 ?q" "(- of_int m) / pow2 ?q \<le> x / pow2 ?q"
    by (intro divide_right_mono; simp)+
  then have "x / pow2 ?q \<le> of_int N" "of_int (- N) \<le> x / pow2 ?q"
    by (simp_all add: N)
  then have "?n \<le> N" "- N \<le> ?n"
    by (simp_all only: round_half_even_le round_half_even_ge)
  then have "\<bar>rat_of_int ?n\<bar> \<le> of_int N" by (simp add: abs_le_iff)
  then have "\<bar>rat_of_int ?n\<bar> * pow2 ?q \<le> of_int N * pow2 ?q"
    by (intro mult_right_mono) simp_all
  then have r: "\<bar>rat_of_int ?n * pow2 ?q\<bar> \<le> of_int m"
    by (simp add: abs_mult N)
  have "pow2 (prec T) \<le> max_finite T"
    by (cases T) (simp_all add: max_finite_def)
  with m(2) r have "\<not> max_finite T < \<bar>rat_of_int ?n * pow2 ?q\<bar>" by linarith
  then show ?thesis using False r by (simp add: rnd_def Let_def)
qed

lemma trunc_abs_le:
  assumes "\<bar>d\<bar> \<le> of_int m"
  shows "\<bar>trunc d\<bar> \<le> m"
proof (cases "0 \<le> d")
  case True
  then have "0 \<le> \<lfloor>d\<rfloor>" by simp
  moreover have "\<lfloor>d\<rfloor> \<le> m" using assms True by (simp add: floor_le_iff)
  ultimately show ?thesis using True by (simp add: trunc_def)
next
  case False
  then have "0 \<le> \<lfloor>- d\<rfloor>" by simp
  moreover have "\<lfloor>- d\<rfloor> \<le> m" using assms False by (simp add: floor_le_iff)
  ultimately show ?thesis using False by (simp add: trunc_def)
qed

lemma rnd_int_max_cycles: "rnd Binary64 (1898976235933889497365085 / 140737488355328) = Fin (7074237748734241 / 524288)"
  by (rule rnd_cert [where e = "33" and q = "- 19" and n = "7074237748734241"])
     (simp_all add: max_finite_def)

lemma rnd_int_min_cycles: "rnd Binary64 (- (884279719003555 / 65536)) = Fin (- (884279719003555 / 65536))"
  by (rule rnd_cert [where e = "33" and q = "- 19" and n = "- 7074237752028440"])
     (simp_all add: max_finite_def)

lemma no_increment_at_INT_MAX:
  assumes "\<bar>x\<bar> \<le> 13493037698"
  shows "\<not> fgt (fsub Binary64 (Fin x) (fmul Binary64 (int_to_double INT_MAX) PI_MULT_2)) PI_MULT_2"
proof -
  have ca: "fmul Binary64 (int_to_double INT_MAX) PI_MULT_2 = Fin (7074237748734241 / 524288)"
    by (simp add: int_to_double_def INT_MAX_def PI_MULT_2_eq rnd_int_max_cycles)
  have "x + - (7074237748734241 / 524288) \<le> 0" using assms by (simp add: abs_le_iff)
  from rnd_nonpos [OF this, of Binary64] show ?thesis
    unfolding ca by (auto simp: fsub_def fgt_def PI_MULT_2_eq)
qed

lemma no_decrement_at_INT_MIN:
  assumes "\<bar>x\<bar> \<le> 13493037698"
  shows "\<not> flt (fsub Binary64 (Fin x) (fmul Binary64 (int_to_double INT_MIN) PI_MULT_2)) (lit 0)"
proof -
  have ca: "fmul Binary64 (int_to_double INT_MIN) PI_MULT_2 = Fin (- (884279719003555 / 65536))"
    by (simp add: int_to_double_def INT_MIN_def PI_MULT_2_eq rnd_int_min_cycles)
  have "0 \<le> x + - (- (884279719003555 / 65536))" using assms by (simp add: abs_le_iff)
  from rnd_nonneg [OF this, of Binary64] show ?thesis
    unfolding ca by (auto simp: fsub_def)
qed

lemma int_add_inc:
  "in_int_range c \<Longrightarrow> c \<noteq> INT_MAX \<Longrightarrow> int_add c 1 = Inr (c + 1) \<and> in_int_range (c + 1)"
  by (simp add: int_add_def in_int_range_def INT_MIN_def INT_MAX_def)

lemma int_add_dec:
  "in_int_range c \<Longrightarrow> c \<noteq> INT_MIN \<Longrightarrow> int_add c (- 1) = Inr (c - 1) \<and> in_int_range (c - 1)"
  by (simp add: int_add_def in_int_range_def INT_MIN_def INT_MAX_def)

section \<open>A first call with the angle \<open>100000000000\<close>\<close>

lemma big_1: "rnd Binary64 (2814749767106560000000000 / 176855943800711) = Fin (8344302680376363 / 524288)"
  by (rule rnd_cert [where e = "33" and q = "- 19" and n = "8344302680376363"])
     (simp_all add: max_finite_def)

lemma big_2: "trunc (8344302680376363 / 524288) = 15915494309"
  by (rule trunc_cert) simp_all

lemma operator_1e11:
  "FastSin_operator T D
     \<lparr>m_hasValidPreviousAngle = False, m_previousAngle = p,
      m_previousFullCyckles = c, m_previousFullCycklesAngle = ca\<rparr> (Fin 100000000000) =
   Inl FloatToIntOutOfRange"
  by (simp add: FastSin_operator_def range_reduce_def slow_path_def consts_eq Let_def
      in_int_range_def INT_MIN_def INT_MAX_def big_1 big_2)

text \<open>
  Claim C7, as stated, fails on the code: \<open>100000000000\<close> is a finite double, and on a new
  object the quotient \<open>angle / 2\<pi>\<close> is about \<open>15915494309.19\<close>, whose truncation is not
  a value of \<^verbatim>\<open>int\<close>, so the conversion of line 140 is undefined.
\<close>

theorem call_undefined_at_1e11:
  "FastSin_operator Binary64 7
     \<lparr>m_hasValidPreviousAngle = False, m_previousAngle = NaN,
      m_previousFullCyckles = 0, m_previousFullCycklesAngle = NaN\<rparr> (Fin 100000000000) =
   Inl FloatToIntOutOfRange \<and>
   \<not> (\<exists>r s'. FastSin_operator Binary64 7
           \<lparr>m_hasValidPreviousAngle = False, m_previousAngle = NaN,
            m_previousFullCyckles = 0, m_previousFullCycklesAngle = NaN\<rparr> (Fin 100000000000) =
         Inr (r, s'))"
  by (simp add: operator_1e11)

section \<open>The fast path\<close>

lemma fle_not_fgt: "fle a b \<Longrightarrow> \<not> fgt a b"
  by (cases a; cases b) (auto simp: fle_def fgt_def)

lemma fge_not_flt: "fge a b \<Longrightarrow> \<not> flt a b"
  by (cases a; cases b) (auto simp: fle_def fge_def)

lemma fgt_PI_MULT_4: "fgt a PI_MULT_4 \<Longrightarrow> fgt a PI_MULT_2 \<and> \<not> fle a PI_MULT_4"
  by (cases a) (auto simp: fle_def fgt_def consts_eq)

lemma flt_minus_PI_MULT_2:
  "flt a (fneg PI_MULT_2) \<Longrightarrow> flt a (lit 0) \<and> \<not> fge a (fneg PI_MULT_2)"
  by (cases a) (auto simp: fle_def fge_def consts_eq)

lemma im_1: "rnd Binary64 (1898976236074626894004224 / 884279719003555) = Fin (1125899906401779 / 524288)"
  by (rule rnd_cert [where e = "30" and q = "- 22" and n = "9007199251214232"])
     (simp_all add: max_finite_def)

lemma im_2: "rnd Binary64 (1898976235933889497365085 / 140737488355328) = Fin (7074237748734241 / 524288)"
  by (rule rnd_cert [where e = "33" and q = "- 19" and n = "7074237748734241"])
     (simp_all add: max_finite_def)

lemma im_3: "rnd Binary64 (83443 / 524288) = Fin (83443 / 524288)"
  by (rule rnd_cert [where e = "- 3" and q = "- 55" and n = "5734159297282048"])
     (simp_all add: max_finite_def)

lemma im_4: "rnd Binary64 (73786952592813639865 / 73786976294838206464) = Fin (4503598180713723 / 4503599627370496)"
  by (rule rnd_cert [where e = "- 1" and q = "- 53" and n = "9007196361427446"])
     (simp_all add: max_finite_def)

lemma im_5: "rnd Binary64 (20282396573327955608157680520729 / 20282409603651670423947251286016) = Fin (9007193468114829 / 9007199254740992)"
  by (rule rnd_cert [where e = "- 1" and q = "- 53" and n = "9007193468114829"])
     (simp_all add: max_finite_def)

lemma im_6: "rnd Binary64 (4503598180713723 / 4503599627370496) = Fin (4503598180713723 / 4503599627370496)"
  by (rule rnd_cert [where e = "- 1" and q = "- 53" and n = "9007196361427446"])
     (simp_all add: max_finite_def)

lemma im_7: "rnd Binary64 (15359336170981422099458368063401 / 83076749736557242056487941267521536) = Fin (3410457731996313 / 18446744073709551616)"
  by (rule rnd_cert [where e = "- 13" and q = "- 65" and n = "6820915463992626"])
     (simp_all add: max_finite_def)

lemma im_8: "rnd Binary64 (3410457731996313 / 18446744073709551616) = Fin (3410457731996313 / 18446744073709551616)"
  by (rule rnd_cert [where e = "- 13" and q = "- 65" and n = "6820915463992626"])
     (simp_all add: max_finite_def)

lemma im_9: "rnd Binary64 (149917030670559879 / 18446744073709551616) = Fin (1171226802113749 / 144115188075855872)"
  by (rule rnd_cert [where e = "- 7" and q = "- 59" and n = "4684907208454996"])
     (simp_all add: max_finite_def)

lemma im_10: "rnd Binary64 (10549466401679979388251451683921 / 1298074214633706907132624082305024) = Fin (4684904198661845 / 576460752303423488)"
  by (rule rnd_cert [where e = "- 7" and q = "- 59" and n = "4684904198661845"])
     (simp_all add: max_finite_def)

lemma im_11: "rnd Binary64 (- (91385474299982603 / 576460752303423488)) = Fin (- (5711592143748913 / 36028797018963968))"
  by (rule rnd_cert [where e = "- 3" and q = "- 55" and n = "- 5711592143748913"])
     (simp_all add: max_finite_def)

lemma im_12: "rnd Binary64 (- (51445415449711182619974827930877 / 324518553658426726783156020576256)) = Fin (- (5711588474367611 / 36028797018963968))"
  by (rule rnd_cert [where e = "- 3" and q = "- 55" and n = "- 5711588474367611"])
     (simp_all add: max_finite_def)

lemma im_13: "rnd Binary64 (30317174709916185 / 36028797018963968) = Fin (3789646838739523 / 4503599627370496)"
  by (rule rnd_cert [where e = "- 1" and q = "- 53" and n = "7579293677479046"])
     (simp_all add: max_finite_def)

lemma im_14: "rnd Binary64 (17067046608494827387553828574129 / 20282409603651670423947251286016) = Fin (7579291242840659 / 9007199254740992)"
  by (rule rnd_cert [where e = "- 1" and q = "- 53" and n = "7579291242840659"])
     (simp_all add: max_finite_def)

lemma im_15: "rnd Binary64 (7579291242840659 / 9007199254740992) = Fin (7579291242840659 / 9007199254740992)"
  by (rule rnd_cert [where e = "- 1" and q = "- 53" and n = "7579291242840659"])
     (simp_all add: max_finite_def)

lemma im_16: "trunc (1125899906401779 / 524288) = 2147483647"
  by (rule trunc_cert) simp_all

lemma eval_d7_near_int_max:
  "FastSin_operator Binary64 7
     \<lparr>m_hasValidPreviousAngle = False, m_previousAngle = NaN,
       m_previousFullCyckles = 0, m_previousFullCycklesAngle = NaN\<rparr> (Fin (7074237749258529 / 524288)) =
   Inr (Fin (7579291242840659 / 9007199254740992),
     \<lparr>m_hasValidPreviousAngle = True, m_previousAngle = Fin (7074237749258529 / 524288),
     m_previousFullCyckles = 2147483647, m_previousFullCycklesAngle = Fin (7074237748734241 / 524288)\<rparr>)"
  by (simp add: FastSin_operator_def range_reduce_def fast_path_def fast_path_diff_def slow_path_def fold_quadrant_def
      poly7_def poly9_def fsub_def fgt_def fle_def fge_def lit_def int_to_double_def int_add_def
      in_int_range_def INT_MIN_def INT_MAX_def Let_def consts_eq
      im_1 im_2 im_3 im_4 im_5 im_6 im_7 im_8 im_9 im_10 im_11 im_12 im_13 im_14 im_15 im_16 m6_6 m6_7 m6_8 m6_9 m6_10 m6_11 m6_12 rnd_lit_1)

lemma im_17: "rnd Binary64 6 = Fin 6"
  by (rule rnd_cert [where e = "2" and q = "- 50" and n = "6755399441055744"])
     (simp_all add: max_finite_def)

lemma im_18: "rnd Binary64 7 = Fin 7"
  by (rule rnd_cert [where e = "2" and q = "- 50" and n = "7881299347898368"])
     (simp_all add: max_finite_def)

lemma mn_1: "rnd Binary64 (- (1898976236958906704723968 / 884279719003555)) = Fin (- (1125899906926067 / 524288))"
  by (rule rnd_cert [where e = "31" and q = "- 21" and n = "- 4503599627704268"])
     (simp_all add: max_finite_def)

lemma mn_2: "rnd Binary64 (- (83443 / 524288)) = Fin (- (83443 / 524288))"
  by (rule rnd_cert [where e = "- 3" and q = "- 55" and n = "- 5734159297282048"])
     (simp_all add: max_finite_def)

lemma mn_3: "rnd Binary64 (- (73786952592813639865 / 73786976294838206464)) = Fin (- (4503598180713723 / 4503599627370496))"
  by (rule rnd_cert [where e = "- 1" and q = "- 53" and n = "- 9007196361427446"])
     (simp_all add: max_finite_def)

lemma mn_4: "rnd Binary64 (- (4503598180713723 / 4503599627370496)) = Fin (- (4503598180713723 / 4503599627370496))"
  by (rule rnd_cert [where e = "- 1" and q = "- 53" and n = "- 9007196361427446"])
     (simp_all add: max_finite_def)

lemma mn_5: "rnd Binary64 (- (17067046608494827387553828574129 / 20282409603651670423947251286016)) = Fin (- (7579291242840659 / 9007199254740992))"
  by (rule rnd_cert [where e = "- 1" and q = "- 53" and n = "- 7579291242840659"])
     (simp_all add: max_finite_def)

lemma mn_6: "rnd Binary64 (- (7579291242840659 / 9007199254740992)) = Fin (- (7579291242840659 / 9007199254740992))"
  by (rule rnd_cert [where e = "- 1" and q = "- 53" and n = "- 7579291242840659"])
     (simp_all add: max_finite_def)

lemma mn_7: "trunc (- (1125899906926067 / 524288)) = - 2147483648"
  by (rule trunc_cert) simp_all

lemma eval_d7_near_int_min:
  "FastSin_operator Binary64 7
     \<lparr>m_hasValidPreviousAngle = False, m_previousAngle = NaN,
       m_previousFullCyckles = 0, m_previousFullCycklesAngle = NaN\<rparr> (Fin (- (884279719069091 / 65536))) =
   Inr (Fin (- (7579291242840659 / 9007199254740992)),
     \<lparr>m_hasValidPreviousAngle = True, m_previousAngle = Fin (- (884279719069091 / 65536)),
     m_previousFullCyckles = - 2147483648, m_previousFullCycklesAngle = Fin (- (884279719003555 / 65536))\<rparr>)"
  by (simp add: FastSin_operator_def range_reduce_def fast_path_def fast_path_diff_def slow_path_def fold_quadrant_def
      poly7_def poly9_def fsub_def fgt_def fle_def fge_def lit_def int_to_double_def int_add_def
      in_int_range_def INT_MIN_def INT_MAX_def Let_def consts_eq
      im_5 im_7 im_8 im_9 im_10 im_11 im_12 im_13 m6_6 m6_7 m6_8 m6_9 m6_10 m6_11 m6_12 mn_1 mn_2 mn_3 mn_4 mn_5 mn_6 mn_7 rnd_lit_1 rnd_int_min_cycles)

lemma mn_8: "rnd Binary64 (- 3) = Fin (- 3)"
  by (rule rnd_cert [where e = "1" and q = "- 51" and n = "- 6755399441055744"])
     (simp_all add: max_finite_def)

lemma mn_9: "rnd Binary64 (- 4) = Fin (- 4)"
  by (rule rnd_cert [where e = "2" and q = "- 50" and n = "- 4503599627370496"])
     (simp_all add: max_finite_def)

text \<open>
  Claim C4, as stated, fails on the code where the cycle count is \<^verbatim>\<open>INT_MAX\<close> or
  \<^verbatim>\<open>INT_MIN\<close>. A first call with the double \<open>7074237749258529 / 524288\<close> (about
  \<open>INT_MAX * 2\<pi> + 1\<close>) on a new object leaves the cycle count \<open>2147483647\<close>. For the next
  angle, larger by 6, \<open>diff\<close> is 6 and the tentative reduced angle is 7, between \<open>2\<pi>\<close> and
  \<open>4\<pi>\<close>, and \<^verbatim>\<open>++m_previousFullCyckles\<close> overflows: the count is not incremented by
  exactly 1. In the same way a first call with the double \<open>- (884279719069091 / 65536)\<close> (about
  \<open>INT_MIN * 2\<pi> - 1\<close>) leaves the cycle count \<open>- 2147483648\<close>; for the next angle, smaller
  by 3, \<open>diff\<close> is \<open>- 3\<close> and the tentative reduced angle is \<open>- 4\<close>, between \<open>- 2\<pi>\<close> and 0,
  and \<^verbatim>\<open>--m_previousFullCyckles\<close> overflows.
\<close>

theorem cycle_count_overflows_at_INT_MAX_and_INT_MIN:
  "FastSin_operator Binary64 7 \<lparr>m_hasValidPreviousAngle = False, m_previousAngle = NaN,
      m_previousFullCyckles = 0, m_previousFullCycklesAngle = NaN\<rparr> (Fin (7074237749258529 / 524288)) =
     Inr (Fin (7579291242840659 / 9007199254740992),
          \<lparr>m_hasValidPreviousAngle = True, m_previousAngle = Fin (7074237749258529 / 524288),
      m_previousFullCyckles = 2147483647, m_previousFullCycklesAngle = Fin (7074237748734241 / 524288)\<rparr>) \<and>
   fgt (fsub Binary64 (Fin (7074237752404257 / 524288)) (Fin (7074237749258529 / 524288))) (lit 0) \<and>
   fgt (fsub Binary64 (Fin (7074237752404257 / 524288)) (Fin (7074237748734241 / 524288))) PI_MULT_2 \<and>
   fle (fsub Binary64 (Fin (7074237752404257 / 524288)) (Fin (7074237748734241 / 524288))) PI_MULT_4 \<and>
   range_reduce Binary64
     \<lparr>m_hasValidPreviousAngle = True, m_previousAngle = Fin (7074237749258529 / 524288),
      m_previousFullCyckles = 2147483647, m_previousFullCycklesAngle = Fin (7074237748734241 / 524288)\<rparr> (Fin (7074237752404257 / 524288)) =
     Inl SignedOverflow \<and>
   FastSin_operator Binary64 7 \<lparr>m_hasValidPreviousAngle = False, m_previousAngle = NaN,
      m_previousFullCyckles = 0, m_previousFullCycklesAngle = NaN\<rparr> (Fin (- (884279719069091 / 65536))) =
     Inr (Fin (- (7579291242840659 / 9007199254740992)),
          \<lparr>m_hasValidPreviousAngle = True, m_previousAngle = Fin (- (884279719069091 / 65536)),
      m_previousFullCyckles = - 2147483648, m_previousFullCycklesAngle = Fin (- (884279719003555 / 65536))\<rparr>) \<and>
   fle (fsub Binary64 (Fin (- (884279719265699 / 65536))) (Fin (- (884279719069091 / 65536)))) (lit 0) \<and>
   flt (fsub Binary64 (Fin (- (884279719265699 / 65536))) (Fin (- (884279719003555 / 65536)))) (lit 0) \<and>
   fge (fsub Binary64 (Fin (- (884279719265699 / 65536))) (Fin (- (884279719003555 / 65536)))) (fneg PI_MULT_2) \<and>
   range_reduce Binary64
     \<lparr>m_hasValidPreviousAngle = True, m_previousAngle = Fin (- (884279719069091 / 65536)),
      m_previousFullCyckles = - 2147483648, m_previousFullCycklesAngle = Fin (- (884279719003555 / 65536))\<rparr> (Fin (- (884279719265699 / 65536))) =
     Inl SignedOverflow"
  by (simp add: eval_d7_near_int_max eval_d7_near_int_min range_reduce_def fast_path_def
      fast_path_diff_def fsub_def fgt_def fle_def fge_def
      int_add_def in_int_range_def INT_MIN_def INT_MAX_def Let_def consts_eq im_17 im_18 mn_8 mn_9)

text \<open>
  Claim C4, amended. With the flag true on entry, \<open>diff = angle - previous_angle\<close> (a
  subtraction of \<open>T\<close>) and the tentative \<open>angle_short = angle - previous_full_cycles_angle\<close>
  decide the path. If \<open>diff > 0\<close>: \<open>angle_short \<le> 2\<pi>\<close> is accepted with the cache
  unchanged; \<open>2\<pi> < angle_short \<le> 4\<pi>\<close> increments the cycle count by exactly 1,
  provided the count is below \<^verbatim>\<open>INT_MAX\<close>, and recomputes the cached product and
  \<open>angle_short\<close>; \<open>angle_short > 4\<pi>\<close> clears the flag and the slow path runs. If
  \<open>diff \<le> 0\<close>: \<open>angle_short \<ge> 0\<close> is accepted; \<open>- 2\<pi> \<le> angle_short < 0\<close> decrements the
  count by exactly 1, provided the count is above \<^verbatim>\<open>INT_MIN\<close>, and recomputes;
  \<open>angle_short < - 2\<pi>\<close> clears the flag and the slow path runs. Where the count is
  \<^verbatim>\<open>INT_MAX\<close> (\<^verbatim>\<open>INT_MIN\<close>), so that the count plus (minus) 1 is not an \<^verbatim>\<open>int\<close>, the
  increment (decrement) overflows, which is undefined behaviour.
\<close>

theorem fast_path_cases:
  "m_hasValidPreviousAngle s \<longrightarrow>
   (let diff = fsub T angle (m_previousAngle s);
        a = fsub Binary64 angle (m_previousFullCycklesAngle s);
        up = m_previousFullCyckles s + 1;
        down = m_previousFullCyckles s - 1
    in
      (fgt diff (lit 0) \<and> fle a PI_MULT_2 \<longrightarrow> range_reduce T s angle = Inr (a, s)) \<and>
      (fgt diff (lit 0) \<and> fgt a PI_MULT_2 \<and> fle a PI_MULT_4 \<and> in_int_range up \<longrightarrow>
         range_reduce T s angle =
           Inr (fsub Binary64 angle (fmul Binary64 (int_to_double up) PI_MULT_2),
                s\<lparr>m_previousFullCyckles := up,
                  m_previousFullCycklesAngle := fmul Binary64 (int_to_double up) PI_MULT_2\<rparr>)) \<and>
      (fgt diff (lit 0) \<and> fgt a PI_MULT_4 \<longrightarrow>
         range_reduce T s angle = slow_path (s\<lparr>m_hasValidPreviousAngle := False\<rparr>) angle) \<and>
      (fle diff (lit 0) \<and> fge a (lit 0) \<longrightarrow> range_reduce T s angle = Inr (a, s)) \<and>
      (fle diff (lit 0) \<and> flt a (lit 0) \<and> fge a (fneg PI_MULT_2) \<and> in_int_range down \<longrightarrow>
         range_reduce T s angle =
           Inr (fsub Binary64 angle (fmul Binary64 (int_to_double down) PI_MULT_2),
                s\<lparr>m_previousFullCyckles := down,
                  m_previousFullCycklesAngle := fmul Binary64 (int_to_double down) PI_MULT_2\<rparr>)) \<and>
      (fle diff (lit 0) \<and> flt a (fneg PI_MULT_2) \<longrightarrow>
         range_reduce T s angle = slow_path (s\<lparr>m_hasValidPreviousAngle := False\<rparr>) angle) \<and>
      (fgt diff (lit 0) \<and> fgt a PI_MULT_2 \<and> fle a PI_MULT_4 \<and> \<not> in_int_range up \<longrightarrow>
         range_reduce T s angle = Inl SignedOverflow) \<and>
      (fle diff (lit 0) \<and> flt a (lit 0) \<and> fge a (fneg PI_MULT_2) \<and> \<not> in_int_range down \<longrightarrow>
         range_reduce T s angle = Inl SignedOverflow))"
proof
  assume v: "m_hasValidPreviousAngle s"
  let ?diff = "fsub T angle (m_previousAngle s)"
  let ?a = "fsub Binary64 angle (m_previousFullCycklesAngle s)"
  have 1: "fgt ?diff (lit 0) \<and> fle ?a PI_MULT_2 \<longrightarrow> range_reduce T s angle = Inr (?a, s)"
    using v fle_not_fgt [of ?a PI_MULT_2]
    by (auto simp: range_reduce_def fast_path_def fast_path_diff_def Let_def)
  have 2: "fgt ?diff (lit 0) \<and> fgt ?a PI_MULT_2 \<and> fle ?a PI_MULT_4 \<and>
      in_int_range (m_previousFullCyckles s + 1) \<longrightarrow>
      range_reduce T s angle =
        Inr (fsub Binary64 angle
               (fmul Binary64 (int_to_double (m_previousFullCyckles s + 1)) PI_MULT_2),
             s\<lparr>m_previousFullCyckles := m_previousFullCyckles s + 1,
               m_previousFullCycklesAngle :=
                 fmul Binary64 (int_to_double (m_previousFullCyckles s + 1)) PI_MULT_2\<rparr>)"
    using v by (auto simp: range_reduce_def fast_path_def fast_path_diff_def Let_def int_add_def)
  have 3: "fgt ?diff (lit 0) \<and> fgt ?a PI_MULT_4 \<longrightarrow>
      range_reduce T s angle = slow_path (s\<lparr>m_hasValidPreviousAngle := False\<rparr>) angle"
    using v fgt_PI_MULT_4 [of ?a]
    by (auto simp: range_reduce_def fast_path_def fast_path_diff_def Let_def)
  have 4: "fle ?diff (lit 0) \<and> fge ?a (lit 0) \<longrightarrow> range_reduce T s angle = Inr (?a, s)"
    using v fle_not_fgt [of ?diff "lit 0"] fge_not_flt [of ?a "lit 0"]
    by (auto simp: range_reduce_def fast_path_def fast_path_diff_def Let_def)
  have 5: "fle ?diff (lit 0) \<and> flt ?a (lit 0) \<and> fge ?a (fneg PI_MULT_2) \<and>
      in_int_range (m_previousFullCyckles s - 1) \<longrightarrow>
      range_reduce T s angle =
        Inr (fsub Binary64 angle
               (fmul Binary64 (int_to_double (m_previousFullCyckles s - 1)) PI_MULT_2),
             s\<lparr>m_previousFullCyckles := m_previousFullCyckles s - 1,
               m_previousFullCycklesAngle :=
                 fmul Binary64 (int_to_double (m_previousFullCyckles s - 1)) PI_MULT_2\<rparr>)"
    using v fle_not_fgt [of ?diff "lit 0"]
    by (auto simp: range_reduce_def fast_path_def fast_path_diff_def Let_def int_add_def)
  have 6: "fle ?diff (lit 0) \<and> flt ?a (fneg PI_MULT_2) \<longrightarrow>
      range_reduce T s angle = slow_path (s\<lparr>m_hasValidPreviousAngle := False\<rparr>) angle"
    using v fle_not_fgt [of ?diff "lit 0"] flt_minus_PI_MULT_2 [of ?a]
    by (auto simp: range_reduce_def fast_path_def fast_path_diff_def Let_def)
  have 7: "fgt ?diff (lit 0) \<and> fgt ?a PI_MULT_2 \<and> fle ?a PI_MULT_4 \<and>
      \<not> in_int_range (m_previousFullCyckles s + 1) \<longrightarrow>
      range_reduce T s angle = Inl SignedOverflow"
    using v by (auto simp: range_reduce_def fast_path_def fast_path_diff_def Let_def int_add_def)
  have 8: "fle ?diff (lit 0) \<and> flt ?a (lit 0) \<and> fge ?a (fneg PI_MULT_2) \<and>
      \<not> in_int_range (m_previousFullCyckles s - 1) \<longrightarrow>
      range_reduce T s angle = Inl SignedOverflow"
    using v fle_not_fgt [of ?diff "lit 0"]
    by (auto simp: range_reduce_def fast_path_def fast_path_diff_def Let_def int_add_def)
  from 1 2 3 4 5 6 7 8 show "let diff = ?diff; a = ?a; up = m_previousFullCyckles s + 1;
      down = m_previousFullCyckles s - 1 in
      (fgt diff (lit 0) \<and> fle a PI_MULT_2 \<longrightarrow> range_reduce T s angle = Inr (a, s)) \<and>
      (fgt diff (lit 0) \<and> fgt a PI_MULT_2 \<and> fle a PI_MULT_4 \<and> in_int_range up \<longrightarrow>
         range_reduce T s angle =
           Inr (fsub Binary64 angle (fmul Binary64 (int_to_double up) PI_MULT_2),
                s\<lparr>m_previousFullCyckles := up,
                  m_previousFullCycklesAngle := fmul Binary64 (int_to_double up) PI_MULT_2\<rparr>)) \<and>
      (fgt diff (lit 0) \<and> fgt a PI_MULT_4 \<longrightarrow>
         range_reduce T s angle = slow_path (s\<lparr>m_hasValidPreviousAngle := False\<rparr>) angle) \<and>
      (fle diff (lit 0) \<and> fge a (lit 0) \<longrightarrow> range_reduce T s angle = Inr (a, s)) \<and>
      (fle diff (lit 0) \<and> flt a (lit 0) \<and> fge a (fneg PI_MULT_2) \<and> in_int_range down \<longrightarrow>
         range_reduce T s angle =
           Inr (fsub Binary64 angle (fmul Binary64 (int_to_double down) PI_MULT_2),
                s\<lparr>m_previousFullCyckles := down,
                  m_previousFullCycklesAngle := fmul Binary64 (int_to_double down) PI_MULT_2\<rparr>)) \<and>
      (fle diff (lit 0) \<and> flt a (fneg PI_MULT_2) \<longrightarrow>
         range_reduce T s angle = slow_path (s\<lparr>m_hasValidPreviousAngle := False\<rparr>) angle) \<and>
      (fgt diff (lit 0) \<and> fgt a PI_MULT_2 \<and> fle a PI_MULT_4 \<and> \<not> in_int_range up \<longrightarrow>
         range_reduce T s angle = Inl SignedOverflow) \<and>
      (fle diff (lit 0) \<and> flt a (lit 0) \<and> fge a (fneg PI_MULT_2) \<and> \<not> in_int_range down \<longrightarrow>
         range_reduce T s angle = Inl SignedOverflow)"
    unfolding Let_def by (intro conjI)
qed

lemma fp_1: "rnd Binary64 12 = Fin 12"
  by (rule rnd_cert [where e = "3" and q = "- 49" and n = "6755399441055744"])
     (simp_all add: max_finite_def)

lemma fp_2: "rnd Binary64 13 = Fin 13"
  by (rule rnd_cert [where e = "3" and q = "- 49" and n = "7318349394477056"])
     (simp_all add: max_finite_def)

lemma fp_3: "rnd Binary64 (- (1 / 2)) = Fin (- (1 / 2))"
  by (rule rnd_cert [where e = "- 1" and q = "- 53" and n = "- 4503599627370496"])
     (simp_all add: max_finite_def)

lemma fp_4: "rnd Binary64 (1 / 2) = Fin (1 / 2)"
  by (rule rnd_cert [where e = "- 1" and q = "- 53" and n = "4503599627370496"])
     (simp_all add: max_finite_def)

lemma fp_5: "rnd Binary64 (- 2) = Fin (- 2)"
  by (rule rnd_cert [where e = "1" and q = "- 51" and n = "- 4503599627370496"])
     (simp_all add: max_finite_def)

lemma fp_6: "rnd Binary64 (- 1) = Fin (- 1)"
  by (rule rnd_cert [where e = "0" and q = "- 52" and n = "- 4503599627370496"])
     (simp_all add: max_finite_def)

lemma fp_7: "rnd Binary64 (- 8) = Fin (- 8)"
  by (rule rnd_cert [where e = "3" and q = "- 49" and n = "- 4503599627370496"])
     (simp_all add: max_finite_def)

lemma fp_8: "rnd Binary64 (- 7) = Fin (- 7)"
  by (rule rnd_cert [where e = "2" and q = "- 50" and n = "- 7881299347898368"])
     (simp_all add: max_finite_def)

text \<open>
  The six cases on the object that a first call with the angle 1 leaves, at the angles
  2, 7, 13, 1/2, \<open>- 1\<close> and \<open>- 7\<close>, and the two overflows on the objects that the first calls
  above leave with the counts \<^verbatim>\<open>INT_MAX\<close> and \<^verbatim>\<open>INT_MIN\<close>.
\<close>

theorem fast_path_cases_witness:
  "(fgt (fsub Binary64 (Fin 2) (Fin 1)) (lit 0) \<and> fle (fsub Binary64 (Fin 2) (Fin 0)) PI_MULT_2) \<and>
   range_reduce Binary64
      \<lparr>m_hasValidPreviousAngle = True, m_previousAngle = Fin 1,
       m_previousFullCyckles = 0, m_previousFullCycklesAngle = Fin 0\<rparr> (Fin 2) =
      Inr (fsub Binary64 (Fin 2) (Fin 0), \<lparr>m_hasValidPreviousAngle = True, m_previousAngle = Fin 1,
       m_previousFullCyckles = 0, m_previousFullCycklesAngle = Fin 0\<rparr>) \<and>
   (fgt (fsub Binary64 (Fin 7) (Fin 1)) (lit 0) \<and> fgt (fsub Binary64 (Fin 7) (Fin 0)) PI_MULT_2 \<and> fle (fsub Binary64 (Fin 7) (Fin 0)) PI_MULT_4 \<and> in_int_range (0 + 1)) \<and>
   range_reduce Binary64
      \<lparr>m_hasValidPreviousAngle = True, m_previousAngle = Fin 1,
       m_previousFullCyckles = 0, m_previousFullCycklesAngle = Fin 0\<rparr> (Fin 7) =
      Inr (fsub Binary64 (Fin 7) (fmul Binary64 (int_to_double (0 + 1)) PI_MULT_2),
        (\<lparr>m_hasValidPreviousAngle = True, m_previousAngle = Fin 1,
       m_previousFullCyckles = 0, m_previousFullCycklesAngle = Fin 0\<rparr>\<lparr>m_previousFullCyckles := (0 + 1),
         m_previousFullCycklesAngle := fmul Binary64 (int_to_double (0 + 1)) PI_MULT_2\<rparr>)) \<and>
   (fgt (fsub Binary64 (Fin 13) (Fin 1)) (lit 0) \<and> fgt (fsub Binary64 (Fin 13) (Fin 0)) PI_MULT_4) \<and>
   range_reduce Binary64
      \<lparr>m_hasValidPreviousAngle = True, m_previousAngle = Fin 1,
       m_previousFullCyckles = 0, m_previousFullCycklesAngle = Fin 0\<rparr> (Fin 13) =
      slow_path (\<lparr>m_hasValidPreviousAngle = True, m_previousAngle = Fin 1,
       m_previousFullCyckles = 0, m_previousFullCycklesAngle = Fin 0\<rparr>\<lparr>m_hasValidPreviousAngle := False\<rparr>) (Fin 13) \<and>
   (fle (fsub Binary64 (Fin (1 / 2)) (Fin 1)) (lit 0) \<and> fge (fsub Binary64 (Fin (1 / 2)) (Fin 0)) (lit 0)) \<and>
   range_reduce Binary64
      \<lparr>m_hasValidPreviousAngle = True, m_previousAngle = Fin 1,
       m_previousFullCyckles = 0, m_previousFullCycklesAngle = Fin 0\<rparr> (Fin (1 / 2)) =
      Inr (fsub Binary64 (Fin (1 / 2)) (Fin 0), \<lparr>m_hasValidPreviousAngle = True, m_previousAngle = Fin 1,
       m_previousFullCyckles = 0, m_previousFullCycklesAngle = Fin 0\<rparr>) \<and>
   (fle (fsub Binary64 (Fin (- 1)) (Fin 1)) (lit 0) \<and> flt (fsub Binary64 (Fin (- 1)) (Fin 0)) (lit 0) \<and> fge (fsub Binary64 (Fin (- 1)) (Fin 0)) (fneg PI_MULT_2) \<and> in_int_range (0 - 1)) \<and>
   range_reduce Binary64
      \<lparr>m_hasValidPreviousAngle = True, m_previousAngle = Fin 1,
       m_previousFullCyckles = 0, m_previousFullCycklesAngle = Fin 0\<rparr> (Fin (- 1)) =
      Inr (fsub Binary64 (Fin (- 1)) (fmul Binary64 (int_to_double (0 - 1)) PI_MULT_2),
        (\<lparr>m_hasValidPreviousAngle = True, m_previousAngle = Fin 1,
       m_previousFullCyckles = 0, m_previousFullCycklesAngle = Fin 0\<rparr>\<lparr>m_previousFullCyckles := (0 - 1),
         m_previousFullCycklesAngle := fmul Binary64 (int_to_double (0 - 1)) PI_MULT_2\<rparr>)) \<and>
   (fle (fsub Binary64 (Fin (- 7)) (Fin 1)) (lit 0) \<and> flt (fsub Binary64 (Fin (- 7)) (Fin 0)) (fneg PI_MULT_2)) \<and>
   range_reduce Binary64
      \<lparr>m_hasValidPreviousAngle = True, m_previousAngle = Fin 1,
       m_previousFullCyckles = 0, m_previousFullCycklesAngle = Fin 0\<rparr> (Fin (- 7)) =
      slow_path (\<lparr>m_hasValidPreviousAngle = True, m_previousAngle = Fin 1,
       m_previousFullCyckles = 0, m_previousFullCycklesAngle = Fin 0\<rparr>\<lparr>m_hasValidPreviousAngle := False\<rparr>) (Fin (- 7)) \<and>
   (fgt (fsub Binary64 (Fin (7074237752404257 / 524288)) (Fin (7074237749258529 / 524288))) (lit 0) \<and> fgt (fsub Binary64 (Fin (7074237752404257 / 524288)) (Fin (7074237748734241 / 524288))) PI_MULT_2 \<and>
    fle (fsub Binary64 (Fin (7074237752404257 / 524288)) (Fin (7074237748734241 / 524288))) PI_MULT_4 \<and> \<not> in_int_range (2147483647 + 1)) \<and>
   range_reduce Binary64
      \<lparr>m_hasValidPreviousAngle = True, m_previousAngle = Fin (7074237749258529 / 524288),
      m_previousFullCyckles = 2147483647, m_previousFullCycklesAngle = Fin (7074237748734241 / 524288)\<rparr> (Fin (7074237752404257 / 524288)) =
      Inl SignedOverflow \<and>
   (fle (fsub Binary64 (Fin (- (884279719265699 / 65536))) (Fin (- (884279719069091 / 65536)))) (lit 0) \<and> flt (fsub Binary64 (Fin (- (884279719265699 / 65536))) (Fin (- (884279719003555 / 65536)))) (lit 0) \<and>
    fge (fsub Binary64 (Fin (- (884279719265699 / 65536))) (Fin (- (884279719003555 / 65536)))) (fneg PI_MULT_2) \<and> \<not> in_int_range (- 2147483648 - 1)) \<and>
   range_reduce Binary64
      \<lparr>m_hasValidPreviousAngle = True, m_previousAngle = Fin (- (884279719069091 / 65536)),
      m_previousFullCyckles = - 2147483648, m_previousFullCycklesAngle = Fin (- (884279719003555 / 65536))\<rparr> (Fin (- (884279719265699 / 65536))) =
      Inl SignedOverflow"
proof -
  let ?s = "\<lparr>m_hasValidPreviousAngle = True, m_previousAngle = Fin 1,
       m_previousFullCyckles = 0, m_previousFullCycklesAngle = Fin 0\<rparr>"
  have h1: "fgt (fsub Binary64 (Fin 2) (Fin 1)) (lit 0) \<and> fle (fsub Binary64 (Fin 2) (Fin 0)) PI_MULT_2"
    by (simp add: fsub_def fgt_def fle_def fge_def consts_eq in_int_range_def INT_MIN_def INT_MAX_def
        fp_1 fp_2 fp_3 fp_4 fp_5 fp_6 fp_7 fp_8 im_17 im_18 rnd_lit_1 rnd_lit_2)
  have c1: "range_reduce Binary64
      \<lparr>m_hasValidPreviousAngle = True, m_previousAngle = Fin 1,
       m_previousFullCyckles = 0, m_previousFullCycklesAngle = Fin 0\<rparr> (Fin 2) =
      Inr (fsub Binary64 (Fin 2) (Fin 0), \<lparr>m_hasValidPreviousAngle = True, m_previousAngle = Fin 1,
       m_previousFullCyckles = 0, m_previousFullCycklesAngle = Fin 0\<rparr>)"
    using h1 fast_path_cases [of ?s Binary64 "Fin 2"] by (simp add: Let_def)
  have h2: "fgt (fsub Binary64 (Fin 7) (Fin 1)) (lit 0) \<and> fgt (fsub Binary64 (Fin 7) (Fin 0)) PI_MULT_2 \<and> fle (fsub Binary64 (Fin 7) (Fin 0)) PI_MULT_4 \<and> in_int_range (0 + 1)"
    by (simp add: fsub_def fgt_def fle_def fge_def consts_eq in_int_range_def INT_MIN_def INT_MAX_def
        fp_1 fp_2 fp_3 fp_4 fp_5 fp_6 fp_7 fp_8 im_17 im_18 rnd_lit_1 rnd_lit_2)
  have c2: "range_reduce Binary64
      \<lparr>m_hasValidPreviousAngle = True, m_previousAngle = Fin 1,
       m_previousFullCyckles = 0, m_previousFullCycklesAngle = Fin 0\<rparr> (Fin 7) =
      Inr (fsub Binary64 (Fin 7) (fmul Binary64 (int_to_double (0 + 1)) PI_MULT_2),
        (\<lparr>m_hasValidPreviousAngle = True, m_previousAngle = Fin 1,
       m_previousFullCyckles = 0, m_previousFullCycklesAngle = Fin 0\<rparr>\<lparr>m_previousFullCyckles := (0 + 1),
         m_previousFullCycklesAngle := fmul Binary64 (int_to_double (0 + 1)) PI_MULT_2\<rparr>))"
    using h2 fast_path_cases [of ?s Binary64 "Fin 7"] by (simp add: Let_def)
  have h3: "fgt (fsub Binary64 (Fin 13) (Fin 1)) (lit 0) \<and> fgt (fsub Binary64 (Fin 13) (Fin 0)) PI_MULT_4"
    by (simp add: fsub_def fgt_def fle_def fge_def consts_eq in_int_range_def INT_MIN_def INT_MAX_def
        fp_1 fp_2 fp_3 fp_4 fp_5 fp_6 fp_7 fp_8 im_17 im_18 rnd_lit_1 rnd_lit_2)
  have c3: "range_reduce Binary64
      \<lparr>m_hasValidPreviousAngle = True, m_previousAngle = Fin 1,
       m_previousFullCyckles = 0, m_previousFullCycklesAngle = Fin 0\<rparr> (Fin 13) =
      slow_path (\<lparr>m_hasValidPreviousAngle = True, m_previousAngle = Fin 1,
       m_previousFullCyckles = 0, m_previousFullCycklesAngle = Fin 0\<rparr>\<lparr>m_hasValidPreviousAngle := False\<rparr>) (Fin 13)"
    using h3 fast_path_cases [of ?s Binary64 "Fin 13"] by (simp add: Let_def)
  have h4: "fle (fsub Binary64 (Fin (1 / 2)) (Fin 1)) (lit 0) \<and> fge (fsub Binary64 (Fin (1 / 2)) (Fin 0)) (lit 0)"
    by (simp add: fsub_def fgt_def fle_def fge_def consts_eq in_int_range_def INT_MIN_def INT_MAX_def
        fp_1 fp_2 fp_3 fp_4 fp_5 fp_6 fp_7 fp_8 im_17 im_18 rnd_lit_1 rnd_lit_2)
  have c4: "range_reduce Binary64
      \<lparr>m_hasValidPreviousAngle = True, m_previousAngle = Fin 1,
       m_previousFullCyckles = 0, m_previousFullCycklesAngle = Fin 0\<rparr> (Fin (1 / 2)) =
      Inr (fsub Binary64 (Fin (1 / 2)) (Fin 0), \<lparr>m_hasValidPreviousAngle = True, m_previousAngle = Fin 1,
       m_previousFullCyckles = 0, m_previousFullCycklesAngle = Fin 0\<rparr>)"
    using h4 fast_path_cases [of ?s Binary64 "Fin (1 / 2)"] by (simp add: Let_def)
  have h5: "fle (fsub Binary64 (Fin (- 1)) (Fin 1)) (lit 0) \<and> flt (fsub Binary64 (Fin (- 1)) (Fin 0)) (lit 0) \<and> fge (fsub Binary64 (Fin (- 1)) (Fin 0)) (fneg PI_MULT_2) \<and> in_int_range (0 - 1)"
    by (simp add: fsub_def fgt_def fle_def fge_def consts_eq in_int_range_def INT_MIN_def INT_MAX_def
        fp_1 fp_2 fp_3 fp_4 fp_5 fp_6 fp_7 fp_8 im_17 im_18 rnd_lit_1 rnd_lit_2)
  have c5: "range_reduce Binary64
      \<lparr>m_hasValidPreviousAngle = True, m_previousAngle = Fin 1,
       m_previousFullCyckles = 0, m_previousFullCycklesAngle = Fin 0\<rparr> (Fin (- 1)) =
      Inr (fsub Binary64 (Fin (- 1)) (fmul Binary64 (int_to_double (0 - 1)) PI_MULT_2),
        (\<lparr>m_hasValidPreviousAngle = True, m_previousAngle = Fin 1,
       m_previousFullCyckles = 0, m_previousFullCycklesAngle = Fin 0\<rparr>\<lparr>m_previousFullCyckles := (0 - 1),
         m_previousFullCycklesAngle := fmul Binary64 (int_to_double (0 - 1)) PI_MULT_2\<rparr>))"
    using h5 fast_path_cases [of ?s Binary64 "Fin (- 1)"] by (simp add: Let_def)
  have h6: "fle (fsub Binary64 (Fin (- 7)) (Fin 1)) (lit 0) \<and> flt (fsub Binary64 (Fin (- 7)) (Fin 0)) (fneg PI_MULT_2)"
    by (simp add: fsub_def fgt_def fle_def fge_def consts_eq in_int_range_def INT_MIN_def INT_MAX_def
        fp_1 fp_2 fp_3 fp_4 fp_5 fp_6 fp_7 fp_8 im_17 im_18 rnd_lit_1 rnd_lit_2)
  have c6: "range_reduce Binary64
      \<lparr>m_hasValidPreviousAngle = True, m_previousAngle = Fin 1,
       m_previousFullCyckles = 0, m_previousFullCycklesAngle = Fin 0\<rparr> (Fin (- 7)) =
      slow_path (\<lparr>m_hasValidPreviousAngle = True, m_previousAngle = Fin 1,
       m_previousFullCyckles = 0, m_previousFullCycklesAngle = Fin 0\<rparr>\<lparr>m_hasValidPreviousAngle := False\<rparr>) (Fin (- 7))"
    using h6 fast_path_cases [of ?s Binary64 "Fin (- 7)"] by (simp add: Let_def)
  have h7: "fgt (fsub Binary64 (Fin (7074237752404257 / 524288)) (Fin (7074237749258529 / 524288))) (lit 0) \<and> fgt (fsub Binary64 (Fin (7074237752404257 / 524288)) (Fin (7074237748734241 / 524288))) PI_MULT_2 \<and>
    fle (fsub Binary64 (Fin (7074237752404257 / 524288)) (Fin (7074237748734241 / 524288))) PI_MULT_4 \<and> \<not> in_int_range (2147483647 + 1)"
    by (simp add: fsub_def fgt_def fle_def consts_eq in_int_range_def INT_MIN_def INT_MAX_def
        im_17 im_18)
  have c7: "range_reduce Binary64
      \<lparr>m_hasValidPreviousAngle = True, m_previousAngle = Fin (7074237749258529 / 524288),
      m_previousFullCyckles = 2147483647, m_previousFullCycklesAngle = Fin (7074237748734241 / 524288)\<rparr> (Fin (7074237752404257 / 524288)) =
      Inl SignedOverflow"
    using h7 fast_path_cases [of "\<lparr>m_hasValidPreviousAngle = True, m_previousAngle = Fin (7074237749258529 / 524288),
      m_previousFullCyckles = 2147483647, m_previousFullCycklesAngle = Fin (7074237748734241 / 524288)\<rparr>" Binary64 "Fin (7074237752404257 / 524288)"]
    by (simp add: Let_def)
  have h8: "fle (fsub Binary64 (Fin (- (884279719265699 / 65536))) (Fin (- (884279719069091 / 65536)))) (lit 0) \<and> flt (fsub Binary64 (Fin (- (884279719265699 / 65536))) (Fin (- (884279719003555 / 65536)))) (lit 0) \<and>
    fge (fsub Binary64 (Fin (- (884279719265699 / 65536))) (Fin (- (884279719003555 / 65536)))) (fneg PI_MULT_2) \<and> \<not> in_int_range (- 2147483648 - 1)"
    by (simp add: fsub_def fgt_def fle_def fge_def consts_eq in_int_range_def INT_MIN_def
        INT_MAX_def mn_8 mn_9)
  have c8: "range_reduce Binary64
      \<lparr>m_hasValidPreviousAngle = True, m_previousAngle = Fin (- (884279719069091 / 65536)),
      m_previousFullCyckles = - 2147483648, m_previousFullCycklesAngle = Fin (- (884279719003555 / 65536))\<rparr> (Fin (- (884279719265699 / 65536))) =
      Inl SignedOverflow"
    using h8 fast_path_cases [of "\<lparr>m_hasValidPreviousAngle = True, m_previousAngle = Fin (- (884279719069091 / 65536)),
      m_previousFullCyckles = - 2147483648, m_previousFullCycklesAngle = Fin (- (884279719003555 / 65536))\<rparr>" Binary64 "Fin (- (884279719265699 / 65536))"]
    by (simp add: Let_def)
  show ?thesis
    using h1 c1 h2 c2 h3 c3 h4 c4 h5 c5 h6 c6 h7 c7 h8 c8 by blast
qed

section \<open>The precision of the internal arithmetic\<close>

lemma quantum_le_ilog2:
  assumes "pow2 (qmin T) \<le> \<bar>x\<bar>"
  shows "quantum T x \<le> ilog2 x"
proof -
  have "0 < \<bar>x\<bar>" using assms pow2_pos [of "qmin T"] by linarith
  then have nz: "x \<noteq> 0" by simp
  from ilog2_bounds [OF nz] have "\<bar>x\<bar> < pow2 (ilog2 x + 1)" by simp
  with assms have "pow2 (qmin T) < pow2 (ilog2 x + 1)" by linarith
  then have "qmin T \<le> ilog2 x" by simp
  moreover have "0 \<le> prec T - 1" by (cases T) simp_all
  ultimately show ?thesis by (simp add: quantum_def)
qed

lemma rnd_pos:
  assumes "pow2 (qmin T) \<le> x"
  shows "rnd T x = PInf \<or> (\<exists>r. rnd T x = Fin r \<and> 0 < r)"
proof -
  have x: "0 < x" using assms pow2_pos [of "qmin T"] by linarith
  then have nz: "x \<noteq> 0" and ax: "\<bar>x\<bar> = x" by simp_all
  let ?q = "quantum T x"
  have "?q \<le> ilog2 x" using assms ax by (intro quantum_le_ilog2) simp
  then have "pow2 ?q \<le> pow2 (ilog2 x)" by simp
  also have "\<dots> \<le> x" using ilog2_bounds [OF nz] ax by simp
  finally have "of_int 1 \<le> x / pow2 ?q" by (simp add: le_divide_eq)
  then have "1 \<le> round_half_even (x / pow2 ?q)" by (rule round_half_even_ge)
  then have "0 < rat_of_int (round_half_even (x / pow2 ?q)) * pow2 ?q" by simp
  then show ?thesis using nz x by (simp add: rnd_def Let_def)
qed

lemma rnd_neg:
  assumes "x \<le> - pow2 (qmin T)"
  shows "rnd T x = NInf \<or> (\<exists>r. rnd T x = Fin r \<and> r < 0)"
proof -
  have x: "x < 0" using assms pow2_pos [of "qmin T"] by linarith
  then have nz: "x \<noteq> 0" and ax: "\<bar>x\<bar> = - x" by simp_all
  let ?q = "quantum T x"
  have "?q \<le> ilog2 x" using assms ax by (intro quantum_le_ilog2) simp
  then have "pow2 ?q \<le> pow2 (ilog2 x)" by simp
  also have "\<dots> \<le> - x" using ilog2_bounds [OF nz] ax by simp
  finally have "x / pow2 ?q \<le> of_int (- 1)" by (simp add: divide_le_eq) 
  then have "round_half_even (x / pow2 ?q) \<le> - 1" by (rule round_half_even_le)
  then have "rat_of_int (round_half_even (x / pow2 ?q)) < 0" by simp
  then have "rat_of_int (round_half_even (x / pow2 ?q)) * pow2 ?q < 0"
    by (simp add: mult_less_0_iff)
  then show ?thesis using nz x by (simp add: rnd_def Let_def)
qed

lemma qmin_le_quantum: "qmin T \<le> quantum T x"
  by (simp add: quantum_def)

lemma representable_grid:
  assumes "representable T x"
  shows "\<exists>k. x = of_int k * pow2 (qmin T)"
proof (cases "x = 0")
  case True
  then have "x = of_int 0 * pow2 (qmin T)" by simp
  then show ?thesis by blast
next
  case False
  let ?q = "quantum T x"
  let ?n = "round_half_even (x / pow2 ?q)"
  have "rnd T x = Fin x" using assms by (simp add: representable_def)
  then have x: "x = of_int ?n * pow2 ?q"
    using False by (simp add: rnd_def Let_def split: if_splits)
  have q: "0 \<le> ?q - qmin T" using qmin_le_quantum [of T x] by simp
  have "pow2 ?q = pow2 (?q - qmin T) * pow2 (qmin T)"
    using pow2_add [of "?q - qmin T" "qmin T"] by simp
  also have "pow2 (?q - qmin T) = of_int (2 ^ nat (?q - qmin T))"
    using q by (simp add: pow2_nat)
  finally have "x = of_int (?n * 2 ^ nat (?q - qmin T)) * pow2 (qmin T)"
    using x by simp
  then show ?thesis by blast
qed

lemma diff_grid:
  assumes "representable T a" "representable T p" "p < a"
  shows "pow2 (qmin T) \<le> a - p"
proof -
  from representable_grid [OF assms(1)] obtain i where a: "a = of_int i * pow2 (qmin T)" by blast
  from representable_grid [OF assms(2)] obtain j where p: "p = of_int j * pow2 (qmin T)" by blast
  have "of_int j * pow2 (qmin T) < rat_of_int i * pow2 (qmin T)" using assms(3) a p by simp
  then have "rat_of_int j < of_int i" by (simp add: mult_less_cancel_right)
  then have "1 \<le> i - j" by simp
  then have "rat_of_int 1 \<le> of_int (i - j)" by (simp only: of_int_le_iff)
  then have "1 * pow2 (qmin T) \<le> rat_of_int (i - j) * pow2 (qmin T)"
    by (intro mult_right_mono) simp_all
  then show ?thesis by (simp add: a p algebra_simps)
qed

lemma qmin_Binary64_le: "pow2 (qmin Binary64) \<le> pow2 (qmin T)"
  by (cases T) simp_all

lemma fgt_diff_iff:
  assumes "representable T a" "representable T p"
    and "pow2 (qmin U) \<le> pow2 (qmin T)"
  shows "fgt (fsub U (Fin a) (Fin p)) (lit 0) \<longleftrightarrow> p < a"
proof (cases "p < a")
  case True
  from assms(3) diff_grid [OF assms(1,2) True] have "pow2 (qmin U) \<le> a - p"
    by (rule order_trans)
  then have "pow2 (qmin U) \<le> a + - p" by (simp only: diff_conv_add_uminus)
  from rnd_pos [OF this] True show ?thesis by (auto simp: fsub_def fgt_def)
next
  case False
  then have "a + - p \<le> 0" by simp
  from rnd_nonpos [OF this, of U] False show ?thesis by (auto simp: fsub_def fgt_def)
qed

lemma fast_path_diff_sign:
  assumes "representable T a" "representable T p" "m_previousAngle s = Fin p"
  shows "fgt (fast_path_diff T s (Fin a)) (lit 0) \<longleftrightarrow>
         fgt (fast_path_diff Binary64 s (Fin a)) (lit 0)"
  using fgt_diff_iff [OF assms(1,2), of T] fgt_diff_iff [OF assms(1,2), of Binary64]
    qmin_Binary64_le [of T] assms(3)
  by (simp add: fast_path_diff_def)

lemma range_reduce_any_format:
  assumes "\<not> m_hasValidPreviousAngle s \<or>
           (\<exists>p. m_previousAngle s = Fin p \<and> representable T p)"
    and "representable T a"
  shows "range_reduce T s (Fin a) = range_reduce Binary64 s (Fin a)"
proof (cases "m_hasValidPreviousAngle s")
  case False
  then show ?thesis by (simp add: range_reduce_def)
next
  case True
  with assms(1) obtain p where p: "m_previousAngle s = Fin p" "representable T p" by blast
  from fast_path_diff_sign [OF assms(2) p(2) p(1)]
  have "fast_path T s (Fin a) = fast_path Binary64 s (Fin a)"
    by (simp add: fast_path_def Let_def)
  then show ?thesis by (simp add: range_reduce_def)
qed

lemma poly9_narrowed_first_eq: "poly9 T u = poly9_narrowed_first T u"
  by (simp add: poly9_def poly9_narrowed_first_def)

lemma operator_9_double_internal:
  assumes "\<not> m_hasValidPreviousAngle s \<or>
           (\<exists>p. m_previousAngle s = Fin p \<and> representable T p)"
    and "representable T a"
  shows "FastSin_operator T 9 s (Fin a) = FastSin_double_internal T 9 s (Fin a)"
  using range_reduce_any_format [OF assms]
  by (simp add: FastSin_operator_def FastSin_double_internal_def poly9_narrowed_first_eq Let_def
      split: sum.splits prod.splits)

lemma f9_1: "rnd Binary64 (131072 / 884279719003555) = Fin (5734161139222659 / 38685626227668133590597632)"
  by (rule rnd_cert [where e = "- 33" and q = "- 85" and n = "5734161139222659"])
     (simp_all add: max_finite_def)

lemma f9_2: "rnd Binary64 (5734161139222659 / 38685626227668133590597632) = Fin (5734161139222659 / 38685626227668133590597632)"
  by (rule rnd_cert [where e = "- 33" and q = "- 85" and n = "5734161139222659"])
     (simp_all add: max_finite_def)

lemma f9_3: "rnd Binary64 (5070602400912917721802757552745 / 5444517870735015415413993718908291383296) = Fin (1 / 1073741824)"
  by (rule rnd_cert [where e = "- 30" and q = "- 82" and n = "4503599627370496"])
     (simp_all add: max_finite_def)

lemma f9_4: "rnd Binary64 (1 / 1152921504606846976) = Fin (1 / 1152921504606846976)"
  by (rule rnd_cert [where e = "- 60" and q = "- 112" and n = "4503599627370496"])
     (simp_all add: max_finite_def)

lemma f9_5: "rnd Binary64 (1 / 1073741824) = Fin (1 / 1073741824)"
  by (rule rnd_cert [where e = "- 30" and q = "- 82" and n = "4503599627370496"])
     (simp_all add: max_finite_def)

lemma f9_6: "rnd Binary32 (4503599603438399 / 4503599627370496) = Fin 1"
  by (rule rnd_cert [where e = "- 1" and q = "- 24" and n = "16777216"])
     (simp_all add: max_finite_def)

lemma f9_7: "rnd Binary32 (- (6004795906528509 / 36028797018963968)) = Fin (- (2796201 / 16777216))"
  by (rule rnd_cert [where e = "- 3" and q = "- 26" and n = "- 11184804"])
     (simp_all add: max_finite_def)

lemma f9_8: "rnd Binary32 (4803661940573617 / 576460752303423488) = Fin (4473759 / 536870912)"
  by (rule rnd_cert [where e = "- 7" and q = "- 30" and n = "8947518"])
     (simp_all add: max_finite_def)

lemma f9_9: "rnd Binary32 (- (7307647680512915 / 36893488147419103232)) = Fin (- (13611555 / 68719476736))"
  by (rule rnd_cert [where e = "- 13" and q = "- 36" and n = "- 13611555"])
     (simp_all add: max_finite_def)

lemma f9_10: "rnd Binary32 (6143569919176483 / 2361183241434822606848) = Fin (11443291 / 4398046511104)"
  by (rule rnd_cert [where e = "- 19" and q = "- 42" and n = "11443291"])
     (simp_all add: max_finite_def)

lemma f9_11: "rnd Binary64 (11443291 / 5070602400912917605986812821504) = Fin (11443291 / 5070602400912917605986812821504)"
  by (rule rnd_cert [where e = "- 79" and q = "- 131" and n = "6143570075451392"])
     (simp_all add: max_finite_def)

lemma f9_12: "rnd Binary64 (- (1004355486120886463374648229 / 5070602400912917605986812821504)) = Fin (- (13611555 / 68719476736))"
  by (rule rnd_cert [where e = "- 13" and q = "- 65" and n = "- 7307647946588160"])
     (simp_all add: max_finite_def)

lemma f9_13: "rnd Binary64 (- (13611555 / 79228162514264337593543950336)) = Fin (- (13611555 / 79228162514264337593543950336))"
  by (rule rnd_cert [where e = "- 73" and q = "- 125" and n = "- 7307647946588160"])
     (simp_all add: max_finite_def)

lemma f9_14: "rnd Binary64 (660210298563638159410744797 / 79228162514264337593543950336) = Fin (4473759 / 536870912)"
  by (rule rnd_cert [where e = "- 7" and q = "- 59" and n = "4803662148796416"])
     (simp_all add: max_finite_def)

lemma f9_15: "rnd Binary64 (4473759 / 618970019642690137449562112) = Fin (4473759 / 618970019642690137449562112)"
  by (rule rnd_cert [where e = "- 67" and q = "- 119" and n = "4803662148796416"])
     (simp_all add: max_finite_def)

lemma f9_16: "rnd Binary64 (- (103161608451301443871947873 / 618970019642690137449562112)) = Fin (- (2796201 / 16777216))"
  by (rule rnd_cert [where e = "- 3" and q = "- 55" and n = "- 6004795924021248"])
     (simp_all add: max_finite_def)

lemma f9_17: "rnd Binary64 (- (2796201 / 19342813113834066795298816)) = Fin (- (2796201 / 19342813113834066795298816))"
  by (rule rnd_cert [where e = "- 63" and q = "- 115" and n = "- 6004795924021248"])
     (simp_all add: max_finite_def)

lemma f9_18: "rnd Binary64 (19342813113834066792502615 / 19342813113834066795298816) = Fin 1"
  by (rule rnd_cert [where e = "- 1" and q = "- 53" and n = "9007199254740992"])
     (simp_all add: max_finite_def)

lemma f9_19: "rnd Binary32 (1 / 1073741824) = Fin (1 / 1073741824)"
  by (rule rnd_cert [where e = "- 30" and q = "- 53" and n = "8388608"])
     (simp_all add: max_finite_def)

lemma f9_20: "trunc (5734161139222659 / 38685626227668133590597632) = 0"
  by (rule trunc_cert) simp_all

lemma eval_f9_2m30:
  "FastSin_operator Binary32 9
     \<lparr>m_hasValidPreviousAngle = False, m_previousAngle = NaN,
       m_previousFullCyckles = 0, m_previousFullCycklesAngle = NaN\<rparr> (Fin (1 / 1073741824)) =
   Inr (Fin (1 / 1073741824),
     \<lparr>m_hasValidPreviousAngle = True, m_previousAngle = Fin (1 / 1073741824),
     m_previousFullCyckles = 0, m_previousFullCycklesAngle = Fin 0\<rparr>)"
  by (simp add: FastSin_operator_def range_reduce_def fast_path_def fast_path_diff_def slow_path_def fold_quadrant_def
      poly7_def poly9_def fsub_def fgt_def fle_def fge_def lit_def int_to_double_def int_add_def
      in_int_range_def INT_MIN_def INT_MAX_def Let_def consts_eq
      f9_1 f9_2 f9_3 f9_4 f9_5 f9_6 f9_7 f9_8 f9_9 f9_10 f9_11 f9_12 f9_13 f9_14 f9_15 f9_16 f9_17 f9_18 f9_19 f9_20 m6_22 m6_24 m6_26 m6_28 m6_30 rnd_lit_1)

lemma f9_21: "rnd Binary32 (1073741823 / 1073741824) = Fin 1"
  by (rule rnd_cert [where e = "- 1" and q = "- 24" and n = "16777216"])
     (simp_all add: max_finite_def)

lemma f9_22: "rnd Binary64 (1073741823 / 1073741824) = Fin (1073741823 / 1073741824)"
  by (rule rnd_cert [where e = "- 1" and q = "- 53" and n = "9007199246352384"])
     (simp_all add: max_finite_def)

lemma f9_23: "rnd Binary32 1 = Fin 1"
  by (rule rnd_cert [where e = "0" and q = "- 23" and n = "8388608"])
     (simp_all add: max_finite_def)

text \<open>
  Claim C8, as stated, fails on the code. The data member \<^verbatim>\<open>m_previousAngle\<close> has type
  \<open>T\<close> (line 90), so line 104 subtracts two values of type \<open>T\<close> at the precision of \<open>T\<close>.
  With \<open>T = float\<close>, a first call with the angle \<open>2\<^sup>-\<^sup>3\<^sup>0\<close> on a new object (Degree 9) leaves
  that angle as the previous angle; for the next angle 1 the code computes
  \<open>diff = 1\<close>, the float nearest to \<open>1 - 2\<^sup>-\<^sup>3\<^sup>0\<close>, while the double subtraction gives
  \<open>1 - 2\<^sup>-\<^sup>3\<^sup>0\<close>.
\<close>

theorem diff_is_computed_at_precision_T:
  "FastSin_operator Binary32 9
     \<lparr>m_hasValidPreviousAngle = False, m_previousAngle = NaN,
      m_previousFullCyckles = 0, m_previousFullCycklesAngle = NaN\<rparr> (Fin (1 / 1073741824)) =
     Inr (Fin (1 / 1073741824),
       \<lparr>m_hasValidPreviousAngle = True, m_previousAngle = Fin (1 / 1073741824),
       m_previousFullCyckles = 0, m_previousFullCycklesAngle = Fin 0\<rparr>) \<and>
   fast_path_diff Binary32
     \<lparr>m_hasValidPreviousAngle = True, m_previousAngle = Fin (1 / 1073741824),
       m_previousFullCyckles = 0, m_previousFullCycklesAngle = Fin 0\<rparr> (Fin 1) = Fin 1 \<and>
   fast_path_diff Binary64
     \<lparr>m_hasValidPreviousAngle = True, m_previousAngle = Fin (1 / 1073741824),
       m_previousFullCyckles = 0, m_previousFullCycklesAngle = Fin 0\<rparr> (Fin 1) = Fin (1073741823 / 1073741824) \<and>
   fast_path_diff Binary32
     \<lparr>m_hasValidPreviousAngle = True, m_previousAngle = Fin (1 / 1073741824),
       m_previousFullCyckles = 0, m_previousFullCycklesAngle = Fin 0\<rparr> (Fin 1) \<noteq>
   fast_path_diff Binary64
     \<lparr>m_hasValidPreviousAngle = True, m_previousAngle = Fin (1 / 1073741824),
       m_previousFullCyckles = 0, m_previousFullCycklesAngle = Fin 0\<rparr> (Fin 1)"
  by (simp add: eval_f9_2m30 fast_path_diff_def fsub_def f9_21 f9_22)

text \<open>
  Claim C8, amended. The previous angle is stored at the precision \<open>T\<close> of the parameter
  \<^verbatim>\<open>angle\<close>, and \<open>diff\<close> is computed at that precision; all other arithmetic of the range
  reduction is double. For a finite angle of \<open>T\<close>, on a new object or on one whose previous
  angle is a finite value of \<open>T\<close>, \<open>diff\<close> is positive exactly when the double difference
  is, so the reducer yields the reduced angle and the cache that double arithmetic
  throughout yields. For Degree 9 the polynomial is evaluated in double from coefficients
  narrowed to \<open>T\<close> and only the final product is narrowed to \<open>T\<close>, so that the call
  returns what the evaluator with the arithmetic of the specification returns. Nothing
  is said here about the polynomial of Degree 7.
\<close>

theorem double_internal_arithmetic:
  "(\<not> m_hasValidPreviousAngle s \<or> (\<exists>p. m_previousAngle s = Fin p \<and> representable T p)) \<and>
   representable T a \<longrightarrow>
     (m_hasValidPreviousAngle s \<longrightarrow>
        fgt (fast_path_diff T s (Fin a)) (lit 0) =
        fgt (fast_path_diff Binary64 s (Fin a)) (lit 0)) \<and>
     range_reduce T s (Fin a) = range_reduce Binary64 s (Fin a) \<and>
     FastSin_operator T 9 s (Fin a) = FastSin_double_internal T 9 s (Fin a)"
proof (intro impI conjI)
  assume h: "(\<not> m_hasValidPreviousAngle s \<or>
      (\<exists>p. m_previousAngle s = Fin p \<and> representable T p)) \<and> representable T a"
  then show "range_reduce T s (Fin a) = range_reduce Binary64 s (Fin a)"
    by (intro range_reduce_any_format) simp_all
  from h show "FastSin_operator T 9 s (Fin a) = FastSin_double_internal T 9 s (Fin a)"
    by (intro operator_9_double_internal) simp_all
next
  assume h: "(\<not> m_hasValidPreviousAngle s \<or>
      (\<exists>p. m_previousAngle s = Fin p \<and> representable T p)) \<and> representable T a"
    and v: "m_hasValidPreviousAngle s"
  then obtain p where p: "m_previousAngle s = Fin p" "representable T p" by blast
  from h have a: "representable T a" by simp
  show "fgt (fast_path_diff T s (Fin a)) (lit 0) =
        fgt (fast_path_diff Binary64 s (Fin a)) (lit 0)"
    by (rule fast_path_diff_sign [OF a p(2) p(1)])
qed

theorem double_internal_arithmetic_witness:
  "(\<exists>p. m_previousAngle
          \<lparr>m_hasValidPreviousAngle = True, m_previousAngle = Fin (1 / 1073741824),
       m_previousFullCyckles = 0, m_previousFullCycklesAngle = Fin 0\<rparr> = Fin p \<and> representable Binary32 p) \<and>
   representable Binary32 1 \<and>
   m_hasValidPreviousAngle
     \<lparr>m_hasValidPreviousAngle = True, m_previousAngle = Fin (1 / 1073741824),
       m_previousFullCyckles = 0, m_previousFullCycklesAngle = Fin 0\<rparr> \<and>
   fgt (fast_path_diff Binary32
     \<lparr>m_hasValidPreviousAngle = True, m_previousAngle = Fin (1 / 1073741824),
       m_previousFullCyckles = 0, m_previousFullCycklesAngle = Fin 0\<rparr> (Fin 1)) (lit 0) =
   fgt (fast_path_diff Binary64
     \<lparr>m_hasValidPreviousAngle = True, m_previousAngle = Fin (1 / 1073741824),
       m_previousFullCyckles = 0, m_previousFullCycklesAngle = Fin 0\<rparr> (Fin 1)) (lit 0) \<and>
   range_reduce Binary32
     \<lparr>m_hasValidPreviousAngle = True, m_previousAngle = Fin (1 / 1073741824),
       m_previousFullCyckles = 0, m_previousFullCycklesAngle = Fin 0\<rparr> (Fin 1) =
   range_reduce Binary64
     \<lparr>m_hasValidPreviousAngle = True, m_previousAngle = Fin (1 / 1073741824),
       m_previousFullCyckles = 0, m_previousFullCycklesAngle = Fin 0\<rparr> (Fin 1) \<and>
   FastSin_operator Binary32 9
     \<lparr>m_hasValidPreviousAngle = True, m_previousAngle = Fin (1 / 1073741824),
       m_previousFullCyckles = 0, m_previousFullCycklesAngle = Fin 0\<rparr> (Fin 1) =
   FastSin_double_internal Binary32 9
     \<lparr>m_hasValidPreviousAngle = True, m_previousAngle = Fin (1 / 1073741824),
       m_previousFullCyckles = 0, m_previousFullCycklesAngle = Fin 0\<rparr> (Fin 1)"
proof -
  let ?s = "\<lparr>m_hasValidPreviousAngle = True, m_previousAngle = Fin (1 / 1073741824),
       m_previousFullCyckles = 0, m_previousFullCycklesAngle = Fin 0\<rparr>"
  have rp: "representable Binary32 (1 / 1073741824)"
    by (simp add: representable_def f9_19)
  have p: "\<exists>p. m_previousAngle ?s = Fin p \<and> representable Binary32 p"
    by (rule exI [of _ "1 / 1073741824"]) (simp add: rp)
  have a: "representable Binary32 1" by (simp add: representable_def f9_23)
  have v: "m_hasValidPreviousAngle ?s" by simp
  from double_internal_arithmetic [of ?s Binary32 1] p a v
  have "fgt (fast_path_diff Binary32 ?s (Fin 1)) (lit 0) =
        fgt (fast_path_diff Binary64 ?s (Fin 1)) (lit 0) \<and>
      range_reduce Binary32 ?s (Fin 1) = range_reduce Binary64 ?s (Fin 1) \<and>
      FastSin_operator Binary32 9 ?s (Fin 1) = FastSin_double_internal Binary32 9 ?s (Fin 1)"
    by blast
  with p a v show ?thesis by blast
qed

section \<open>The order of narrowing in Degree 7\<close>

lemma f7_1: "rnd Binary64 (26388279066624 / 126325674143365) = Fin (1881521623807435 / 9007199254740992)"
  by (rule rnd_cert [where e = "- 3" and q = "- 55" and n = "7526086495229740"])
     (simp_all add: max_finite_def)

lemma f7_2: "rnd Binary64 (1881521623807435 / 9007199254740992) = Fin (1881521623807435 / 9007199254740992)"
  by (rule rnd_cert [where e = "- 3" and q = "- 55" and n = "7526086495229740"])
     (simp_all add: max_finite_def)

lemma f7_3: "rnd Binary64 (1663791412799551141283400431425 / 1267650600228229401496703205376) = Fin (21 / 16)"
  by (rule rnd_cert [where e = "0" and q = "- 52" and n = "5910974510923776"])
     (simp_all add: max_finite_def)

lemma f7_4: "rnd Binary64 (441 / 256) = Fin (441 / 256)"
  by (rule rnd_cert [where e = "0" and q = "- 52" and n = "7758154045587456"])
     (simp_all add: max_finite_def)

lemma f7_5: "rnd Binary64 (21 / 16) = Fin (21 / 16)"
  by (rule rnd_cert [where e = "0" and q = "- 52" and n = "5910974510923776"])
     (simp_all add: max_finite_def)

lemma f7_6: "rnd Binary32 (9007190796070949 / 9007199254740992) = Fin (1048575 / 1048576)"
  by (rule rnd_cert [where e = "- 1" and q = "- 24" and n = "16777200"])
     (simp_all add: max_finite_def)

lemma f7_7: "rnd Binary32 (- (3002199328082639 / 18014398509481984)) = Fin (- (174751 / 1048576))"
  by (rule rnd_cert [where e = "- 3" and q = "- 26" and n = "- 11184064"])
     (simp_all add: max_finite_def)

lemma f7_8: "rnd Binary32 (4791484012579881 / 576460752303423488) = Fin (4462417 / 536870912)"
  by (rule rnd_cert [where e = "- 7" and q = "- 30" and n = "8924834"])
     (simp_all add: max_finite_def)

lemma f7_9: "rnd Binary64 (752006413027616229 / 2361183241434822606848) = Fin (1468762525444563 / 4611686018427387904)"
  by (rule rnd_cert [where e = "- 12" and q = "- 64" and n = "5875050101778252"])
     (simp_all add: max_finite_def)

lemma f7_10: "rnd Binary32 (1468762525444563 / 4611686018427387904) = Fin (5471567 / 17179869184)"
  by (rule rnd_cert [where e = "- 12" and q = "- 35" and n = "10943134"])
     (simp_all add: max_finite_def)

lemma f7_11: "rnd Binary32 (137325777 / 17179869184) = Fin (8582861 / 1073741824)"
  by (rule rnd_cert [where e = "- 7" and q = "- 30" and n = "8582861"])
     (simp_all add: max_finite_def)

lemma f7_12: "rnd Binary64 (3785041701 / 274877906944) = Fin (3785041701 / 274877906944)"
  by (rule rnd_cert [where e = "- 7" and q = "- 59" and n = "7937807773335552"])
     (simp_all add: max_finite_def)

lemma f7_13: "rnd Binary64 (- (42024884443 / 274877906944)) = Fin (- (42024884443 / 274877906944))"
  by (rule rnd_cert [where e = "- 3" and q = "- 55" and n = "- 5508285653712896"])
     (simp_all add: max_finite_def)

lemma f7_14: "rnd Binary64 (- (18532974039363 / 70368744177664)) = Fin (- (18532974039363 / 70368744177664))"
  by (rule rnd_cert [where e = "- 2" and q = "- 54" and n = "- 4744441354076928"])
     (simp_all add: max_finite_def)

lemma f7_15: "rnd Binary64 (51835703029437 / 70368744177664) = Fin (51835703029437 / 70368744177664)"
  by (rule rnd_cert [where e = "- 1" and q = "- 53" and n = "6634969987767936"])
     (simp_all add: max_finite_def)

lemma f7_16: "rnd Binary64 (1088549763618177 / 1125899906842624) = Fin (1088549763618177 / 1125899906842624)"
  by (rule rnd_cert [where e = "- 1" and q = "- 53" and n = "8708398108945416"])
     (simp_all add: max_finite_def)

lemma f7_17: "rnd Binary32 (1088549763618177 / 1125899906842624) = Fin (16220655 / 16777216)"
  by (rule rnd_cert [where e = "- 1" and q = "- 24" and n = "16220655"])
     (simp_all add: max_finite_def)

lemma f7_18: "trunc (1881521623807435 / 9007199254740992) = 0"
  by (rule trunc_cert) simp_all

lemma eval_f7_21_16:
  "FastSin_operator Binary32 7
     \<lparr>m_hasValidPreviousAngle = False, m_previousAngle = NaN,
       m_previousFullCyckles = 0, m_previousFullCycklesAngle = NaN\<rparr> (Fin (21 / 16)) =
   Inr (Fin (16220655 / 16777216),
     \<lparr>m_hasValidPreviousAngle = True, m_previousAngle = Fin (21 / 16),
     m_previousFullCyckles = 0, m_previousFullCycklesAngle = Fin 0\<rparr>)"
  by (simp add: FastSin_operator_def range_reduce_def fast_path_def fast_path_diff_def slow_path_def fold_quadrant_def
      poly7_def poly9_def fsub_def fgt_def fle_def fge_def lit_def int_to_double_def int_add_def
      in_int_range_def INT_MIN_def INT_MAX_def Let_def consts_eq
      f7_1 f7_2 f7_3 f7_4 f7_5 f7_6 f7_7 f7_8 f7_9 f7_10 f7_11 f7_12 f7_13 f7_14 f7_15 f7_16 f7_17 f7_18 m6_6 m6_8 m6_10 m6_12 rnd_lit_1)

lemma f7_19: "rnd Binary32 (- (1705229961513869 / 9223372036854775808)) = Fin (- (12704953 / 68719476736))"
  by (rule rnd_cert [where e = "- 13" and q = "- 36" and n = "- 12704953"])
     (simp_all add: max_finite_def)

lemma f7_20: "rnd Binary64 (- (5602884273 / 17592186044416)) = Fin (- (5602884273 / 17592186044416))"
  by (rule rnd_cert [where e = "- 12" and q = "- 64" and n = "- 5875049979445248"])
     (simp_all add: max_finite_def)

lemma f7_21: "rnd Binary64 (140621595983 / 17592186044416) = Fin (140621595983 / 17592186044416)"
  by (rule rnd_cert [where e = "- 7" and q = "- 59" and n = "4607888457170944"])
     (simp_all add: max_finite_def)

lemma f7_22: "rnd Binary64 (62014123828503 / 4503599627370496) = Fin (62014123828503 / 4503599627370496)"
  by (rule rnd_cert [where e = "- 7" and q = "- 59" and n = "7937807850048384"])
     (simp_all add: max_finite_def)

lemma f7_23: "rnd Binary64 (- (688535706114793 / 4503599627370496)) = Fin (- (688535706114793 / 4503599627370496))"
  by (rule rnd_cert [where e = "- 3" and q = "- 55" and n = "- 5508285648918344"])
     (simp_all add: max_finite_def)

lemma f7_24: "rnd Binary64 (- (303644246396623713 / 1152921504606846976)) = Fin (- (2372220674973623 / 9007199254740992))"
  by (rule rnd_cert [where e = "- 2" and q = "- 54" and n = "- 4744441349947246"])
     (simp_all add: max_finite_def)

lemma f7_25: "rnd Binary64 (6634969989832777 / 9007199254740992) = Fin (6634969989832777 / 9007199254740992)"
  by (rule rnd_cert [where e = "- 1" and q = "- 53" and n = "6634969989832777"])
     (simp_all add: max_finite_def)

lemma f7_26: "rnd Binary64 (139334369786488317 / 144115188075855872) = Fin (272137440989235 / 281474976710656)"
  by (rule rnd_cert [where e = "- 1" and q = "- 53" and n = "8708398111655520"])
     (simp_all add: max_finite_def)

lemma f7_27: "rnd Binary32 (272137440989235 / 281474976710656) = Fin (1013791 / 1048576)"
  by (rule rnd_cert [where e = "- 1" and q = "- 24" and n = "16220656"])
     (simp_all add: max_finite_def)

lemma eval_f7_double_internal_21_16:
  "FastSin_double_internal Binary32 7
     \<lparr>m_hasValidPreviousAngle = False, m_previousAngle = NaN,
      m_previousFullCyckles = 0, m_previousFullCycklesAngle = NaN\<rparr> (Fin (21 / 16)) =
   Inr (Fin (1013791 / 1048576),
     \<lparr>m_hasValidPreviousAngle = True, m_previousAngle = Fin (21 / 16),
     m_previousFullCyckles = 0, m_previousFullCycklesAngle = Fin 0\<rparr>)"
  by (simp add: FastSin_operator_def FastSin_double_internal_def range_reduce_def fast_path_def
      fast_path_diff_def slow_path_def fold_quadrant_def poly7_def poly9_def poly7_narrowed_first_def
      poly9_narrowed_first_def fsub_def fgt_def fle_def fge_def lit_def int_to_double_def int_add_def
      in_int_range_def INT_MIN_def INT_MAX_def Let_def consts_eq
      f7_1 f7_2 f7_3 f7_4 f7_5 f7_6 f7_7 f7_8 f7_18 f7_19 f7_20 f7_21 f7_22 f7_23 f7_24 f7_25 f7_26 f7_27 m6_6 m6_8 m6_10 m6_12 rnd_lit_1)

lemma poly7_at_21_16:
  "poly7 Binary32 ((Fin (441 / 256))) = Fin (51835703029437 / 70368744177664)"
  by (simp add: poly7_def fsub_def lit_def
      f7_6 f7_7 f7_8 f7_9 f7_10 f7_11 f7_12 f7_13 f7_14 f7_15 m6_6 m6_8 m6_10 m6_12)

lemma poly7_narrowed_first_at_21_16:
  "poly7_narrowed_first Binary32 ((Fin (441 / 256))) = Fin (6634969989832777 / 9007199254740992)"
  by (simp add: poly7_narrowed_first_def lit_def
      f7_6 f7_7 f7_8 f7_19 f7_20 f7_21 f7_22 f7_23 f7_24 f7_25 m6_6 m6_8 m6_10 m6_12)

text \<open>
  Claim C9 fails on the code for Degree 7 with \<open>T = float\<close>. Line 181 multiplies the double
  literal \<open>0.000184881402886071\<close> by \<open>x2\<close> and casts the product to \<open>T\<close>, and the
  subtraction from the cast third coefficient is then a subtraction of \<open>T\<close>; the
  coefficient is not narrowed before it is multiplied, as it is in every other term and
  in Degree 9. At the float angle \<open>21/16\<close> on a new object, \<open>x2\<close> is \<open>441 / 256\<close>; the factor
  computed by the code and the one computed from narrowed coefficients differ, and so do
  the returned floats.
\<close>

theorem degree7_product_narrowed_after_multiplication:
  "poly7 Binary32 (Fin (441 / 256)) = Fin (51835703029437 / 70368744177664) \<and>
   poly7_narrowed_first Binary32 (Fin (441 / 256)) = Fin (6634969989832777 / 9007199254740992) \<and>
   poly7 Binary32 (Fin (441 / 256)) \<noteq> poly7_narrowed_first Binary32 (Fin (441 / 256)) \<and>
   FastSin_operator Binary32 7
     \<lparr>m_hasValidPreviousAngle = False, m_previousAngle = NaN,
      m_previousFullCyckles = 0, m_previousFullCycklesAngle = NaN\<rparr> (Fin (21 / 16)) =
     Inr (Fin (16220655 / 16777216),
       \<lparr>m_hasValidPreviousAngle = True, m_previousAngle = Fin (21 / 16),
       m_previousFullCyckles = 0, m_previousFullCycklesAngle = Fin 0\<rparr>) \<and>
   FastSin_double_internal Binary32 7
     \<lparr>m_hasValidPreviousAngle = False, m_previousAngle = NaN,
      m_previousFullCyckles = 0, m_previousFullCycklesAngle = NaN\<rparr> (Fin (21 / 16)) =
     Inr (Fin (1013791 / 1048576),
       \<lparr>m_hasValidPreviousAngle = True, m_previousAngle = Fin (21 / 16),
       m_previousFullCyckles = 0, m_previousFullCycklesAngle = Fin 0\<rparr>)"
  by (simp add: poly7_at_21_16 poly7_narrowed_first_at_21_16 eval_f7_21_16
      eval_f7_double_internal_21_16)

section \<open>A Degree other than 7 and 9\<close>

lemma slow_path_0:
  "slow_path s (Fin 0) =
     Inr (Fin 0, s\<lparr>m_previousFullCyckles := 0, m_previousFullCycklesAngle := Fin 0\<rparr>)"
  by (simp add: slow_path_def Let_def consts_eq int_to_double_def in_int_range_def
      INT_MIN_def INT_MAX_def trunc_def fsub_def rnd_0)

lemma operator_other_degree:
  "D \<noteq> 7 \<Longrightarrow> D \<noteq> 9 \<Longrightarrow> range_reduce T s angle = Inr (a, s1) \<Longrightarrow>
   FastSin_operator T D s angle = Inl MissingReturn"
  by (simp add: FastSin_operator_def Let_def split: prod.splits)

text \<open>
  Claim C6 fails on the code. The header comment of the class says that \<^verbatim>\<open>Degree\<close> can be 7
  or 9, and nothing in the class refuses another value: there is no \<^verbatim>\<open>static_assert\<close> and
  no last \<^verbatim>\<open>else\<close> after the two \<^verbatim>\<open>if constexpr\<close> branches of lines 177 to 189. With
  \<^verbatim>\<open>Degree\<close> 5 or 8 an object is constructed and called: the call with the angle 0 on a
  new object runs the reducer, which writes the cycle count and the cached product, and
  then control reaches the end of \<^verbatim>\<open>operator()\<close>, a function that returns \<^verbatim>\<open>T\<close>, with no
  \<^verbatim>\<open>return\<close> statement.
\<close>

theorem other_degree_reaches_end_of_function:
  "range_reduce Binary64 \<lparr>m_hasValidPreviousAngle = False, m_previousAngle = NaN,
        m_previousFullCyckles = 0, m_previousFullCycklesAngle = NaN\<rparr> (Fin 0) =
     Inr (Fin 0, \<lparr>m_hasValidPreviousAngle = False, m_previousAngle = NaN,
      m_previousFullCyckles = 0, m_previousFullCycklesAngle = Fin 0\<rparr>) \<and>
   FastSin_operator Binary64 5 \<lparr>m_hasValidPreviousAngle = False, m_previousAngle = NaN,
        m_previousFullCyckles = 0, m_previousFullCycklesAngle = NaN\<rparr> (Fin 0) = Inl MissingReturn \<and>
   FastSin_operator Binary32 5 \<lparr>m_hasValidPreviousAngle = False, m_previousAngle = NaN,
        m_previousFullCyckles = 0, m_previousFullCycklesAngle = NaN\<rparr> (Fin 0) = Inl MissingReturn \<and>
   FastSin_operator Binary64 8 \<lparr>m_hasValidPreviousAngle = False, m_previousAngle = NaN,
        m_previousFullCyckles = 0, m_previousFullCycklesAngle = NaN\<rparr> (Fin 0) = Inl MissingReturn"
proof -
  let ?s = "\<lparr>m_hasValidPreviousAngle = False, m_previousAngle = NaN,
        m_previousFullCyckles = 0, m_previousFullCycklesAngle = NaN\<rparr>"
  have r: "range_reduce T ?s (Fin 0) =
      Inr (Fin 0, \<lparr>m_hasValidPreviousAngle = False, m_previousAngle = NaN,
        m_previousFullCyckles = 0, m_previousFullCycklesAngle = Fin 0\<rparr>)" for T
    by (simp add: range_reduce_def slow_path_0)
  have "FastSin_operator Binary64 5 ?s (Fin 0) = Inl MissingReturn"
    by (rule operator_other_degree [OF _ _ r]) simp_all
  moreover have "FastSin_operator Binary32 5 ?s (Fin 0) = Inl MissingReturn"
    by (rule operator_other_degree [OF _ _ r]) simp_all
  moreover have "FastSin_operator Binary64 8 ?s (Fin 0) = Inl MissingReturn"
    by (rule operator_other_degree [OF _ _ r]) simp_all
  ultimately show ?thesis using r [of Binary64] by blast
qed

section \<open>Calls that return finite values\<close>

subsection \<open>The error of a rounding, and magnitudes\<close>

lemma round_half_even_error: "\<bar>y - of_int (round_half_even y)\<bar> \<le> 1 / 2"
proof -
  have f: "of_int \<lfloor>y\<rfloor> \<le> y" "y < of_int \<lfloor>y\<rfloor> + 1" by linarith+
  show ?thesis
  proof (cases "y - of_int \<lfloor>y\<rfloor> < 1 / 2")
    case True
    then show ?thesis using f by (simp add: round_half_even_def Let_def abs_le_iff)
  next
    case False
    note nl = this
    show ?thesis
    proof (cases "1 / 2 < y - of_int \<lfloor>y\<rfloor>")
      case True
      then show ?thesis using f nl by (simp add: round_half_even_def Let_def abs_le_iff)
    next
      case False
      with nl have "y - of_int \<lfloor>y\<rfloor> = 1 / 2" by linarith
      then show ?thesis by (simp add: round_half_even_def Let_def abs_le_iff)
    qed
  qed
qed

lemma trunc_error: "\<bar>x - of_int (trunc x)\<bar> < 1"
proof (cases "0 \<le> x")
  case True
  have "of_int \<lfloor>x\<rfloor> \<le> x" "x < of_int \<lfloor>x\<rfloor> + 1" by linarith+
  then show ?thesis using True by (simp add: trunc_def abs_less_iff)
next
  case False
  have f: "of_int \<lfloor>- x\<rfloor> \<le> - x" "- x < of_int \<lfloor>- x\<rfloor> + 1" by linarith+
  have "rat_of_int (trunc x) = - rat_of_int \<lfloor>- x\<rfloor>" using False by (simp add: trunc_def)
  with f show ?thesis by linarith
qed

lemma pow2_le_1: "q \<le> 0 \<Longrightarrow> pow2 q \<le> 1"
  using pow2_le_iff [of q 0] by simp

lemma pow2_prec_le_max_finite: "pow2 (prec T) + 1 \<le> max_finite T"
  by (cases T) (simp_all add: max_finite_def)

lemma rnd_near:
  assumes "\<bar>x\<bar> < pow2 (prec T)"
  shows "\<exists>r. rnd T x = Fin r \<and> \<bar>r - x\<bar> \<le> 1 / 2 \<and>
           (\<forall>m. of_int m \<le> x \<longrightarrow> of_int m \<le> r) \<and>
           (\<forall>m. x \<le> of_int m \<longrightarrow> r \<le> of_int m)"
proof (cases "x = 0")
  case True
  then show ?thesis by simp
next
  case False
  let ?q = "quantum T x"
  let ?n = "round_half_even (x / pow2 ?q)"
  let ?r = "rat_of_int ?n * pow2 ?q"
  have q: "?q \<le> 0" using False assms by (rule quantum_le_0)
  have p: "pow2 ?q * 2 ^ nat (- ?q) = 1"
    using q pow2_add [of ?q "- ?q"] by (simp add: pow2_nat)
  have scale: "rat_of_int (m * 2 ^ nat (- ?q)) = of_int m / pow2 ?q" for m
    using p by (simp add: field_simps)
  have scale': "rat_of_int (m * 2 ^ nat (- ?q)) * pow2 ?q = of_int m" for m
    by (simp only: scale) simp
  have "\<bar>x / pow2 ?q - of_int ?n\<bar> \<le> 1 / 2" by (rule round_half_even_error)
  then have "\<bar>x / pow2 ?q - of_int ?n\<bar> * pow2 ?q \<le> 1 / 2 * pow2 ?q"
    by (intro mult_right_mono) simp_all
  moreover have "\<bar>x / pow2 ?q - of_int ?n\<bar> * pow2 ?q = \<bar>x - ?r\<bar>"
  proof -
    have "\<bar>x / pow2 ?q - of_int ?n\<bar> * pow2 ?q = \<bar>(x / pow2 ?q - of_int ?n) * pow2 ?q\<bar>"
      by (simp add: abs_mult)
    also have "(x / pow2 ?q - of_int ?n) * pow2 ?q = x - ?r"
      by (simp add: left_diff_distrib)
    finally show ?thesis .
  qed
  moreover have "1 / 2 * pow2 ?q \<le> 1 / 2" using pow2_le_1 [OF q] by simp
  ultimately have err: "\<bar>?r - x\<bar> \<le> 1 / 2" by (simp add: abs_minus_commute)
  have lo: "of_int m \<le> x \<longrightarrow> of_int m \<le> ?r" for m
  proof
    assume "rat_of_int m \<le> x"
    then have "of_int m / pow2 ?q \<le> x / pow2 ?q" by (intro divide_right_mono) simp_all
    then have "rat_of_int (m * 2 ^ nat (- ?q)) \<le> x / pow2 ?q" by (simp only: scale)
    then have "m * 2 ^ nat (- ?q) \<le> ?n" by (rule round_half_even_ge)
    then have "rat_of_int (m * 2 ^ nat (- ?q)) \<le> of_int ?n" by (simp only: of_int_le_iff)
    then have "rat_of_int (m * 2 ^ nat (- ?q)) * pow2 ?q \<le> ?r"
      by (intro mult_right_mono) simp_all
    then show "of_int m \<le> ?r" by (simp only: scale')
  qed
  have hi: "x \<le> of_int m \<longrightarrow> ?r \<le> of_int m" for m
  proof
    assume "x \<le> rat_of_int m"
    then have "x / pow2 ?q \<le> of_int m / pow2 ?q" by (intro divide_right_mono) simp_all
    then have "x / pow2 ?q \<le> rat_of_int (m * 2 ^ nat (- ?q))" by (simp only: scale)
    then have "?n \<le> m * 2 ^ nat (- ?q)" by (rule round_half_even_le)
    then have "of_int ?n \<le> rat_of_int (m * 2 ^ nat (- ?q))" by (simp only: of_int_le_iff)
    then have "?r \<le> rat_of_int (m * 2 ^ nat (- ?q)) * pow2 ?q"
      by (intro mult_right_mono) simp_all
    then show "?r \<le> of_int m" by (simp only: scale')
  qed
  have "\<bar>?r\<bar> \<le> \<bar>x\<bar> + 1 / 2" using err by linarith
  with assms pow2_prec_le_max_finite [of T] have "\<not> max_finite T < \<bar>?r\<bar>" by linarith
  then have "rnd T x = Fin ?r" using False by (simp add: rnd_def Let_def)
  with err lo hi show ?thesis by blast
qed

lemma rnd_abs_le_pow2:
  assumes k: "qmin T \<le> k" "k \<le> qmax T" and x: "\<bar>x\<bar> \<le> pow2 k"
  shows "\<exists>r. rnd T x = Fin r \<and> \<bar>r\<bar> \<le> pow2 k"
proof (cases "x = 0")
  case True then show ?thesis by simp
next
  case False
  let ?q = "quantum T x"
  let ?n = "round_half_even (x / pow2 ?q)"
  have "pow2 (ilog2 x) \<le> \<bar>x\<bar>" using ilog2_bounds [OF False] by simp
  with x have "pow2 (ilog2 x) \<le> pow2 k" by linarith
  then have e: "ilog2 x \<le> k" by simp
  have "0 \<le> prec T - 1" by (cases T) simp_all
  with e k(1) have q: "?q \<le> k" by (simp add: quantum_def)
  define N where "N = (2 :: int) ^ nat (k - ?q)"
  have N: "rat_of_int N = pow2 k / pow2 ?q"
    using q by (simp add: N_def pow2_diff [symmetric] pow2_nat)
  have "x \<le> pow2 k" "- pow2 k \<le> x" using x by (simp_all add: abs_le_iff)
  then have "x / pow2 ?q \<le> pow2 k / pow2 ?q" "(- pow2 k) / pow2 ?q \<le> x / pow2 ?q"
    by (intro divide_right_mono; simp)+
  then have "x / pow2 ?q \<le> of_int N" "of_int (- N) \<le> x / pow2 ?q"
    by (simp_all add: N)
  then have "?n \<le> N" "- N \<le> ?n"
    by (simp_all only: round_half_even_le round_half_even_ge)
  then have "\<bar>rat_of_int ?n\<bar> \<le> of_int N" by (simp add: abs_le_iff)
  then have "\<bar>rat_of_int ?n\<bar> * pow2 ?q \<le> of_int N * pow2 ?q"
    by (intro mult_right_mono) simp_all
  then have r: "\<bar>rat_of_int ?n * pow2 ?q\<bar> \<le> pow2 k"
    by (simp add: abs_mult N)
  have "pow2 (qmax T) \<le> max_finite T"
    by (cases T) (simp_all add: max_finite_def)
  moreover have "pow2 k \<le> pow2 (qmax T)" using k(2) by simp
  ultimately have "\<not> max_finite T < \<bar>rat_of_int ?n * pow2 ?q\<bar>" using r by linarith
  then show ?thesis using False r by (simp add: rnd_def Let_def)
qed

lemma format_range: "qmin T \<le> 0" "104 \<le> qmax T"
  by (cases T; simp)+

lemma bounded_by_rnd:
  "0 \<le> k \<Longrightarrow> k \<le> 104 \<Longrightarrow> \<bar>x\<bar> \<le> pow2 k \<Longrightarrow> bounded_by k (rnd T x)"
  unfolding bounded_by_def using format_range [of T]
  by (intro rnd_abs_le_pow2) simp_all

lemma bounded_by_mono: "bounded_by i a \<Longrightarrow> i \<le> k \<Longrightarrow> bounded_by k a"
proof -
  assume a: "bounded_by i a" and ik: "i \<le> k"
  then obtain r where r: "a = Fin r" "\<bar>r\<bar> \<le> pow2 i" by (auto simp: bounded_by_def)
  have "pow2 i \<le> pow2 k" using ik by simp
  with r(2) have "\<bar>r\<bar> \<le> pow2 k" by (rule order_trans)
  with r(1) show ?thesis unfolding bounded_by_def by blast
qed

lemma bounded_by_fneg: "bounded_by k a \<Longrightarrow> bounded_by k (fneg a)"
  by (auto simp: bounded_by_def)

lemma bounded_by_fmul:
  assumes "bounded_by i a" "bounded_by j b" "0 \<le> i + j" "i + j \<le> 104"
  shows "bounded_by (i + j) (fmul T a b)"
proof -
  from assms obtain x y where x: "a = Fin x" "\<bar>x\<bar> \<le> pow2 i" and y: "b = Fin y" "\<bar>y\<bar> \<le> pow2 j"
    by (auto simp: bounded_by_def)
  have "\<bar>x\<bar> * \<bar>y\<bar> \<le> pow2 i * pow2 j" using x(2) y(2) by (intro mult_mono) simp_all
  then have "\<bar>x * y\<bar> \<le> pow2 (i + j)" by (simp add: abs_mult pow2_add)
  then show ?thesis using assms(3,4) x(1) y(1) by (simp add: bounded_by_rnd)
qed

lemma bounded_by_fadd:
  assumes "bounded_by k a" "bounded_by k b" "0 \<le> k" "k < 104"
  shows "bounded_by (k + 1) (fadd T a b)"
proof -
  from assms obtain x y where x: "a = Fin x" "\<bar>x\<bar> \<le> pow2 k" and y: "b = Fin y" "\<bar>y\<bar> \<le> pow2 k"
    by (auto simp: bounded_by_def)
  have "pow2 (k + 1) = 2 * pow2 k" by (simp add: pow2_add)
  with x(2) y(2) have "\<bar>x + y\<bar> \<le> pow2 (k + 1)" by linarith
  then show ?thesis using assms(3,4) x(1) y(1) by (simp add: bounded_by_rnd)
qed

lemma bounded_by_fsub:
  assumes "bounded_by k a" "bounded_by k b" "0 \<le> k" "k < 104"
  shows "bounded_by (k + 1) (fsub T a b)"
  unfolding fsub_def using assms by (intro bounded_by_fadd bounded_by_fneg)

lemma bounded_by_narrow:
  assumes "bounded_by k a" "0 \<le> k" "k \<le> 104"
  shows "bounded_by k (narrow T a)"
proof -
  from assms obtain x where x: "a = Fin x" "\<bar>x\<bar> \<le> pow2 k" by (auto simp: bounded_by_def)
  then show ?thesis using assms(2,3) by (simp add: bounded_by_rnd)
qed

lemma bounded_by_lit: "\<bar>c\<bar> \<le> 1 \<Longrightarrow> bounded_by 0 (lit c)"
  unfolding lit_def by (intro bounded_by_rnd) simp_all

lemma bounded_by_coefficient:
  "\<bar>c\<bar> \<le> 1 \<Longrightarrow> 0 \<le> k \<Longrightarrow> k \<le> 104 \<Longrightarrow> bounded_by k (narrow T (lit c))"
  "\<bar>c\<bar> \<le> 1 \<Longrightarrow> 0 \<le> k \<Longrightarrow> k \<le> 104 \<Longrightarrow> bounded_by k (narrow T (fneg (lit c)))"
proof -
  assume c: "\<bar>c\<bar> \<le> 1" and k: "0 \<le> k" "k \<le> 104"
  have "bounded_by 0 (narrow T (lit c))"
    using c by (intro bounded_by_narrow bounded_by_lit) simp_all
  then show "bounded_by k (narrow T (lit c))" using k(1) by (rule bounded_by_mono)
  have "bounded_by 0 (narrow T (fneg (lit c)))"
    using c by (intro bounded_by_narrow bounded_by_fneg bounded_by_lit) simp_all
  then show "bounded_by k (narrow T (fneg (lit c)))" using k(1) by (rule bounded_by_mono)
qed

lemma poly7_bounded:
  assumes u: "bounded_by 10 u"
  shows "bounded_by 33 (poly7 T u)"
proof -
  let ?t1 = "narrow T (fmul Binary64 (lit (184881402886071 / 10 ^ 18)) u)"
  let ?t2 = "fsub T (narrow T (lit (831189980138987 / 10 ^ 17))) ?t1"
  let ?t3 = "fmul Binary64 u ?t2"
  let ?t4 = "fadd Binary64 (narrow T (fneg (lit (166655540927576 / 10 ^ 15)))) ?t3"
  let ?t5 = "fmul Binary64 u ?t4"
  have "bounded_by (0 + 10) (fmul Binary64 (lit (184881402886071 / 10 ^ 18)) u)"
    by (rule bounded_by_fmul) (use u in \<open>simp_all add: bounded_by_lit\<close>)
  then have t1: "bounded_by 10 ?t1" by (intro bounded_by_narrow) simp_all
  have "bounded_by (10 + 1) ?t2"
    by (rule bounded_by_fsub) (use t1 in \<open>simp_all add: bounded_by_coefficient\<close>)
  then have t2: "bounded_by 11 ?t2" by simp
  have "bounded_by (10 + 11) ?t3" by (rule bounded_by_fmul) (use u t2 in simp_all)
  then have t3: "bounded_by 21 ?t3" by simp
  have "bounded_by (21 + 1) ?t4"
    by (rule bounded_by_fadd) (use t3 in \<open>simp_all add: bounded_by_coefficient\<close>)
  then have t4: "bounded_by 22 ?t4" by simp
  have "bounded_by (10 + 22) ?t5" by (rule bounded_by_fmul) (use u t4 in simp_all)
  then have t5: "bounded_by 32 ?t5" by simp
  have "bounded_by (32 + 1) (poly7 T u)"
    unfolding poly7_def
    by (rule bounded_by_fadd) (use t5 in \<open>simp_all add: bounded_by_coefficient\<close>)
  then show ?thesis by simp
qed

lemma poly9_bounded:
  assumes u: "bounded_by 10 u"
  shows "bounded_by 44 (poly9 T u)"
proof -
  let ?t1 = "fmul Binary64 (narrow T (lit (2601903067651460 / 10 ^ 21))) u"
  let ?t2 = "fadd Binary64 (narrow T (fneg (lit (198074187274269 / 10 ^ 18)))) ?t1"
  let ?t3 = "fmul Binary64 u ?t2"
  let ?t4 = "fadd Binary64 (narrow T (lit (833302513896936 / 10 ^ 17))) ?t3"
  let ?t5 = "fmul Binary64 u ?t4"
  let ?t6 = "fadd Binary64 (narrow T (fneg (lit (166666566840071 / 10 ^ 15)))) ?t5"
  let ?t7 = "fmul Binary64 u ?t6"
  have "bounded_by (0 + 10) ?t1"
    by (rule bounded_by_fmul) (use u in \<open>simp_all add: bounded_by_coefficient\<close>)
  then have t1: "bounded_by 10 ?t1" by simp
  have "bounded_by (10 + 1) ?t2"
    by (rule bounded_by_fadd) (use t1 in \<open>simp_all add: bounded_by_coefficient\<close>)
  then have t2: "bounded_by 11 ?t2" by simp
  have "bounded_by (10 + 11) ?t3" by (rule bounded_by_fmul) (use u t2 in simp_all)
  then have t3: "bounded_by 21 ?t3" by simp
  have "bounded_by (21 + 1) ?t4"
    by (rule bounded_by_fadd) (use t3 in \<open>simp_all add: bounded_by_coefficient\<close>)
  then have t4: "bounded_by 22 ?t4" by simp
  have "bounded_by (10 + 22) ?t5" by (rule bounded_by_fmul) (use u t4 in simp_all)
  then have t5: "bounded_by 32 ?t5" by simp
  have "bounded_by (32 + 1) ?t6"
    by (rule bounded_by_fadd) (use t5 in \<open>simp_all add: bounded_by_coefficient\<close>)
  then have t6: "bounded_by 33 ?t6" by simp
  have "bounded_by (10 + 33) ?t7" by (rule bounded_by_fmul) (use u t6 in simp_all)
  then have t7: "bounded_by 43 ?t7" by simp
  have "bounded_by (43 + 1) (poly9 T u)"
    unfolding poly9_def
    by (rule bounded_by_fadd) (use t7 in \<open>simp_all add: bounded_by_coefficient\<close>)
  then show ?thesis by simp
qed

subsection \<open>The reduced angle\<close>

lemma PI_MULT_2_Fin: "PI_MULT_2 = Fin PI_MULT_2_value"
  by (simp add: PI_MULT_2_eq PI_MULT_2_value_def)

lemma PI_MULT_4_Fin: "PI_MULT_4 = Fin (2 * PI_MULT_2_value)"
  by (simp add: PI_MULT_4_eq PI_MULT_2_value_def)

lemma PI_MULT_2_value_bounds: "6 < PI_MULT_2_value" "PI_MULT_2_value < 7"
  by (simp_all add: PI_MULT_2_value_def)

lemma pow2_53: "pow2 (prec Binary64) = 9007199254740992"
  by simp

lemma cycles_product:
  assumes "in_int_range c"
  shows "\<exists>ca. fmul Binary64 (int_to_double c) PI_MULT_2 = Fin ca \<and>
           \<bar>ca - of_int c * PI_MULT_2_value\<bar> \<le> 1 / 2"
proof -
  let ?t = PI_MULT_2_value
  have c: "\<bar>rat_of_int c\<bar> \<le> 2147483648"
  proof -
    have "\<bar>c\<bar> \<le> 2147483648"
      using assms by (simp add: in_int_range_def INT_MIN_def INT_MAX_def abs_le_iff)
    then have "rat_of_int \<bar>c\<bar> \<le> rat_of_int 2147483648" by (simp only: of_int_le_iff)
    then show ?thesis by simp
  qed
  have "\<bar>rat_of_int c * ?t\<bar> = \<bar>rat_of_int c\<bar> * ?t"
    using PI_MULT_2_value_bounds by (simp add: abs_mult)
  also have "\<dots> \<le> 2147483648 * 7"
    using c PI_MULT_2_value_bounds by (intro mult_mono) simp_all
  finally have "\<bar>rat_of_int c * ?t\<bar> < pow2 (prec Binary64)" by (simp add: pow2_53)
  from rnd_near [OF this] obtain r where
    "rnd Binary64 (rat_of_int c * ?t) = Fin r" "\<bar>r - rat_of_int c * ?t\<bar> \<le> 1 / 2" by blast
  then show ?thesis by (simp add: int_to_double_def PI_MULT_2_Fin)
qed

lemma slow_path_bounded:
  assumes "\<bar>x\<bar> \<le> 13493037698"
  shows "\<exists>a c ca. slow_path s (Fin x) =
           Inr (Fin a, s\<lparr>m_previousFullCyckles := c, m_previousFullCycklesAngle := Fin ca\<rparr>) \<and>
         in_int_range c \<and> fmul Binary64 (int_to_double c) PI_MULT_2 = Fin ca \<and>
         \<bar>a\<bar> \<le> 7 \<and> \<bar>x - ca\<bar> \<le> 10"
proof -
  let ?t = PI_MULT_2_value
  define y where "y = x / ?t"
  have t: "6 < ?t" "?t < 7" by (rule PI_MULT_2_value_bounds)+
  have x: "x = ?t * y" using t by (simp add: y_def)
  have y: "y \<le> of_int 2147483647" "of_int (- 2147483647) \<le> y"
    using assms by (simp_all add: y_def PI_MULT_2_value_def abs_le_iff field_simps)
  then have "\<bar>y\<bar> < pow2 (prec Binary64)" by (simp add: pow2_53 abs_less_iff)
  from rnd_near [OF this] obtain d where d: "rnd Binary64 y = Fin d" "\<bar>d - y\<bar> \<le> 1 / 2"
    and dlo: "\<forall>m. of_int m \<le> y \<longrightarrow> of_int m \<le> d" and dhi: "\<forall>m. y \<le> of_int m \<longrightarrow> d \<le> of_int m"
    by blast
  from y dlo dhi have "d \<le> of_int 2147483647" "of_int (- 2147483647) \<le> d" by blast+
  then have "\<bar>d\<bar> \<le> of_int 2147483647" by (simp add: abs_le_iff)
  then have "\<bar>trunc d\<bar> \<le> 2147483647" by (rule trunc_abs_le)
  then have c: "in_int_range (trunc d)"
    by (simp add: in_int_range_def INT_MIN_def INT_MAX_def abs_le_iff)
  have dc: "\<bar>d - of_int (trunc d)\<bar> < 1" by (rule trunc_error)
  from cycles_product [OF c] obtain ca where
    ca: "fmul Binary64 (int_to_double (trunc d)) PI_MULT_2 = Fin ca"
        "\<bar>ca - of_int (trunc d) * ?t\<bar> \<le> 1 / 2" by blast
  have yc: "\<bar>y - of_int (trunc d)\<bar> \<le> 3 / 2" using d(2) dc by linarith
  have eq: "\<bar>x - of_int (trunc d) * ?t\<bar> = ?t * \<bar>y - of_int (trunc d)\<bar>"
  proof -
    have "x - of_int (trunc d) * ?t = ?t * (y - of_int (trunc d))"
      by (simp add: x algebra_simps)
    then show ?thesis using t by (simp add: abs_mult)
  qed
  have xc: "\<bar>x - ca\<bar> \<le> 10"
  proof -
    have "?t * \<bar>y - of_int (trunc d)\<bar> \<le> ?t * (3 / 2)"
      using t yc by (intro mult_left_mono) simp_all
    also have "\<dots> \<le> 19 / 2" by (simp add: PI_MULT_2_value_def)
    finally have "\<bar>x - of_int (trunc d) * ?t\<bar> \<le> 19 / 2" using eq by simp
    with ca(2) show ?thesis by linarith
  qed
  have "\<bar>d + - of_int (trunc d)\<bar> \<le> of_int 1" using dc by simp
  from rnd_abs_le_int [OF _ _ this, of Binary64] obtain f where
    f: "rnd Binary64 (d + - of_int (trunc d)) = Fin f" "\<bar>f\<bar> \<le> 1" by auto
  have "\<bar>f * ?t\<bar> = \<bar>f\<bar> * ?t" using t by (simp add: abs_mult)
  also have "\<dots> \<le> 1 * 7" using f(2) t by (intro mult_mono) simp_all
  finally have "\<bar>f * ?t\<bar> \<le> of_int 7" by simp
  from rnd_abs_le_int [OF _ _ this, of Binary64] obtain a where
    a: "rnd Binary64 (f * ?t) = Fin a" "\<bar>a\<bar> \<le> 7" by auto
  have "slow_path s (Fin x) =
      Inr (Fin a, s\<lparr>m_previousFullCyckles := trunc d, m_previousFullCycklesAngle := Fin ca\<rparr>)"
    using d(1) c ca(1) f(1) a(1) t
    by (simp add: slow_path_def Let_def PI_MULT_2_Fin y_def fsub_def int_to_double_def)
  with c ca(1) a(2) xc show ?thesis by blast
qed

lemma fast_path_bounded:
  assumes v: "m_hasValidPreviousAngle s" and cb: "cache_bounded T s"
    and rx: "representable T x" and bx: "\<bar>x\<bar> \<le> 13493037698"
  shows "\<exists>a s1. fast_path T s (Fin x) = Inr (a, s1) \<and> cache_fields s1 \<and>
           (m_hasValidPreviousAngle s1 \<longrightarrow>
              (\<exists>a0 ca. a = Fin a0 \<and> \<bar>a0\<bar> \<le> 10 \<and>
                 m_previousFullCycklesAngle s1 = Fin ca \<and> \<bar>x - ca\<bar> \<le> 10))"
proof -
  let ?t = PI_MULT_2_value
  let ?c = "m_previousFullCyckles s"
  have t: "6 < ?t" "?t < 7" by (rule PI_MULT_2_value_bounds)+
  have t2: "2 * ?t < 13" by (simp add: PI_MULT_2_value_def)
  from cb v obtain p ca where cf: "cache_fields s"
    and prev: "m_previousAngle s = Fin p" and cA: "m_previousFullCycklesAngle s = Fin ca"
    and rp: "representable T p" and pc: "\<bar>p - ca\<bar> \<le> 10"
    by (auto simp: cache_bounded_def)
  from cf have c: "in_int_range ?c"
    and cA': "m_previousFullCycklesAngle s = fmul Binary64 (int_to_double ?c) PI_MULT_2"
    by (simp_all add: cache_fields_def)
  from cycles_product [OF c] cA cA' have e0: "\<bar>ca - of_int ?c * ?t\<bar> \<le> 1 / 2" by auto
  define y where "y = x + - ca"
  have cabs: "\<bar>rat_of_int ?c\<bar> \<le> 2147483648"
  proof -
    have "\<bar>?c\<bar> \<le> 2147483648"
      using c by (simp add: in_int_range_def INT_MIN_def INT_MAX_def abs_le_iff)
    then have "rat_of_int \<bar>?c\<bar> \<le> rat_of_int 2147483648" by (simp only: of_int_le_iff)
    then show ?thesis by simp
  qed
  have "\<bar>rat_of_int ?c * ?t\<bar> = \<bar>rat_of_int ?c\<bar> * ?t" using t by (simp add: abs_mult)
  also have "\<dots> \<le> 2147483648 * 7" using cabs t by (intro mult_mono) simp_all
  finally have "\<bar>ca\<bar> \<le> 15032385537" using e0 by linarith
  with bx have "\<bar>y\<bar> < pow2 (prec Binary64)" by (simp add: y_def pow2_53)
  from rnd_near [OF this] obtain a0 where a0: "rnd Binary64 y = Fin a0"
    and lo: "\<forall>m. of_int m \<le> y \<longrightarrow> of_int m \<le> a0" and hi: "\<forall>m. y \<le> of_int m \<longrightarrow> a0 \<le> of_int m"
    by blast
  have lo': "of_int m \<le> y \<Longrightarrow> of_int m \<le> a0" for m using lo by blast
  have hi': "y \<le> of_int m \<Longrightarrow> a0 \<le> of_int m" for m using hi by blast
  have A: "fsub Binary64 (Fin x) (m_previousFullCycklesAngle s) = Fin a0"
    using a0 by (simp add: fsub_def cA y_def)
  have D: "fgt (fast_path_diff T s (Fin x)) (Fin 0) = (p < x)"
    using fgt_diff_iff [OF rx rp, of T] by (simp add: fast_path_diff_def prev)
  have G2: "fgt (Fin a0) PI_MULT_2 = (?t < a0)" by (simp add: fgt_def PI_MULT_2_Fin)
  have L4: "fle (Fin a0) PI_MULT_4 = (a0 \<le> 2 * ?t)"
    by (auto simp: fle_def PI_MULT_4_Fin)
  have L0: "flt (Fin a0) (lit 0) = (a0 < 0)" by simp
  have GM: "fge (Fin a0) (fneg PI_MULT_2) = (- ?t \<le> a0)"
    by (auto simp: fge_def fle_def PI_MULT_2_Fin)
  have small: "\<bar>y\<bar> \<le> 10 \<Longrightarrow> \<bar>a0\<bar> \<le> 10"
  proof -
    assume "\<bar>y\<bar> \<le> 10"
    then have "y \<le> of_int 10" "of_int (- 10) \<le> y" by (simp_all add: abs_le_iff)
    then have "a0 \<le> of_int 10" "of_int (- 10) \<le> a0" using hi' lo' by blast+
    then show ?thesis by (simp add: abs_le_iff)
  qed
  have moved: "\<exists>a1 ca1. fmul Binary64 (int_to_double k) PI_MULT_2 = Fin ca1 \<and>
      fsub Binary64 (Fin x) (Fin ca1) = Fin a1 \<and> \<bar>a1\<bar> \<le> 10 \<and> \<bar>x - ca1\<bar> \<le> 10"
    if k: "in_int_range k" and step: "\<bar>of_int k * ?t - of_int ?c * ?t - (y - 3)\<bar> \<le> 6" for k
  proof -
    from cycles_product [OF k] obtain ca1 where
      ca1: "fmul Binary64 (int_to_double k) PI_MULT_2 = Fin ca1"
      and e1: "\<bar>ca1 - of_int k * ?t\<bar> \<le> 1 / 2" by blast
    define P where "P = of_int k * ?t"
    define Q where "Q = of_int ?c * ?t"
    have "\<bar>P - Q - (x - ca - 3)\<bar> \<le> 6" "\<bar>ca - Q\<bar> \<le> 1 / 2" "\<bar>ca1 - P\<bar> \<le> 1 / 2"
      using step e0 e1 by (simp_all add: y_def P_def Q_def)
    then have "\<bar>x - ca1\<bar> \<le> 10" by linarith
    then have y1: "\<bar>x + - ca1\<bar> \<le> of_int 10" by simp
    from rnd_abs_le_int [OF _ _ this, of Binary64] obtain a1 where
      "rnd Binary64 (x + - ca1) = Fin a1" "\<bar>a1\<bar> \<le> 10" by auto
    with ca1 y1 show ?thesis by (simp add: fsub_def)
  qed
  show ?thesis
  proof (cases "p < x")
    case up: True
    show ?thesis
    proof (cases "?t < a0")
      case g: True
      show ?thesis
      proof (cases "a0 \<le> 2 * ?t")
        case True
        have "\<not> y \<le> of_int 6" using hi' [of 6] g t by auto
        moreover have "\<not> of_int 13 \<le> y" using lo' [of 13] True t2 by auto
        ultimately have yr: "6 < y" "y < 13" by simp_all
        have "fgt (fsub Binary64 (Fin x) (fmul Binary64 (int_to_double ?c) PI_MULT_2)) PI_MULT_2"
          using A g by (simp add: cA' [symmetric] G2)
        then have "?c \<noteq> INT_MAX" using no_increment_at_INT_MAX [OF bx] by auto
        with c have inc: "int_add ?c 1 = Inr (?c + 1)" "in_int_range (?c + 1)"
          using int_add_inc by blast+
        have "\<bar>of_int (?c + 1) * ?t - of_int ?c * ?t - (y - 3)\<bar> \<le> 6"
          using yr t by (simp add: algebra_simps abs_le_iff)
        from moved [OF inc(2) this] obtain a1 ca1 where
          m: "fmul Binary64 (int_to_double (?c + 1)) PI_MULT_2 = Fin ca1"
             "fsub Binary64 (Fin x) (Fin ca1) = Fin a1" "\<bar>a1\<bar> \<le> 10" "\<bar>x - ca1\<bar> \<le> 10"
          by blast
        have "fast_path T s (Fin x) =
            Inr (Fin a1, s\<lparr>m_previousFullCyckles := ?c + 1,
                           m_previousFullCycklesAngle := Fin ca1\<rparr>)"
          using up g True inc(1) m(1,2)
          by (simp add: fast_path_def Let_def D A G2 L4)
        with inc(2) m show ?thesis by (simp add: cache_fields_def)
      next
        case False
        have "fast_path T s (Fin x) = Inr (Fin a0, s\<lparr>m_hasValidPreviousAngle := False\<rparr>)"
          using up g False by (simp add: fast_path_def Let_def D A G2 L4)
        with cf show ?thesis by (simp add: cache_fields_def)
      qed
    next
      case False
      have "\<not> of_int 7 \<le> y" using lo' [of 7] False t by auto
      moreover have "p - ca < y" using up by (simp add: y_def)
      ultimately have "\<bar>y\<bar> \<le> 10" using pc by (simp add: abs_le_iff) 
      then have "\<bar>a0\<bar> \<le> 10" "\<bar>x - ca\<bar> \<le> 10" using small by (simp_all add: y_def)
      moreover have "fast_path T s (Fin x) = Inr (Fin a0, s)"
        using up False by (simp add: fast_path_def Let_def D A G2)
      ultimately show ?thesis using cf cA by simp
    qed
  next
    case down: False
    show ?thesis
    proof (cases "a0 < 0")
      case g: True
      show ?thesis
      proof (cases "- ?t \<le> a0")
        case True
        have "\<not> of_int 0 \<le> y" using lo' [of 0] g by auto
        moreover have "\<not> y \<le> of_int (- 7)" using hi' [of "- 7"] True t by auto
        ultimately have yr: "- 7 < y" "y < 0" by simp_all
        have "flt (fsub Binary64 (Fin x) (fmul Binary64 (int_to_double ?c) PI_MULT_2)) (lit 0)"
          using A g by (simp add: cA' [symmetric])
        then have "?c \<noteq> INT_MIN" using no_decrement_at_INT_MIN [OF bx] by auto
        with c have dec: "int_add ?c (- 1) = Inr (?c - 1)" "in_int_range (?c - 1)"
          using int_add_dec by blast+
        have "\<bar>of_int (?c - 1) * ?t - of_int ?c * ?t - (y - 3)\<bar> \<le> 6"
          using yr t by (simp add: algebra_simps abs_le_iff)
        from moved [OF dec(2) this] obtain a1 ca1 where
          m: "fmul Binary64 (int_to_double (?c - 1)) PI_MULT_2 = Fin ca1"
             "fsub Binary64 (Fin x) (Fin ca1) = Fin a1" "\<bar>a1\<bar> \<le> 10" "\<bar>x - ca1\<bar> \<le> 10"
          by blast
        have "fast_path T s (Fin x) =
            Inr (Fin a1, s\<lparr>m_previousFullCyckles := ?c - 1,
                           m_previousFullCycklesAngle := Fin ca1\<rparr>)"
          using down g True dec(1) m(1,2)
          by (simp add: fast_path_def Let_def D A L0 GM)
        with dec(2) m show ?thesis by (simp add: cache_fields_def)
      next
        case False
        have "fast_path T s (Fin x) = Inr (Fin a0, s\<lparr>m_hasValidPreviousAngle := False\<rparr>)"
          using down g False by (simp add: fast_path_def Let_def D A L0 GM)
        with cf show ?thesis by (simp add: cache_fields_def)
      qed
    next
      case False
      have "\<not> y \<le> of_int (- 1)" using hi' [of "- 1"] False by auto
      moreover have "y \<le> p - ca" using down by (simp add: y_def)
      ultimately have "\<bar>y\<bar> \<le> 10" using pc by (simp add: abs_le_iff)
      then have "\<bar>a0\<bar> \<le> 10" "\<bar>x - ca\<bar> \<le> 10" using small by (simp_all add: y_def)
      moreover have "fast_path T s (Fin x) = Inr (Fin a0, s)"
        using down False by (simp add: fast_path_def Let_def D A L0)
      ultimately show ?thesis using cf cA by simp
    qed
  qed
qed

lemma range_reduce_bounded:
  assumes cb: "cache_bounded T s" and rx: "representable T x"
    and bx: "\<bar>x\<bar> \<le> 13493037698"
  shows "\<exists>a s1 ca. range_reduce T s (Fin x) = Inr (Fin a, s1) \<and> \<bar>a\<bar> \<le> 10 \<and>
           cache_fields s1 \<and> m_previousFullCycklesAngle s1 = Fin ca \<and> \<bar>x - ca\<bar> \<le> 10"
proof -
  have slow: "\<exists>a s1 ca. slow_path s0 (Fin x) = Inr (Fin a, s1) \<and> \<bar>a\<bar> \<le> 10 \<and>
           cache_fields s1 \<and> m_previousFullCycklesAngle s1 = Fin ca \<and> \<bar>x - ca\<bar> \<le> 10" for s0
  proof -
    from slow_path_bounded [OF bx, of s0] obtain a c ca where
      1: "slow_path s0 (Fin x) =
           Inr (Fin a, s0\<lparr>m_previousFullCyckles := c, m_previousFullCycklesAngle := Fin ca\<rparr>)"
      and 2: "in_int_range c" "fmul Binary64 (int_to_double c) PI_MULT_2 = Fin ca"
      and 3: "\<bar>a\<bar> \<le> 7" "\<bar>x - ca\<bar> \<le> 10"
      by blast
    let ?s1 = "s0\<lparr>m_previousFullCyckles := c, m_previousFullCycklesAngle := Fin ca\<rparr>"
    have "cache_fields ?s1" using 2 by (simp add: cache_fields_def)
    moreover have "\<bar>a\<bar> \<le> 10" using 3(1) by simp
    moreover have "m_previousFullCycklesAngle ?s1 = Fin ca" by simp
    ultimately show ?thesis using 1 3(2) by blast
  qed
  show ?thesis
  proof (cases "m_hasValidPreviousAngle s")
    case False
    with slow [of s] show ?thesis by (simp add: range_reduce_def)
  next
    case v: True
    from fast_path_bounded [OF v cb rx bx] obtain a s1 where
      1: "fast_path T s (Fin x) = Inr (a, s1)" and 2: "cache_fields s1"
      and 3: "m_hasValidPreviousAngle s1 \<longrightarrow>
              (\<exists>a0 ca. a = Fin a0 \<and> \<bar>a0\<bar> \<le> 10 \<and>
                 m_previousFullCycklesAngle s1 = Fin ca \<and> \<bar>x - ca\<bar> \<le> 10)"
      by blast
    show ?thesis
    proof (cases "m_hasValidPreviousAngle s1")
      case True
      with 3 obtain a0 ca where "a = Fin a0" "\<bar>a0\<bar> \<le> 10"
        "m_previousFullCycklesAngle s1 = Fin ca" "\<bar>x - ca\<bar> \<le> 10" by blast
      moreover have "range_reduce T s (Fin x) = Inr (a, s1)"
        using v 1 True by (simp add: range_reduce_def)
      ultimately show ?thesis using 2 by blast
    next
      case False
      have "range_reduce T s (Fin x) = slow_path s1 (Fin x)"
        using v 1 False by (simp add: range_reduce_def)
      with slow [of s1] show ?thesis by simp
    qed
  qed
qed

lemma bounded_by_FAST_SIN_PI: "bounded_by 4 FAST_SIN_PI"
  unfolding bounded_by_def FAST_SIN_PI_eq
  by (rule exI [of _ "884279719003555 / 281474976710656"]) simp

lemma bounded_by_PI_MULT_2: "bounded_by 4 PI_MULT_2"
  unfolding bounded_by_def PI_MULT_2_eq
  by (rule exI [of _ "884279719003555 / 140737488355328"]) simp

lemma bounded_by_sign: "bounded_by 0 (lit 1)" "bounded_by 0 (fneg (lit 1))"
  by (simp_all add: bounded_by_def)

lemma fold_quadrant_bounded:
  assumes "\<bar>a\<bar> \<le> 10"
  shows "\<exists>x' sign. fold_quadrant (Fin a) = (x', sign) \<and> bounded_by 5 x' \<and> bounded_by 0 sign"
proof -
  have a: "bounded_by 4 (Fin a)" using assms by (simp add: bounded_by_def)
  have 1: "bounded_by (4 + 1) (fsub Binary64 FAST_SIN_PI (Fin a))"
    using bounded_by_FAST_SIN_PI a by (rule bounded_by_fsub) simp_all
  have 2: "bounded_by (4 + 1) (fsub Binary64 (Fin a) FAST_SIN_PI)"
    using a bounded_by_FAST_SIN_PI by (rule bounded_by_fsub) simp_all
  have 3: "bounded_by (4 + 1) (fsub Binary64 PI_MULT_2 (Fin a))"
    using bounded_by_PI_MULT_2 a by (rule bounded_by_fsub) simp_all
  have 4: "bounded_by 5 (Fin a)" using a by (rule bounded_by_mono) simp
  from 1 2 3 4 bounded_by_sign show ?thesis
    unfolding fold_quadrant_def by (simp del: lit_simps)
qed

lemma product_bounded:
  assumes x: "bounded_by 5 x'" and sg: "bounded_by 0 sign"
    and p: "bounded_by k p" and k: "0 \<le> k" "k \<le> 44"
  shows "\<exists>r. narrow T (fmul Binary64 (fmul Binary64 sign x') p) = Fin r"
proof -
  have "bounded_by (0 + 5) (fmul Binary64 sign x')"
    using sg x by (rule bounded_by_fmul) simp_all
  then have 1: "bounded_by 5 (fmul Binary64 sign x')" by simp
  have 2: "bounded_by (5 + k) (fmul Binary64 (fmul Binary64 sign x') p)"
    using 1 p by (rule bounded_by_fmul) (use k in simp_all)
  have "bounded_by (5 + k) (narrow T (fmul Binary64 (fmul Binary64 sign x') p))"
    using 2 by (rule bounded_by_narrow) (use k in simp_all)
  then show ?thesis by (auto simp: bounded_by_def)
qed

lemma operator_bounded:
  assumes cb: "cache_bounded T s" and rx: "representable T x"
    and bx: "\<bar>x\<bar> \<le> 13493037698" and D: "D = 7 \<or> D = 9"
  shows "\<exists>r s'. FastSin_operator T D s (Fin x) = Inr (Fin r, s') \<and> cache_bounded T s'"
proof -
  from range_reduce_bounded [OF cb rx bx] obtain a s1 ca where
    1: "range_reduce T s (Fin x) = Inr (Fin a, s1)" and a: "\<bar>a\<bar> \<le> 10"
    and cf: "cache_fields s1" and ca: "m_previousFullCycklesAngle s1 = Fin ca" "\<bar>x - ca\<bar> \<le> 10"
    by blast
  from fold_quadrant_bounded [OF a] obtain x' sign where
    2: "fold_quadrant (Fin a) = (x', sign)" and x': "bounded_by 5 x'" and sg: "bounded_by 0 sign"
    by blast
  let ?s2 = "s1\<lparr>m_previousAngle := Fin x, m_hasValidPreviousAngle := True\<rparr>"
  have "bounded_by (5 + 5) (fmul Binary64 x' x')"
    using x' x' by (rule bounded_by_fmul) simp_all
  then have u: "bounded_by 10 (fmul Binary64 x' x')" by simp
  have cf2: "cache_fields ?s2" using cf by (simp add: cache_fields_def)
  have "\<exists>p ca. m_previousAngle ?s2 = Fin p \<and> m_previousFullCycklesAngle ?s2 = Fin ca \<and>
      representable T p \<and> \<bar>p - ca\<bar> \<le> 10"
    using ca rx by (intro exI [of _ x] exI [of _ ca]) simp
  with cf2 have s2: "cache_bounded T ?s2" unfolding cache_bounded_def by blast
  from D show ?thesis
  proof
    assume D7: "D = 7"
    from product_bounded [OF x' sg poly7_bounded [OF u], of T T] obtain r where
      "narrow T (fmul Binary64 (fmul Binary64 sign x') (poly7 T (fmul Binary64 x' x'))) = Fin r"
      by auto
    then have "FastSin_operator T D s (Fin x) = Inr (Fin r, ?s2)"
      using 1 2 D7 by (simp add: FastSin_operator_def Let_def)
    with s2 show ?thesis by blast
  next
    assume D9: "D = 9"
    from product_bounded [OF x' sg poly9_bounded [OF u], of T T] obtain r where
      "narrow T (fmul Binary64 (fmul Binary64 sign x') (poly9 T (fmul Binary64 x' x'))) = Fin r"
      by auto
    then have "FastSin_operator T D s (Fin x) = Inr (Fin r, ?s2)"
      using 1 2 D9 by (simp add: FastSin_operator_def Let_def)
    with s2 show ?thesis by blast
  qed
qed

lemma calls_bounded:
  assumes "D = 7 \<or> D = 9"
  shows "cache_bounded T s \<Longrightarrow> \<forall>x \<in> set xs. representable T x \<and> \<bar>x\<bar> \<le> 13493037698 \<Longrightarrow>
         \<exists>rs s'. FastSin_calls T D s (map Fin xs) = Inr (map Fin rs, s') \<and>
           length rs = length xs \<and> cache_bounded T s'"
proof (induction xs arbitrary: s)
  case Nil
  then show ?case by simp
next
  case (Cons x xs)
  from Cons.prems have x: "representable T x" "\<bar>x\<bar> \<le> 13493037698" by simp_all
  from operator_bounded [OF Cons.prems(1) x assms] obtain r s1 where
    1: "FastSin_operator T D s (Fin x) = Inr (Fin r, s1)" "cache_bounded T s1" by blast
  from Cons.IH [OF 1(2)] Cons.prems(2) obtain rs s2 where
    2: "FastSin_calls T D s1 (map Fin xs) = Inr (map Fin rs, s2)" "length rs = length xs"
       "cache_bounded T s2" by auto
  have "FastSin_calls T D s (map Fin (x # xs)) = Inr (map Fin (r # rs), s2)"
    using 1(1) 2(1) by simp
  moreover have "length (r # rs) = length (x # xs)" using 2(2) by simp
  ultimately show ?case using 2(3) by blast
qed

lemma representable_minus_6: "representable Binary64 (- 6)"
  unfolding representable_def
  by (rule rnd_cert [where e = "2" and q = "- 50" and n = "- 6755399441055744"])
     (simp_all add: max_finite_def)

lemma representable_1000: "representable Binary64 1000"
  unfolding representable_def
  by (rule rnd_cert [where e = "9" and q = "- 43" and n = "8796093022208000"])
     (simp_all add: max_finite_def)

text \<open>
  Claim C7, amended. For Degree 7 and Degree 9 and either \<open>T\<close>, a sequence of calls on one
  object returns a finite value at every call, with no undefined behaviour, when every
  angle is a finite value of \<^verbatim>\<open>T\<close> of magnitude at most \<open>13493037698\<close> (the integer below
  \<open>INT_MAX * 2\<pi>\<close>) and the object is new or, more generally, its cache is the cache
  that a call leaves. The cache is of that kind again after the calls.
\<close>

theorem calls_return_for_bounded_angles:
  "(D = 7 \<or> D = 9) \<and> cache_bounded T s \<and>
   (\<forall>x \<in> set xs. representable T x \<and> \<bar>x\<bar> \<le> 13493037698) \<longrightarrow>
   (\<exists>rs s'. FastSin_calls T D s (map Fin xs) = Inr (map Fin rs, s') \<and>
      length rs = length xs \<and> cache_bounded T s')"
  using calls_bounded by blast

theorem calls_return_for_bounded_angles_witness:
  "(7 = (7 :: int) \<or> 7 = (9 :: int)) \<and>
   cache_bounded Binary64 \<lparr>m_hasValidPreviousAngle = False, m_previousAngle = NaN,
      m_previousFullCyckles = 0, m_previousFullCycklesAngle = NaN\<rparr> \<and>
   representable Binary64 (- 6) \<and> \<bar>- 6 :: rat\<bar> \<le> 13493037698 \<and>
   representable Binary64 1000 \<and> \<bar>1000 :: rat\<bar> \<le> 13493037698 \<and>
   (\<exists>rs s'. FastSin_calls Binary64 7 \<lparr>m_hasValidPreviousAngle = False, m_previousAngle = NaN,
      m_previousFullCyckles = 0, m_previousFullCycklesAngle = NaN\<rparr> (map Fin [- 6, 1000]) =
        Inr (map Fin rs, s') \<and>
      length rs = length [- 6, 1000 :: rat] \<and> cache_bounded Binary64 s')"
proof -
  let ?s = "\<lparr>m_hasValidPreviousAngle = False, m_previousAngle = NaN,
      m_previousFullCyckles = 0, m_previousFullCycklesAngle = NaN\<rparr>"
  have 1: "cache_bounded Binary64 ?s" by (simp add: cache_bounded_def)
  have 2: "\<forall>x \<in> set [- 6, 1000]. representable Binary64 x \<and> \<bar>x\<bar> \<le> (13493037698 :: rat)"
    using representable_minus_6 representable_1000 by simp
  have 3: "7 = (7 :: int) \<or> 7 = (9 :: int)" by simp
  have 4: "\<bar>- 6 :: rat\<bar> \<le> 13493037698 \<and> \<bar>1000 :: rat\<bar> \<le> 13493037698" by simp
  from calls_return_for_bounded_angles [of 7 Binary64 ?s "[- 6, 1000]"] 1 2 3
  have "\<exists>rs s'. FastSin_calls Binary64 7 ?s (map Fin [- 6, 1000]) = Inr (map Fin rs, s') \<and>
      length rs = length [- 6, 1000 :: rat] \<and> cache_bounded Binary64 s'"
    by blast
  with 1 3 4 representable_minus_6 representable_1000 show ?thesis by blast
qed

end
